(* ===== verification/Tempo_Prelude.thy ===== *)
theory Tempo_Prelude
  imports Main "HOL-Library.Word"
begin

text \<open>
  Shared vocabulary of the development.

  \<^item> The machine integers of the Rust sources as words of the same width, with Rust's
    \<open>checked_*\<close>, \<open>saturating_*\<close> and \<open>try_into\<close> operations on them; each comes with a
    characterisation over the natural numbers, so that the component proofs are done in
    linear arithmetic on \<open>unat\<close>.
  \<^item> The effect of a precompile method: it reads a host environment, transforms a storage
    state, appends to the event log, and may return an error. \<open>Result<T>\<close> of the sources
    is the sum type with \<open>Inl\<close> the error. An error carries no state: the EVM reverts the
    call frame, so nothing a failing call wrote survives.
  \<^item> \<open>valid\<close>, a small Hoare logic on these methods, and the locales the components
    share: state components (\<open>lens\<close>) and inductive invariants (\<open>stepwise_invariant\<close>).
\<close>

named_theorems checked_simps \<open>checked word arithmetic, over the natural numbers\<close>
named_theorems run_simps \<open>how a composed operation runs\<close>
named_theorems exec_simps \<open>executing a composed operation from a given state\<close>
named_theorems valid_intros \<open>Hoare rules\<close>

section \<open>Machine integers\<close>

type_synonym u8 = "8 word"
type_synonym u16 = "16 word"
type_synonym u32 = "32 word"
type_synonym u96 = "96 word"
type_synonym u64 = "64 word"
type_synonym u128 = "128 word"
type_synonym u256 = "256 word"
type_synonym i16 = "16 word"
type_synonym b256 = "256 word"
type_synonym address = "160 word"

definition checked_add :: "'a::len word \<Rightarrow> 'a word \<Rightarrow> 'a word option" where
  "checked_add a b = (if unat a + unat b < 2 ^ LENGTH('a) then Some (a + b) else None)"

definition checked_sub :: "'a::len word \<Rightarrow> 'a word \<Rightarrow> 'a word option" where
  "checked_sub a b = (if b \<le> a then Some (a - b) else None)"

definition checked_mul :: "'a::len word \<Rightarrow> 'a word \<Rightarrow> 'a word option" where
  "checked_mul a b = (if unat a * unat b < 2 ^ LENGTH('a) then Some (a * b) else None)"

definition checked_div :: "'a::len word \<Rightarrow> 'a word \<Rightarrow> 'a word option" where
  "checked_div a b = (if b = 0 then None else Some (a div b))"

definition saturating_add :: "'a::len word \<Rightarrow> 'a word \<Rightarrow> 'a word" where
  "saturating_add a b = (if unat a + unat b < 2 ^ LENGTH('a) then a + b else - 1)"

definition saturating_sub :: "'a::len word \<Rightarrow> 'a word \<Rightarrow> 'a word" where
  "saturating_sub a b = (if b \<le> a then a - b else 0)"

definition saturating_mul :: "'a::len word \<Rightarrow> 'a word \<Rightarrow> 'a word" where
  "saturating_mul a b = (if unat a * unat b < 2 ^ LENGTH('a) then a * b else - 1)"

definition try_into :: "'a::len word \<Rightarrow> 'b::len word option" where
  "try_into a = (if unat a < 2 ^ LENGTH('b) then Some (ucast a) else None)"

definition saturating_to :: "'a::len word \<Rightarrow> 'b::len word" where
  "saturating_to a = (if unat a < 2 ^ LENGTH('b) then ucast a else - 1)"

lemma unat_bound: "unat (w :: 'a::len word) < 2 ^ LENGTH('a)"
  by (rule unsigned_less)

lemma unat_of_nat_small: "n < 2 ^ LENGTH('a) \<Longrightarrow> unat (of_nat n :: 'a::len word) = n"
  by (simp add: unsigned_of_nat take_bit_nat_eq_self)

lemma checked_add_Some [checked_simps]:
  "checked_add a b = Some c \<longleftrightarrow> unat c = unat a + unat b"
  by (auto simp: checked_add_def unat_word_ariths word_unat_eq_iff)
    (metis unsigned_less)+

lemma checked_add_None [checked_simps]:
  "checked_add (a :: 'a::len word) b = None \<longleftrightarrow> 2 ^ LENGTH('a) \<le> unat a + unat b"
  by (auto simp: checked_add_def)

lemma checked_sub_Some [checked_simps]:
  "checked_sub a b = Some c \<longleftrightarrow> unat a = unat c + unat b"
  by (auto simp: checked_sub_def unat_sub word_le_nat_alt word_unat_eq_iff)

lemma checked_sub_None [checked_simps]: "checked_sub a b = None \<longleftrightarrow> unat a < unat b"
  by (auto simp: checked_sub_def word_le_nat_alt)

lemma checked_mul_Some [checked_simps]:
  "checked_mul a b = Some c \<longleftrightarrow> unat c = unat a * unat b"
  by (auto simp: checked_mul_def unat_word_ariths word_unat_eq_iff)
    (metis unsigned_less)+

lemma checked_mul_None [checked_simps]:
  "checked_mul (a :: 'a::len word) b = None \<longleftrightarrow> 2 ^ LENGTH('a) \<le> unat a * unat b"
  by (auto simp: checked_mul_def)

lemma checked_div_Some [checked_simps]:
  "checked_div a b = Some c \<longleftrightarrow> b \<noteq> 0 \<and> unat c = unat a div unat b"
  by (auto simp: checked_div_def unat_div word_unat_eq_iff)

lemma checked_div_None [checked_simps]: "checked_div a b = None \<longleftrightarrow> b = 0"
  by (auto simp: checked_div_def)

lemma try_into_Some [checked_simps]: "try_into a = Some c \<longleftrightarrow> unat c = unat a"
proof -
  have "unat (ucast a :: 'a word) = unat a" if "unat a < 2 ^ LENGTH('a)"
    using that by (simp add: unsigned_ucast_eq take_bit_nat_eq_self)
  then show ?thesis
    by (auto simp: try_into_def word_unat_eq_iff) (metis unsigned_less)
qed

lemma try_into_None [checked_simps]:
  "(try_into a :: 'b::len word option) = None \<longleftrightarrow> 2 ^ LENGTH('b) \<le> unat a"
  by (auto simp: try_into_def)

lemma unat_max_word [simp]: "unat (- 1 :: 'a::len word) = 2 ^ LENGTH('a) - 1"
  by (simp add: unsigned_minus_1_eq_mask mask_eq_exp_minus_1)

lemma unat_ucast_up: "LENGTH('a) \<le> LENGTH('b) \<Longrightarrow> unat (ucast (w :: 'a::len word) :: 'b::len word) = unat w"
  by (simp add: unsigned_ucast_eq take_bit_nat_eq_self order_less_le_trans[OF unsigned_less])

lemma unat_less_max: "w \<noteq> - 1 \<Longrightarrow> unat (w :: 'a::len word) < 2 ^ LENGTH('a) - 1"
proof -
  assume "w \<noteq> - 1"
  then have "unat w \<noteq> unat (- 1 :: 'a word)" by (simp only: word_unat_eq_iff[symmetric] not_False_eq_True)
  moreover have "unat w < 2 ^ LENGTH('a)" by (rule unsigned_less)
  ultimately show ?thesis unfolding unat_max_word by linarith
qed

lemma clamp_eq_min: "(if x < 2 ^ n then x else 2 ^ n - 1) = min x (2 ^ n - 1)" for x :: nat
  by (cases "x < 2 ^ n") (auto simp: min_def)

lemma unat_saturating_add:
  "unat (saturating_add a b) = min (unat a + unat b) (2 ^ LENGTH('a) - 1)"
  for a b :: "'a::len word"
  unfolding clamp_eq_min[symmetric] by (simp add: saturating_add_def unat_word_ariths)

lemma unat_saturating_sub: "unat (saturating_sub a b) = unat a - unat b"
  by (auto simp: saturating_sub_def unat_sub word_le_nat_alt)

lemma unat_saturating_mul:
  "unat (saturating_mul a b) = min (unat a * unat b) (2 ^ LENGTH('a) - 1)"
  for a b :: "'a::len word"
  unfolding clamp_eq_min[symmetric] by (simp add: saturating_mul_def unat_word_ariths)

lemma unat_saturating_to:
  "unat (saturating_to a :: 'b::len word) = min (unat a) (2 ^ LENGTH('b) - 1)"
  unfolding clamp_eq_min[symmetric]
  by (simp add: saturating_to_def unsigned_ucast_eq take_bit_nat_eq_self)

section \<open>Sums over a finite index type\<close>

text \<open>
  Account balances are total functions from addresses, so a total over all accounts is a
  sum over the finite type. One update moves it by the difference at the updated index.
\<close>

definition total_of :: "('k::finite \<Rightarrow> 'a::len word) \<Rightarrow> nat" where
  "total_of f = (\<Sum>k \<in> UNIV. unat (f k))"

lemma sum_fun_upd:
  fixes g :: "'k::finite \<Rightarrow> 'v \<Rightarrow> nat"
  shows "(\<Sum>k \<in> UNIV. g k ((f(a := v)) k)) + g a (f a) = (\<Sum>k \<in> UNIV. g k (f k)) + g a v"
proof -
  have *: "(\<Sum>k \<in> UNIV. h k) = h a + (\<Sum>k \<in> UNIV - {a}. h k)" for h :: "'k \<Rightarrow> nat"
    by (simp add: sum.remove)
  have "(\<Sum>k \<in> UNIV - {a}. g k ((f(a := v)) k)) = (\<Sum>k \<in> UNIV - {a}. g k (f k))"
    by (rule sum.cong) auto
  then show ?thesis
    using *[of "\<lambda>k. g k ((f(a := v)) k)"] *[of "\<lambda>k. g k (f k)"] by simp
qed

lemma total_upd: "total_of (f(a := v)) + unat (f a) = total_of f + unat v"
  unfolding total_of_def using sum_fun_upd[where g = "\<lambda>_ w. unat w"] by simp

lemma total_ge: "unat (f a) \<le> total_of f"
  unfolding total_of_def by (rule member_le_sum) auto

lemma total_ge_two: "a \<noteq> b \<Longrightarrow> unat (f a) + unat (f b) \<le> total_of f"
proof -
  assume "a \<noteq> b"
  have "unat ((f(a := 0)) b) \<le> total_of (f(a := 0))" by (rule total_ge)
  with \<open>a \<noteq> b\<close> total_upd[of f a 0] show ?thesis by simp
qed

lemma total_zero [simp]: "total_of (\<lambda>_. 0) = 0"
  by (simp add: total_of_def)

section \<open>Results and operations\<close>

text \<open>\<open>rbind\<close> is the question mark operator of Rust on a \<open>Result\<close>.\<close>

definition rbind :: "'e + 'a \<Rightarrow> ('a \<Rightarrow> 'e + 'b) \<Rightarrow> 'e + 'b" where
  "rbind m f = (case m of Inl e \<Rightarrow> Inl e | Inr a \<Rightarrow> f a)"

definition rensure :: "bool \<Rightarrow> 'e \<Rightarrow> 'e + unit" where
  "rensure b e = (if b then Inr () else Inl e)"

definition rok_or :: "'a option \<Rightarrow> 'e \<Rightarrow> 'e + 'a" where
  "rok_or opt e = (case opt of None \<Rightarrow> Inl e | Some a \<Rightarrow> Inr a)"

lemma rbind_Inl [simp]: "rbind (Inl e) f = Inl e"
  and rbind_Inr [simp]: "rbind (Inr a) f = f a"
  by (simp_all add: rbind_def)

lemma rbind_eq_Inr [run_simps]:
  "rbind m f = Inr b \<longleftrightarrow> (\<exists>a. m = Inr a \<and> f a = Inr b)"
  by (cases m) auto

lemma rensure_eq_Inr [run_simps]: "rensure b e = Inr u \<longleftrightarrow> b"
  by (simp add: rensure_def)

lemma rensure_simps [simp]: "rensure True e = Inr ()" "rensure False e = Inl e"
  by (simp_all add: rensure_def)

lemma rok_or_eq_Inr [run_simps]: "rok_or opt e = Inr a \<longleftrightarrow> opt = Some a"
  by (simp add: rok_or_def split: option.splits)

lemma rok_or_simps [simp]: "rok_or None e = Inl e" "rok_or (Some a) e = Inr a"
  by (simp_all add: rok_or_def)

text \<open>
  An operation on storage \<open>'s\<close> in environment \<open>'r\<close>: an error of type \<open>'e\<close>, or the
  returned value, the new storage and the events emitted, in order.
\<close>

type_synonym ('r, 'e, 'l, 's, 'a) operation = "'r \<Rightarrow> 's \<Rightarrow> 'e + 'a \<times> 's \<times> 'l list"

definition ret :: "'a \<Rightarrow> ('r, 'e, 'l, 's, 'a) operation" where
  "ret a = (\<lambda>r s. Inr (a, s, []))"

definition throw :: "'e \<Rightarrow> ('r, 'e, 'l, 's, 'a) operation" where
  "throw e = (\<lambda>r s. Inl e)"

definition bind ::
  "('r, 'e, 'l, 's, 'a) operation \<Rightarrow> ('a \<Rightarrow> ('r, 'e, 'l, 's, 'b) operation) \<Rightarrow>
   ('r, 'e, 'l, 's, 'b) operation" where
  "bind m f = (\<lambda>r s. case m r s of
      Inl e \<Rightarrow> Inl e
    | Inr (a, s1, l1) \<Rightarrow>
        (case f a r s1 of Inl e \<Rightarrow> Inl e | Inr (b, s2, l2) \<Rightarrow> Inr (b, s2, l1 @ l2)))"

definition ask :: "('r \<Rightarrow> 'a) \<Rightarrow> ('r, 'e, 'l, 's, 'a) operation" where
  "ask f = (\<lambda>r s. Inr (f r, s, []))"

definition gets :: "('s \<Rightarrow> 'a) \<Rightarrow> ('r, 'e, 'l, 's, 'a) operation" where
  "gets f = (\<lambda>r s. Inr (f s, s, []))"

definition modify :: "('s \<Rightarrow> 's) \<Rightarrow> ('r, 'e, 'l, 's, unit) operation" where
  "modify f = (\<lambda>r s. Inr ((), f s, []))"

definition emit :: "'l \<Rightarrow> ('r, 'e, 'l, 's, unit) operation" where
  "emit ev = (\<lambda>r s. Inr ((), s, [ev]))"

text \<open>\<open>query\<close> runs a method that takes \<open>&self\<close>: it may fail but changes nothing.\<close>

definition query :: "('r \<Rightarrow> 's \<Rightarrow> 'e + 'a) \<Rightarrow> ('r, 'e, 'l, 's, 'a) operation" where
  "query f = (\<lambda>r s. case f r s of Inl e \<Rightarrow> Inl e | Inr a \<Rightarrow> Inr (a, s, []))"

definition ensure :: "bool \<Rightarrow> 'e \<Rightarrow> ('r, 'e, 'l, 's, unit) operation" where
  "ensure b e = (if b then ret () else throw e)"

definition ok_or :: "'a option \<Rightarrow> 'e \<Rightarrow> ('r, 'e, 'l, 's, 'a) operation" where
  "ok_or opt e = (case opt of None \<Rightarrow> throw e | Some a \<Rightarrow> ret a)"

definition whenM :: "bool \<Rightarrow> ('r, 'e, 'l, 's, unit) operation \<Rightarrow> ('r, 'e, 'l, 's, unit) operation" where
  "whenM b m = (if b then m else ret ())"

fun foreach :: "'x list \<Rightarrow> ('x \<Rightarrow> ('r, 'e, 'l, 's, unit) operation) \<Rightarrow>
    ('r, 'e, 'l, 's, unit) operation" where
  "foreach [] f = ret ()"
| "foreach (x # xs) f = bind (f x) (\<lambda>_. foreach xs f)"

definition map_err :: "('e \<Rightarrow> 'e) \<Rightarrow> ('r, 'e, 'l, 's, 'a) operation \<Rightarrow> ('r, 'e, 'l, 's, 'a) operation" where
  "map_err h m = (\<lambda>r s. case m r s of Inl e \<Rightarrow> Inl (h e) | Inr x \<Rightarrow> Inr x)"

text \<open>\<open>zoom\<close> runs an operation of one component on its part of a larger state.\<close>

definition zoom :: "('s \<Rightarrow> 'c) \<Rightarrow> ('c \<Rightarrow> 's \<Rightarrow> 's) \<Rightarrow> ('r, 'e, 'l, 'c, 'a) operation \<Rightarrow>
    ('r, 'e, 'l, 's, 'a) operation" where
  "zoom g p m = (\<lambda>r s. case m r (g s) of
      Inl e \<Rightarrow> Inl e | Inr (a, c, l) \<Rightarrow> Inr (a, p c s, l))"

lemma ret_run [simp]: "ret a r s = Inr (a, s, [])"
  and throw_run [simp]: "throw e r s = Inl e"
  and ask_run [simp]: "ask f r s = Inr (f r, s, [])"
  and gets_run [simp]: "gets g r s = Inr (g s, s, [])"
  and modify_run [simp]: "modify h r s = Inr ((), h s, [])"
  and emit_run [simp]: "emit ev r s = Inr ((), s, [ev])"
  by (simp_all add: ret_def throw_def ask_def gets_def modify_def emit_def)

lemma query_run:
  "query f r s = (case f r s of Inl e \<Rightarrow> Inl e | Inr a \<Rightarrow> Inr (a, s, []))"
  by (simp add: query_def)

lemma ensure_run [exec_simps]: "ensure b e r s = (if b then Inr ((), s, []) else Inl e)"
  by (simp add: ensure_def)

lemma ok_or_run [simp]: "ok_or None e r s = Inl e" "ok_or (Some a) e r s = Inr (a, s, [])"
  by (simp_all add: ok_or_def)

lemma whenM_run [exec_simps]: "whenM b m r s = (if b then m r s else Inr ((), s, []))"
  by (simp add: whenM_def)

lemma bind_run:
  "bind m f r s = (case m r s of Inl e \<Rightarrow> Inl e
     | Inr (a, s1, l1) \<Rightarrow>
        (case f a r s1 of Inl e \<Rightarrow> Inl e | Inr (b, s2, l2) \<Rightarrow> Inr (b, s2, l1 @ l2)))"
  by (simp add: bind_def)

lemma bind_eq_Inr [run_simps]:
  "bind m f r s = Inr (b, s', l) \<longleftrightarrow>
     (\<exists>a s1 l1 l2. m r s = Inr (a, s1, l1) \<and> f a r s1 = Inr (b, s', l2) \<and> l = l1 @ l2)"
  by (auto simp: bind_def split: sum.splits)

lemma query_eq_Inr [run_simps]:
  "query f r s = Inr (a, s', l) \<longleftrightarrow> f r s = Inr a \<and> s' = s \<and> l = []"
  by (auto simp: query_def split: sum.splits)

lemma ensure_eq_Inr [run_simps]:
  "ensure b e r s = Inr (a, s', l) \<longleftrightarrow> b \<and> s' = s \<and> l = []"
  by (simp add: ensure_def ret_def throw_def, metis)

lemma whenM_eq_Inr [run_simps]:
  "whenM b m r s = Inr (a, s', l) \<longleftrightarrow> (if b then m r s = Inr (a, s', l) else s' = s \<and> l = [])"
  by (auto simp: whenM_def)

lemma ok_or_eq_Inr [run_simps]:
  "ok_or opt e r s = Inr (a, s', l) \<longleftrightarrow> opt = Some a \<and> s' = s \<and> l = []"
  by (auto simp: ok_or_def split: option.splits)

lemma zoom_eq_Inr [run_simps]:
  "zoom g p m r s = Inr (a, s', l) \<longleftrightarrow> (\<exists>c. m r (g s) = Inr (a, c, l) \<and> s' = p c s)"
  by (auto simp: zoom_def split: sum.splits)

lemma map_err_eq_Inr [run_simps]: "map_err h m r s = Inr x \<longleftrightarrow> m r s = Inr x"
  by (auto simp: map_err_def split: sum.splits)

text \<open>
  Executing \<open>bind\<close> by its first operation: the simplifier walks through an operation from
  a given state without unfolding \<open>bind\<close> itself.
\<close>

definition logged :: "'l list \<Rightarrow> 'e + 'a \<times> 's \<times> 'l list \<Rightarrow> 'e + 'a \<times> 's \<times> 'l list" where
  "logged l0 res = (case res of Inl e \<Rightarrow> Inl e | Inr (a, s, l) \<Rightarrow> Inr (a, s, l0 @ l))"

lemma logged_simps [simp]:
  "logged l0 (Inl e) = Inl e" "logged l0 (Inr (a, s, l)) = Inr (a, s, l0 @ l)"
  "logged [] res = res"
  by (auto simp: logged_def split: sum.splits)

lemma bind_exec [exec_simps]:
  "bind (ret a) f1 r s = f1 a r s"
  "bind (throw e) f2 r s = Inl e"
  "bind (ask g) f3 r s = f3 (g r) r s"
  "bind (gets h) f4 r s = f4 (h s) r s"
  "bind (modify k) f5 r s = f5 () r (k s)"
  "bind (emit ev) f5 r s = logged [ev] (f5 () r s)"
  "bind (query q) f6 r s = (case q r s of Inl e \<Rightarrow> Inl e | Inr a \<Rightarrow> f6 a r s)"
  "bind (ensure b e) f5 r s = (if b then f5 () r s else Inl e)"
  "bind (ok_or opt e) f7 r s = (case opt of None \<Rightarrow> Inl e | Some a \<Rightarrow> f7 a r s)"
  "bind (whenM b m) f5 r s = (if b then bind m f5 r s else f5 () r s)"
  by (auto simp: bind_def logged_def query_def ok_or_def ensure_def whenM_def split: sum.splits option.splits)

definition andthen :: "'e + 'a \<times> 's \<times> 'l list \<Rightarrow> ('a \<Rightarrow> ('r, 'e, 'l, 's, 'b) operation) \<Rightarrow> 'r \<Rightarrow>
    'e + 'b \<times> 's \<times> 'l list" where
  "andthen res f r = (case res of Inl e \<Rightarrow> Inl e | Inr (a, s, l) \<Rightarrow> logged l (f a r s))"

lemma andthen_simps [simp]:
  "andthen (Inl e) f r = Inl e" "andthen (Inr (a, s, l)) f r = logged l (f a r s)"
  by (simp_all add: andthen_def)

lemma bind_andthen: "bind m f r s = andthen (m r s) f r"
  by (auto simp: bind_def andthen_def logged_def split: sum.splits)

lemmas bind_nested [exec_simps] =
  bind_andthen[of "zoom g p m" for g p m] bind_andthen[of "foreach xs m" for xs m]
  bind_andthen[of "map_err h m" for h m]

lemma bind_assoc [exec_simps]: "bind (bind m f) g = bind m (\<lambda>a. bind (f a) g)"
  by (intro ext) (auto simp: bind_def split: sum.splits)

lemma foreach_append: "foreach (xs @ ys) f = bind (foreach xs f) (\<lambda>_. foreach ys f)"
proof (induction xs)
  case Nil
  show ?case by (intro ext) (auto simp: bind_def split: sum.splits)
next
  case (Cons x xs)
  then show ?case by (simp add: bind_assoc)
qed

lemma foreach_modify [exec_simps]:
  "foreach xs (\<lambda>x. modify (f x)) r s = Inr ((), fold f xs s, [])"
  by (induction xs arbitrary: s) (simp_all add: bind_exec)

lemma foreach_effect:
  assumes "\<And>x s u s' l. f x r s = Inr (u, s', l) \<Longrightarrow> s' = g x s"
    and "foreach xs f r s = Inr (u, s', l)"
  shows "s' = fold g xs s"
  using assms(2)
proof (induction xs arbitrary: s l)
  case (Cons x xs)
  then obtain s1 l1 l2 where "f x r s = Inr ((), s1, l1)" "foreach xs f r s1 = Inr (u, s', l2)"
    by (auto simp: run_simps)
  with Cons.IH assms(1) show ?case by fastforce
qed simp

section \<open>Hoare triples\<close>

text \<open>
  \<open>valid r P m Q\<close>: run from a state with \<open>P\<close>, if \<open>m\<close> succeeds it returns a value and a
  state with \<open>Q\<close>. That an operation does succeed is stated separately, as an equation or
  an existence statement about its result.
\<close>

definition valid :: "'r \<Rightarrow> ('s \<Rightarrow> bool) \<Rightarrow> ('r, 'e, 'l, 's, 'a) operation \<Rightarrow>
    ('a \<Rightarrow> 's \<Rightarrow> bool) \<Rightarrow> bool" where
  "valid r P m Q \<longleftrightarrow> (\<forall>s a s' l. P s \<longrightarrow> m r s = Inr (a, s', l) \<longrightarrow> Q a s')"

abbreviation preserves :: "'r \<Rightarrow> ('s \<Rightarrow> bool) \<Rightarrow> ('r, 'e, 'l, 's, 'a) operation \<Rightarrow> bool" where
  "preserves r I m \<equiv> valid r I m (\<lambda>_. I)"

lemma validI: "(\<And>s a s' l. P s \<Longrightarrow> m r s = Inr (a, s', l) \<Longrightarrow> Q a s') \<Longrightarrow> valid r P m Q"
  by (simp add: valid_def)

lemma validD: "valid r P m Q \<Longrightarrow> P s \<Longrightarrow> m r s = Inr (a, s', l) \<Longrightarrow> Q a s'"
  by (simp add: valid_def)

lemma valid_weaken: "valid r P m Q \<Longrightarrow> (\<And>s. P' s \<Longrightarrow> P s) \<Longrightarrow> (\<And>a s. Q a s \<Longrightarrow> Q' a s) \<Longrightarrow> valid r P' m Q'"
  unfolding valid_def by blast

lemma valid_bind: "valid r P m Q \<Longrightarrow> (\<And>a. valid r (Q a) (f a) R) \<Longrightarrow> valid r P (bind m f) R"
  by (auto simp: valid_def run_simps)

lemma preserves_bind [valid_intros]:
  "preserves r I m \<Longrightarrow> (\<And>a. preserves r I (f a)) \<Longrightarrow> preserves r I (bind m f)"
  by (rule valid_bind)

lemma preserves_basic [valid_intros]:
  "preserves r I (ret a)"
  "preserves r I (throw e)"
  "preserves r I (ask f)"
  "preserves r I (gets g)"
  "preserves r I (emit ev)"
  "preserves r I (query q)"
  "preserves r I (ensure b e)"
  "preserves r I (ok_or opt e)"
  by (auto simp: valid_def run_simps)

lemma preserves_modify [valid_intros]: "(\<And>s. I s \<Longrightarrow> I (f s)) \<Longrightarrow> preserves r I (modify f)"
  by (auto simp: valid_def)

lemma preserves_if [valid_intros]:
  "(b \<Longrightarrow> preserves r I m) \<Longrightarrow> (\<not> b \<Longrightarrow> preserves r I m') \<Longrightarrow> preserves r I (if b then m else m')"
  by simp

lemma preserves_whenM [valid_intros]:
  "(b \<Longrightarrow> preserves r I m) \<Longrightarrow> preserves r I (whenM b m)"
  by (simp add: whenM_def preserves_basic)

lemma preserves_option [valid_intros]:
  "(opt = None \<Longrightarrow> preserves r I m) \<Longrightarrow> (\<And>a. opt = Some a \<Longrightarrow> preserves r I (f a)) \<Longrightarrow>
   preserves r I (case opt of None \<Rightarrow> m | Some a \<Rightarrow> f a)"
  by (simp split: option.splits)

lemma preserves_prod [valid_intros]:
  "(\<And>a b. x = (a, b) \<Longrightarrow> preserves r I (f a b)) \<Longrightarrow> preserves r I (case x of (a, b) \<Rightarrow> f a b)"
  by (simp split: prod.splits)

lemma preserves_foreach [valid_intros]:
  "(\<And>x. x \<in> set xs \<Longrightarrow> preserves r I (f x)) \<Longrightarrow> preserves r I (foreach xs f)"
  by (induction xs) (auto intro!: valid_intros)

lemma preserves_map_err [valid_intros]: "preserves r I m \<Longrightarrow> preserves r I (map_err h m)"
  by (auto simp: valid_def run_simps)

lemma preserves_True: "preserves r (\<lambda>_. True) m"
  by (simp add: valid_def)

section \<open>State components\<close>

text \<open>
  A component of a larger state, with the access laws that make an operation zoomed onto it
  act on that component only.
\<close>

locale lens =
  fixes g :: "'s \<Rightarrow> 'c" and p :: "'c \<Rightarrow> 's \<Rightarrow> 's"
  assumes get_put: "g (p c s) = c"
    and put_get: "p (g s) s = s"
    and put_put: "p c (p d s) = p c s"
begin

lemma valid_zoom:
  assumes "valid r P m Q"
  shows "valid r (\<lambda>s. P (g s)) (zoom g p m) (\<lambda>a s. Q a (g s))"
  using assms by (auto simp: valid_def run_simps get_put)

lemma zoom_frame:
  assumes "\<And>c s. h (p c s) = h s"
  shows "valid r (\<lambda>s. h s = x) (zoom g p m) (\<lambda>_ s. h s = x)"
  using assms by (auto simp: valid_def run_simps)

lemma zoom_bind: "zoom g p (bind m f) = bind (zoom g p m) (\<lambda>a. zoom g p (f a))"
  by (intro ext) (auto simp: zoom_def bind_def get_put put_put split: sum.splits)

lemma zoom_ret: "zoom g p (ret a) = ret a"
  by (intro ext) (simp add: zoom_def put_get)

end

section \<open>Inductive invariants\<close>

text \<open>
  A transition relation with an invariant that every step keeps: the invariant holds after
  any number of steps.
\<close>

locale stepwise_invariant =
  fixes step :: "'s \<Rightarrow> 's \<Rightarrow> bool" and inv :: "'s \<Rightarrow> bool"
  assumes step_inv: "step s s' \<Longrightarrow> inv s \<Longrightarrow> inv s'"
begin

lemma steps_inv: "step\<^sup>*\<^sup>* s s' \<Longrightarrow> inv s \<Longrightarrow> inv s'"
  by (induction rule: rtranclp_induct) (auto intro: step_inv)

end

end
