(* ===== verification/Tempo_Hardfork.thy ===== *)
theory Tempo_Hardfork
  imports Tempo_Prelude
begin

text \<open>
  Hardfork identifiers (crate \<open>tempo-hardfork\<close>): the enumeration, its order, the
  generated \<open>is_*\<close> predicates and the fork-dependent protocol constants the
  precompiles read.
\<close>

datatype tempo_hardfork =
  Genesis | T0 | T1 | T1A | T1B | T1C | T2 | T3 | T4 | T5 | T6 | T7 | T8 | T9 | T10 | T11 | T12 | T13

fun variant_index :: "tempo_hardfork \<Rightarrow> nat" where
  "variant_index Genesis = 0"
| "variant_index T0 = 1"
| "variant_index T1 = 2"
| "variant_index T1A = 3"
| "variant_index T1B = 4"
| "variant_index T1C = 5"
| "variant_index T2 = 6"
| "variant_index T3 = 7"
| "variant_index T4 = 8"
| "variant_index T5 = 9"
| "variant_index T6 = 10"
| "variant_index T7 = 11"
| "variant_index T8 = 12"
| "variant_index T9 = 13"
| "variant_index T10 = 14"
| "variant_index T11 = 15"
| "variant_index T12 = 16"
| "variant_index T13 = 17"

lemma variant_index_inject: "variant_index a = variant_index b \<Longrightarrow> a = b"
  by (cases a; cases b) simp_all

instantiation tempo_hardfork :: linorder
begin

definition less_eq_tempo_hardfork :: "tempo_hardfork \<Rightarrow> tempo_hardfork \<Rightarrow> bool" where
  "less_eq_tempo_hardfork a b = (variant_index a \<le> variant_index b)"

definition less_tempo_hardfork :: "tempo_hardfork \<Rightarrow> tempo_hardfork \<Rightarrow> bool" where
  "less_tempo_hardfork a b = (variant_index a < variant_index b)"

instance
  by standard
    (auto simp: less_eq_tempo_hardfork_def less_tempo_hardfork_def intro: variant_index_inject)

end

definition VARIANTS :: "tempo_hardfork list" where
  "VARIANTS = [Genesis, T0, T1, T1A, T1B, T1C, T2, T3, T4, T5, T6, T7, T8, T9, T10, T11, T12, T13]"

definition from_variant_index :: "u8 \<Rightarrow> tempo_hardfork option" where
  "from_variant_index i = (if unat i < length VARIANTS then Some (VARIANTS ! unat i) else None)"

definition latest_hardfork :: tempo_hardfork where
  "latest_hardfork = VARIANTS ! (length VARIANTS - 1)"

definition is_t0 :: "tempo_hardfork \<Rightarrow> bool" where "is_t0 h = (T0 \<le> h)"
definition is_t1c :: "tempo_hardfork \<Rightarrow> bool" where "is_t1c h = (T1C \<le> h)"
definition is_t2 :: "tempo_hardfork \<Rightarrow> bool" where "is_t2 h = (T2 \<le> h)"
definition is_t3 :: "tempo_hardfork \<Rightarrow> bool" where "is_t3 h = (T3 \<le> h)"
definition is_t4 :: "tempo_hardfork \<Rightarrow> bool" where "is_t4 h = (T4 \<le> h)"
definition is_t5 :: "tempo_hardfork \<Rightarrow> bool" where "is_t5 h = (T5 \<le> h)"
definition is_t6 :: "tempo_hardfork \<Rightarrow> bool" where "is_t6 h = (T6 \<le> h)"
definition is_t7 :: "tempo_hardfork \<Rightarrow> bool" where "is_t7 h = (T7 \<le> h)"
definition is_t8 :: "tempo_hardfork \<Rightarrow> bool" where "is_t8 h = (T8 \<le> h)"
definition is_t9 :: "tempo_hardfork \<Rightarrow> bool" where "is_t9 h = (T9 \<le> h)"
definition is_t11 :: "tempo_hardfork \<Rightarrow> bool" where "is_t11 h = (T11 \<le> h)"
definition is_t12 :: "tempo_hardfork \<Rightarrow> bool" where "is_t12 h = (T12 \<le> h)"

lemmas is_fork_defs = is_t0_def is_t1c_def is_t2_def is_t3_def is_t4_def is_t5_def is_t6_def
  is_t7_def is_t8_def is_t9_def is_t11_def is_t12_def

lemmas fork_eval = is_fork_defs less_eq_tempo_hardfork_def less_tempo_hardfork_def

lemma is_fork_mono:
  "is_t3 h \<Longrightarrow> is_t2 h" "is_t5 h \<Longrightarrow> is_t1c h" "is_t6 h \<Longrightarrow> is_t3 h" "is_t6 h \<Longrightarrow> is_t5 h"
  "is_t7 h \<Longrightarrow> is_t6 h" "is_t7 h \<Longrightarrow> is_t3 h" "is_t8 h \<Longrightarrow> is_t7 h" "is_t11 h \<Longrightarrow> is_t8 h"
  "is_t11 h \<Longrightarrow> is_t4 h" "is_t4 h \<Longrightarrow> is_t3 h" "is_t2 h \<Longrightarrow> is_t1c h"
  by (cases h; simp add: fork_eval)+

definition expiring_nonce_set_capacity :: "tempo_hardfork \<Rightarrow> u32" where
  "expiring_nonce_set_capacity h = (if is_t11 h then 3000000 else 300000)"

definition expiring_nonce_max_expiry_secs :: "tempo_hardfork \<Rightarrow> u64" where
  "expiring_nonce_max_expiry_secs h = (if is_t11 h then 300 else 30)"

lemma from_variant_index_roundtrip:
  "from_variant_index (of_nat (variant_index h)) = Some h"
  by (cases h) (simp_all add: from_variant_index_def VARIANTS_def)

end
