(* ===== verification/Tempo_Address.thy ===== *)
theory Tempo_Address
  imports Tempo_Hardfork
begin

unbundle bit_operations_syntax

text \<open>
  Addresses: the protocol's reserved addresses (\<open>contracts/src/precompiles/mod.rs\<close>), the
  TIP-20 and virtual-address formats (\<open>primitives/src/address.rs\<close>), and the static ABI
  encoding the hash preimages use. An address is its 20 bytes read as one 160-bit
  big-endian number, so a byte range \<open>[i:j]\<close> is the bit range from \<open>8 * (20 - j)\<close> up.
\<close>

abbreviation ADDRESS_ZERO :: address where "ADDRESS_ZERO \<equiv> 0"

definition TIP_FEE_MANAGER_ADDRESS :: address where
  "TIP_FEE_MANAGER_ADDRESS = 0xfeec000000000000000000000000000000000000"
definition PATH_USD_ADDRESS :: address where
  "PATH_USD_ADDRESS = 0x20C0000000000000000000000000000000000000"
definition DEFAULT_FEE_TOKEN :: address where
  "DEFAULT_FEE_TOKEN = PATH_USD_ADDRESS"
definition TIP403_REGISTRY_ADDRESS :: address where
  "TIP403_REGISTRY_ADDRESS = 0x403C000000000000000000000000000000000000"
definition TIP20_FACTORY_ADDRESS :: address where
  "TIP20_FACTORY_ADDRESS = 0x20FC000000000000000000000000000000000000"
definition STABLECOIN_DEX_ADDRESS :: address where
  "STABLECOIN_DEX_ADDRESS = 0xdec0000000000000000000000000000000000000"
definition NONCE_PRECOMPILE_ADDRESS :: address where
  "NONCE_PRECOMPILE_ADDRESS = 0x4E4F4E4345000000000000000000000000000000"
definition VALIDATOR_CONFIG_ADDRESS :: address where
  "VALIDATOR_CONFIG_ADDRESS = 0xCCCCCCCC00000000000000000000000000000000"
definition ACCOUNT_KEYCHAIN_ADDRESS :: address where
  "ACCOUNT_KEYCHAIN_ADDRESS = 0xAAAAAAAA00000000000000000000000000000000"
definition VALIDATOR_CONFIG_V2_ADDRESS :: address where
  "VALIDATOR_CONFIG_V2_ADDRESS = 0xCCCCCCCC00000000000000000000000000000001"
definition ADDRESS_REGISTRY_ADDRESS :: address where
  "ADDRESS_REGISTRY_ADDRESS = 0xFDC0000000000000000000000000000000000000"
definition SIGNATURE_VERIFIER_ADDRESS :: address where
  "SIGNATURE_VERIFIER_ADDRESS = 0x5165300000000000000000000000000000000000"
definition RECEIVE_POLICY_GUARD_ADDRESS :: address where
  "RECEIVE_POLICY_GUARD_ADDRESS = 0xB10C000000000000000000000000000000000000"
definition STORAGE_CREDITS_ADDRESS :: address where
  "STORAGE_CREDITS_ADDRESS = 0x1060000000000000000000000000000000000000"
definition CURRENT_COMMITTEE_ADDRESS :: address where
  "CURRENT_COMMITTEE_ADDRESS = 0xC077E00000000000000000000000000000000000"
definition TIP20_CHANNEL_RESERVE_ADDRESS :: address where
  "TIP20_CHANNEL_RESERVE_ADDRESS = 0x4D50500000000000000000000000000000000000"
definition ZONE_FACTORY_ADDRESS :: address where
  "ZONE_FACTORY_ADDRESS = 0x5AF2000000000000000000000000000000000000"
definition ZONE_VERIFIER_ADDRESS :: address where
  "ZONE_VERIFIER_ADDRESS = 0x5A56000000000000000000000000000000000000"

lemmas address_defs = TIP_FEE_MANAGER_ADDRESS_def PATH_USD_ADDRESS_def DEFAULT_FEE_TOKEN_def
  TIP403_REGISTRY_ADDRESS_def TIP20_FACTORY_ADDRESS_def STABLECOIN_DEX_ADDRESS_def
  NONCE_PRECOMPILE_ADDRESS_def VALIDATOR_CONFIG_ADDRESS_def ACCOUNT_KEYCHAIN_ADDRESS_def
  VALIDATOR_CONFIG_V2_ADDRESS_def ADDRESS_REGISTRY_ADDRESS_def SIGNATURE_VERIFIER_ADDRESS_def
  RECEIVE_POLICY_GUARD_ADDRESS_def STORAGE_CREDITS_ADDRESS_def CURRENT_COMMITTEE_ADDRESS_def
  TIP20_CHANNEL_RESERVE_ADDRESS_def ZONE_FACTORY_ADDRESS_def ZONE_VERIFIER_ADDRESS_def

definition SYSTEM_PRECOMPILES :: "(address \<times> tempo_hardfork) list" where
  "SYSTEM_PRECOMPILES =
    [(TIP403_REGISTRY_ADDRESS, Genesis),
     (TIP_FEE_MANAGER_ADDRESS, Genesis),
     (STABLECOIN_DEX_ADDRESS, Genesis),
     (NONCE_PRECOMPILE_ADDRESS, Genesis),
     (ACCOUNT_KEYCHAIN_ADDRESS, Genesis),
     (VALIDATOR_CONFIG_ADDRESS, Genesis),
     (VALIDATOR_CONFIG_V2_ADDRESS, Genesis),
     (TIP20_FACTORY_ADDRESS, Genesis),
     (ADDRESS_REGISTRY_ADDRESS, T3),
     (SIGNATURE_VERIFIER_ADDRESS, T3),
     (TIP20_CHANNEL_RESERVE_ADDRESS, T5),
     (RECEIVE_POLICY_GUARD_ADDRESS, T6),
     (STORAGE_CREDITS_ADDRESS, T7),
     (CURRENT_COMMITTEE_ADDRESS, T8),
     (ZONE_FACTORY_ADDRESS, T10),
     (ZONE_VERIFIER_ADDRESS, T13)]"

section \<open>Address formats\<close>

type_synonym master_id = "32 word"
type_synonym user_tag = "48 word"

definition TIP20_TOKEN_PREFIX :: address where
  "TIP20_TOKEN_PREFIX = 0x20C000000000000000000000"

definition ZONE_PORTAL_PREFIX :: address where
  "ZONE_PORTAL_PREFIX = 0x5AD000000000000000000000"

definition VIRTUAL_MAGIC :: address where
  "VIRTUAL_MAGIC = 0xFDFDFDFDFDFDFDFDFDFD"

definition is_tip20_prefix :: "address \<Rightarrow> bool" where
  "is_tip20_prefix a = (drop_bit 64 a = TIP20_TOKEN_PREFIX)"

definition zone_portal_id :: "address \<Rightarrow> u64 option" where
  "zone_portal_id a =
     (if drop_bit 64 a \<noteq> ZONE_PORTAL_PREFIX then None
      else let zone_id = ucast a in if zone_id \<noteq> 0 then Some zone_id else None)"

definition is_virtual :: "address \<Rightarrow> bool" where
  "is_virtual a = (take_bit 80 (drop_bit 48 a) = VIRTUAL_MAGIC)"

definition is_valid_master :: "address \<Rightarrow> bool" where
  "is_valid_master a = (a \<noteq> 0 \<and> \<not> is_virtual a \<and> \<not> is_tip20_prefix a)"

definition decode_virtual :: "address \<Rightarrow> (master_id \<times> user_tag) option" where
  "decode_virtual a =
     (if \<not> is_virtual a then None else Some (ucast (drop_bit 128 a), ucast a))"

definition new_virtual :: "master_id \<Rightarrow> user_tag \<Rightarrow> address" where
  "new_virtual m t = push_bit 128 (ucast m) OR push_bit 48 VIRTUAL_MAGIC OR ucast t"

definition is_precompile :: "address \<Rightarrow> tempo_hardfork \<Rightarrow> bool" where
  "is_precompile a spec = (is_tip20_prefix a \<or>
     list_ex (\<lambda>(p, activated). p = a \<and> activated \<le> spec) SYSTEM_PRECOMPILES)"

lemmas address_format_defs = is_tip20_prefix_def is_virtual_def is_valid_master_def
  TIP20_TOKEN_PREFIX_def VIRTUAL_MAGIC_def

lemma bit_ucast_lt [simp]: "bit (ucast (w :: 'a::len word) :: 'b::len word) n \<longleftrightarrow> n < LENGTH('b) \<and> n < LENGTH('a) \<and> bit w n"
  by (auto simp: bit_simps dest: bit_imp_le_length)

lemma new_virtual_parts:
  "take_bit 80 (drop_bit 48 (new_virtual m t)) = VIRTUAL_MAGIC"
  "ucast (drop_bit 128 (new_virtual m t)) = m"
  "ucast (new_virtual m t) = t"
proof -
  have magic: "\<not> bit VIRTUAL_MAGIC n" if "80 \<le> n" for n
  proof -
    have "VIRTUAL_MAGIC = take_bit 80 VIRTUAL_MAGIC" by (simp add: VIRTUAL_MAGIC_def)
    then show ?thesis using that by (metis bit_take_bit_iff not_le)
  qed
  show "take_bit 80 (drop_bit 48 (new_virtual m t)) = VIRTUAL_MAGIC"
    by (rule bit_word_eqI) (use magic in \<open>auto simp: new_virtual_def bit_simps not_le\<close>)
  show "ucast (drop_bit 128 (new_virtual m t)) = m"
    by (rule bit_word_eqI) (use magic in \<open>auto simp: new_virtual_def bit_simps\<close>)
  show "ucast (new_virtual m t) = t"
    by (rule bit_word_eqI) (use magic in \<open>auto simp: new_virtual_def bit_simps\<close>)
qed

lemma is_virtual_new_virtual [simp]: "is_virtual (new_virtual m t)"
  by (simp add: is_virtual_def new_virtual_parts)

lemma decode_virtual_new_virtual: "decode_virtual (new_virtual m t) = Some (m, t)"
  by (simp add: decode_virtual_def new_virtual_parts)

lemma new_virtual_decode_virtual:
  assumes "decode_virtual a = Some (m, t)"
  shows "a = new_virtual m t"
proof (rule bit_word_eqI)
  fix n assume n: "n < LENGTH(160)"
  from assms have v: "is_virtual a" and m: "m = ucast (drop_bit 128 a)" and t: "t = ucast a"
    by (auto simp: decode_virtual_def split: if_splits)
  have mid: "bit VIRTUAL_MAGIC k \<longleftrightarrow> k < 80 \<and> bit a (48 + k)" for k
  proof -
    have "bit (take_bit 80 (drop_bit 48 a)) k = bit VIRTUAL_MAGIC k"
      using v by (simp only: is_virtual_def)
    then show ?thesis by (simp add: bit_simps)
  qed
  show "bit a n \<longleftrightarrow> bit (new_virtual m t) n"
    using n by (auto simp: new_virtual_def m t mid bit_simps not_le)
qed

lemma virtual_not_zero: "is_virtual a \<Longrightarrow> a \<noteq> 0"
  by (auto simp: is_virtual_def VIRTUAL_MAGIC_def)

lemma virtual_not_tip20: "is_virtual a \<Longrightarrow> \<not> is_tip20_prefix a"
proof
  assume v: "is_virtual a" and p: "is_tip20_prefix a"
  from v have "bit (take_bit 80 (drop_bit 48 a)) 16 = bit VIRTUAL_MAGIC 16"
    by (simp add: is_virtual_def)
  then have "bit a 64"
    by (simp add: bit_simps VIRTUAL_MAGIC_def)
  moreover from p have "bit (drop_bit 64 a) 0 = bit TIP20_TOKEN_PREFIX 0"
    by (simp add: is_tip20_prefix_def)
  then have "\<not> bit a 64"
    by (simp add: bit_simps TIP20_TOKEN_PREFIX_def)
  ultimately show False by simp
qed

section \<open>Static ABI encoding\<close>

text \<open>
  \<open>be_bytes n w\<close> is the big-endian rendering of a word in \<open>n\<close> bytes; a tuple of static
  ABI values is the concatenation of one 32-byte word per value.
\<close>

definition be_bytes :: "nat \<Rightarrow> 'a::len word \<Rightarrow> u8 list" where
  "be_bytes n w = map (\<lambda>i. ucast (drop_bit (8 * (n - 1 - i)) w)) [0..<n]"

definition abi_word :: "u256 \<Rightarrow> u8 list" where
  "abi_word w = be_bytes 32 w"

definition abi_address :: "address \<Rightarrow> u8 list" where
  "abi_address a = abi_word (ucast a)"

lemma length_be_bytes [simp]: "length (be_bytes n w) = n"
  by (simp add: be_bytes_def)

lemma length_abi_word [simp]: "length (abi_word w) = 32"
  by (simp add: abi_word_def)

lemma length_abi_address [simp]: "length (abi_address a) = 32"
  by (simp add: abi_address_def)

lemma be_bytes_inject:
  fixes a b :: "'a::len word"
  assumes "be_bytes n a = be_bytes n b" and "LENGTH('a) \<le> 8 * n"
  shows "a = b"
proof (rule bit_word_eqI)
  fix k assume k: "k < LENGTH('a)"
  define q where "q = k div 8"
  have kq: "k = 8 * q + k mod 8" and r8: "k mod 8 < 8" by (auto simp: q_def)
  from k assms(2) have qn: "q < n" by (simp add: q_def)
  from assms(1) qn have "be_bytes n a ! (n - 1 - q) = be_bytes n b ! (n - 1 - q)" by simp
  moreover have "n - 1 - (n - 1 - q) = q" using qn by simp
  ultimately have "(ucast (drop_bit (8 * q) a) :: u8) = ucast (drop_bit (8 * q) b)"
    using qn by (simp add: be_bytes_def)
  then have "bit (ucast (drop_bit (8 * q) a) :: u8) (k mod 8) = bit (ucast (drop_bit (8 * q) b) :: u8) (k mod 8)"
    by simp
  with r8 k kq show "bit a k = bit b k"
    by (auto simp: bit_simps)
qed

lemma abi_word_inject [simp]: "abi_word a = abi_word b \<longleftrightarrow> a = b"
  unfolding abi_word_def by (auto dest: be_bytes_inject)

lemma ucast_address_inject [simp]: "(ucast (a :: address) :: u256) = ucast b \<longleftrightarrow> a = b"
proof -
  have "ucast (ucast x :: u256) = x" for x :: address
    by (rule ucast_up_ucast_id) (simp add: is_up)
  then show ?thesis by metis
qed

lemma abi_address_inject [simp]: "abi_address a = abi_address b \<longleftrightarrow> a = b"
  by (simp add: abi_address_def)

end
