(* ===== verification/Tempo_Types.thy ===== *)
theory Tempo_Types
  imports Tempo_Address
begin

text \<open>
  The error enumeration of the precompiles (\<open>precompiles/src/error.rs\<close> and the contract
  interfaces), their events, and the host environment a call runs in. Variants that belong
  to contracts outside this development are not listed. Gas is not modelled, so
  \<open>OutOfGas\<close> is never raised by the model; it is kept for \<open>is_system_error\<close>.
\<close>

section \<open>Errors\<close>

datatype panic_kind = UnderOverflow | EnumConversionError | ArrayOutOfBounds

datatype tip20_error =
    InsufficientBalance u256 u256 address
  | InsufficientAllowance
  | SupplyCapExceeded
  | InvalidSupplyCap
  | InvalidPayload
  | PolicyForbids
  | InvalidRecipient
  | ContractPaused
  | InvalidCurrency
  | InvalidQuoteToken
  | InvalidAmount
  | NoOptedInSupply
  | Unauthorized
  | ProtectedAddress
  | InvalidToken
  | Uninitialized
  | InvalidTransferPolicyId
  | PermitExpired
  | InvalidSignature
  | LogoURITooLong
  | InvalidLogoURI

datatype tip20_factory_error =
    AddressReserved
  | AddressNotReserved
  | InvalidQuoteTokenF
  | TokenAlreadyExists address

datatype roles_auth_error = RoleUnauthorized

datatype addr_registry_error =
    MasterIdCollision address
  | InvalidMasterAddress
  | ProofOfWorkFailed
  | VirtualAddressUnregistered

datatype tip403_error =
    PolicyUnauthorized
  | PolicyNotFound
  | PolicyNotSimple
  | InvalidPolicyType
  | IncompatiblePolicyType
  | VirtualAddressNotAllowed
  | InvalidReceivePolicyType
  | InvalidRecoveryAuthority

datatype fee_manager_error =
    FeeInvalidToken
  | InsufficientFeeTokenBalance
  | CannotChangeWithinBlock

datatype fee_amm_error =
    IdenticalAddresses
  | AmmInvalidToken
  | InsufficientLiquidity
  | InsufficientReserves
  | AmmInvalidAmount
  | DivisionByZero
  | InvalidSwapCalculation

datatype nonce_error =
    ProtocolNonceNotSupported
  | InvalidNonceKey
  | NonceOverflow
  | ExpiringNonceReplay
  | ExpiringNonceSetFull
  | InvalidExpiringNonceExpiry

datatype keychain_error =
    UnauthorizedCaller
  | KeyAlreadyExists
  | KeyNotFound
  | KeyExpired
  | SpendingLimitExceeded
  | InvalidSpendingLimit
  | InvalidSignatureType
  | ZeroPublicKey
  | ExpiryInPast
  | KeyAlreadyRevoked
  | SignatureTypeMismatch u8 u8
  | CallNotAllowed
  | InvalidCallScope
  | InvalidKeyId
  | InvalidKeyAuthorizationWitness
  | KeyAuthorizationWitnessAlreadyBurned
  | LegacyAuthorizeKeySelectorChanged u32

datatype receive_guard_error =
    InvalidReceipt
  | InvalidClaimAddress
  | UnauthorizedClaimer
  | GuardAddressReserved

datatype signature_verifier_error = InvalidFormat | VerifierInvalidSignature

datatype storage_credits_error = InvalidMode | OnlyDirectCall

datatype channel_reserve_error =
    ChannelAlreadyExists
  | ChannelNotFound
  | NotPayer
  | NotPayeeOrOperator
  | InvalidPayee
  | ZeroDeposit
  | ExpiringNonceHashNotSet
  | ReserveInvalidSignature
  | AmountExceedsDeposit
  | AmountNotIncreasing
  | CaptureAmountInvalid
  | CloseNotReady
  | DepositOverflow

datatype stablecoin_dex_error =
    DexUnauthorized
  | PairDoesNotExist
  | PairAlreadyExists
  | OrderDoesNotExist
  | IdenticalTokens
  | DexInvalidToken
  | TickOutOfBounds i16
  | InvalidTick
  | InvalidFlipTick
  | DexInsufficientBalance
  | DexInsufficientLiquidity
  | InsufficientOutput
  | MaxInputExceeded
  | BelowMinimumOrderSize u128
  | InvalidBaseToken
  | OrderNotStale
  | IndexAlreadySet

datatype tempo_error =
    StablecoinDEXErr stablecoin_dex_error
  | TIP20Err tip20_error
  | TIP20FactoryErr tip20_factory_error
  | ChannelReserveErr channel_reserve_error
  | RolesAuthErr roles_auth_error
  | AddrRegistryErr addr_registry_error
  | TIP403Err tip403_error
  | FeeManagerErr fee_manager_error
  | FeeAMMErr fee_amm_error
  | NonceErr nonce_error
  | Panic panic_kind
  | StorageDeltaUnderflow u256
  | KeychainErr keychain_error
  | SignatureVerifierErr signature_verifier_error
  | ReceivePolicyGuardErr receive_guard_error
  | StorageCreditsErr storage_credits_error
  | OutOfGas
  | UnknownFunctionSelector
  | StaticCallNotAllowed
  | Fatal string

abbreviation under_overflow :: tempo_error where
  "under_overflow \<equiv> Panic UnderOverflow"

fun is_system_error :: "tempo_error \<Rightarrow> bool" where
  "is_system_error OutOfGas = True"
| "is_system_error (Fatal _) = True"
| "is_system_error (Panic _) = True"
| "is_system_error (StorageDeltaUnderflow _) = True"
| "is_system_error _ = False"

section \<open>Events\<close>

datatype policy_type = WHITELIST | BLACKLIST | COMPOUND | PolicyTypeInvalid

datatype blocked_reason = BlockedNone | TOKEN_FILTER | RECEIVE_POLICY | BlockedInvalid

datatype inbound_kind = InboundTransfer | InboundMint | InboundInvalid

datatype tip20_event =
    Transfer address address u256
  | Approval address address u256
  | Mint address u256
  | Burn address u256
  | BurnBlocked address u256
  | TransferWithMemo address address u256 b256
  | TransferPolicyUpdate address u64
  | SupplyCapUpdate address u256
  | PauseStateUpdate address bool
  | NextQuoteTokenSet address address
  | QuoteTokenUpdate address address
  | RewardDistributed address u256
  | RewardRecipientSet address address
  | LogoURIUpdated address string

datatype roles_auth_event =
    RoleMembershipUpdated b256 address address bool
  | RoleAdminUpdated b256 b256 address

datatype tip403_event =
    PolicyCreated u64 address policy_type
  | PolicyAdminUpdated u64 address address
  | WhitelistUpdated u64 address address bool
  | BlacklistUpdated u64 address address bool
  | CompoundPolicyCreated u64 address u64 u64 u64
  | ReceivePolicyUpdated address u64 u64 address

datatype receive_guard_event =
    TransferBlocked address address u64 u256 u8 "u8 list"
  | ReceiptClaimed address address u64 u64 u8 address address address address address u256
  | ReceiptBurned address address u64 u64 u8 address address address address u256

datatype keychain_event =
    KeyAuthorized address address u8 u64
  | AdminKeyAuthorized address address
  | KeyRevoked address address
  | SpendingLimitUpdated address address address u256
  | AccessKeySpend address address address u256 u256
  | KeyAuthorizationWitness address b256
  | KeyAuthorizationWitnessBurned address b256

datatype fee_manager_event =
    UserTokenSet address address
  | ValidatorTokenSet address address
  | FeesDistributed address address u256

datatype fee_amm_event =
    AmmMint address address address address u256 u256
  | AmmBurn address address address u256 u256 u256 address
  | RebalanceSwap address address address u256 u256

datatype channel_reserve_event =
    ChannelOpened b256 address address address address address b256 b256 u96
  | Settled b256 address address u96 u96 u96
  | TopUp b256 address address u96 u96
  | CloseRequested b256 address address u256
  | ChannelClosed b256 address address u96 u96
  | CloseRequestCancelled b256 address address

datatype stablecoin_dex_event =
    PairCreated b256 address address
  | OrderPlaced u128 address address u128 bool i16 bool i16
  | OrderFilled u128 address address u128 bool
  | OrderFlipped u128 address address u128 bool i16 i16
  | FlipFailed u128 address tempo_error
  | OrderCancelled u128

datatype tempo_event =
    TIP20Event tip20_event
  | RolesAuthEvent roles_auth_event
  | TokenCreated address string string string address address b256
  | MasterRegistered master_id address
  | NonceIncremented address u256 u64
  | TIP403Event tip403_event
  | ReceiveGuardEvent receive_guard_event
  | KeychainEvent keychain_event
  | FeeManagerEvent fee_manager_event
  | FeeAMMEvent fee_amm_event
  | ChannelReserveEvent channel_reserve_event
  | StablecoinDEXEvent stablecoin_dex_event

text \<open>A log entry is the emitting contract and its event.\<close>

type_synonym log_entry = "address \<times> tempo_event"

section \<open>Host environment\<close>

text \<open>
  What a call reads but cannot change: the active hardfork, block timestamp and chain id,
  and the primitives that are external to the repository: \<open>keccak256\<close> and \<open>sha256\<close> on byte
  strings; \<open>ecrecover\<close>, the secp256k1 public key recovery from a digest, the parity bit and the
  two scalars (\<open>None\<close> when recovery fails); \<open>p256_verify\<close>, the P256 signature check for the two
  scalars, the public key and a digest; \<open>client_data_json\<close>, the JSON parser that reads the type
  and the challenge of WebAuthn client data; and \<open>base64url\<close>, the unpadded URL-safe encoding.
\<close>

record env =
  spec :: tempo_hardfork
  timestamp :: u256
  chain_id :: u64
  keccak256 :: "u8 list \<Rightarrow> b256"
  ecrecover :: "b256 \<Rightarrow> bool \<Rightarrow> b256 \<Rightarrow> b256 \<Rightarrow> address option"
  sha256 :: "u8 list \<Rightarrow> b256"
  p256_verify :: "b256 \<Rightarrow> b256 \<Rightarrow> b256 \<Rightarrow> b256 \<Rightarrow> b256 \<Rightarrow> bool"
  client_data_json :: "u8 list \<Rightarrow> (string \<times> string) option"
  base64url :: "u8 list \<Rightarrow> string"

type_synonym ('s, 'a) op = "(env, tempo_error, log_entry, 's, 'a) operation"

definition now64 :: "env \<Rightarrow> u64" where
  "now64 e = saturating_to (timestamp e)"

definition recover_signer :: "env \<Rightarrow> b256 \<Rightarrow> u8 \<Rightarrow> b256 \<Rightarrow> b256 \<Rightarrow> address option" where
  "recover_signer e digest v r s =
     (if v \<noteq> 27 \<and> v \<noteq> 28 then None
      else case ecrecover e digest (v = 28) r s of
             None \<Rightarrow> None
           | Some a \<Rightarrow> if a = 0 then None else Some a)"

text \<open>Persistent slot increments and decrements (\<open>StorageOps::sinc\<close>, \<open>StorageOps::sdec\<close>).\<close>

definition sinc :: "u256 \<Rightarrow> u256 \<Rightarrow> tempo_error + u256" where
  "sinc current delta = rok_or (checked_add current delta) under_overflow"

definition sdec :: "u256 \<Rightarrow> u256 \<Rightarrow> tempo_error + u256" where
  "sdec current delta = rok_or (checked_sub current delta) (StorageDeltaUnderflow current)"

lemma sinc_eq_Inr [run_simps]: "sinc c d = Inr v \<longleftrightarrow> unat v = unat c + unat d"
  by (simp add: sinc_def run_simps checked_simps)

lemma sdec_eq_Inr [run_simps]: "sdec c d = Inr v \<longleftrightarrow> unat c = unat v + unat d"
  by (simp add: sdec_def run_simps checked_simps)

text \<open>A call the dispatcher accepts from a hardfork on, and a call whose result is dropped.\<close>

definition since :: "tempo_hardfork \<Rightarrow> ('s, 'a) op \<Rightarrow> ('s, 'a) op" where
  "since h m = bind (query (\<lambda>e _. rensure (h \<le> spec e) UnknownFunctionSelector)) (\<lambda>_. m)"

definition discard :: "('s, 'a) op \<Rightarrow> ('s, unit) op" where
  "discard m = bind m (\<lambda>_. ret ())"

lemma since_eq_Inr [run_simps]:
  "since h m e s = Inr (a, s', l) \<longleftrightarrow> h \<le> spec e \<and> m e s = Inr (a, s', l)"
  by (auto simp: since_def run_simps)

lemma discard_eq_Inr [run_simps]:
  "discard m e s = Inr (u, s', l) \<longleftrightarrow> (\<exists>a. m e s = Inr (a, s', l))"
  by (auto simp: discard_def run_simps)

text \<open>A concrete environment, for evaluating operations.\<close>

definition demo_env :: "tempo_hardfork \<Rightarrow> u256 \<Rightarrow> env" where
  "demo_env h t = \<lparr>spec = h, timestamp = t, chain_id = 1, keccak256 = (\<lambda>_. 0),
     ecrecover = (\<lambda>_ _ _ _. None), sha256 = (\<lambda>_. 0), p256_verify = (\<lambda>_ _ _ _ _. False),
     client_data_json = (\<lambda>_. None), base64url = (\<lambda>_. [])\<rparr>"

lemma now64_demo: "unat t < 2 ^ 64 \<Longrightarrow> now64 (demo_env h t) = ucast t"
  by (simp add: now64_def demo_env_def saturating_to_def)

lemma spec_demo [simp]: "spec (demo_env h t) = h"
  by (simp add: demo_env_def)

end
