(* ===== verification/Nonce_Manager.thy ===== *)
theory Nonce_Manager
  imports Tempo_Types
begin

text \<open>
  The nonce precompile (\<open>precompiles/src/nonce/mod.rs\<close>): two-dimensional nonces, and
  replay protection for expiring-nonce transactions by a set of seen hashes with a ring
  buffer that bounds it. The ring pointer is a \<open>u32\<close> whose increment wraps; the
  invariant \<open>nonce_inv\<close> keeps it below the capacity, so it never does.
\<close>

section \<open>State and operations\<close>

record nonce_manager =
  nonces :: "address \<Rightarrow> u256 \<Rightarrow> u64"
  expiring_nonce_seen :: "b256 \<Rightarrow> u64"
  expiring_nonce_ring :: "u32 \<Rightarrow> b256"
  expiring_nonce_ring_ptr :: u32

definition get_nonce :: "address \<Rightarrow> u256 \<Rightarrow> env \<Rightarrow> nonce_manager \<Rightarrow> tempo_error + u64" where
  "get_nonce account nonce_key e s =
     (if nonce_key = 0 then Inl (NonceErr ProtocolNonceNotSupported)
      else Inr (nonces s account nonce_key))"

definition increment_nonce :: "address \<Rightarrow> u256 \<Rightarrow> (nonce_manager, u64) op" where
  "increment_nonce account nonce_key =
     bind (ensure (nonce_key \<noteq> 0) (NonceErr InvalidNonceKey)) (\<lambda>_.
     bind (gets (\<lambda>s. nonces s account nonce_key)) (\<lambda>current.
     bind (ok_or (checked_add current 1) (NonceErr NonceOverflow)) (\<lambda>new_nonce.
     bind (modify (\<lambda>s. s\<lparr>nonces := (nonces s)(account := (nonces s account)(nonce_key := new_nonce))\<rparr>)) (\<lambda>_.
     bind (emit (NONCE_PRECOMPILE_ADDRESS, NonceIncremented account nonce_key new_nonce)) (\<lambda>_.
     ret new_nonce)))))"

definition is_expiring_nonce_seen :: "b256 \<Rightarrow> u64 \<Rightarrow> nonce_manager \<Rightarrow> bool" where
  "is_expiring_nonce_seen hash now s =
     (let expiry = expiring_nonce_seen s hash in expiry \<noteq> 0 \<and> expiry > now)"

definition check_and_mark_expiring_nonce :: "b256 \<Rightarrow> u64 \<Rightarrow> (nonce_manager, unit) op" where
  "check_and_mark_expiring_nonce hash valid_before =
     bind (ask now64) (\<lambda>now.
     bind (ask (\<lambda>e. expiring_nonce_max_expiry_secs (spec e))) (\<lambda>max_expiry_secs.
     bind (ask (\<lambda>e. expiring_nonce_set_capacity (spec e))) (\<lambda>capacity.
     bind (ensure (\<not> (valid_before \<le> now \<or> valid_before > saturating_add now max_expiry_secs))
             (NonceErr InvalidExpiringNonceExpiry)) (\<lambda>_.
     bind (gets (\<lambda>s. expiring_nonce_seen s hash)) (\<lambda>seen_expiry.
     bind (ensure (\<not> (seen_expiry \<noteq> 0 \<and> seen_expiry > now)) (NonceErr ExpiringNonceReplay)) (\<lambda>_.
     bind (gets expiring_nonce_ring_ptr) (\<lambda>ptr.
     bind (gets (\<lambda>s. expiring_nonce_ring s ptr)) (\<lambda>old_hash.
     bind (whenM (old_hash \<noteq> 0)
             (bind (gets (\<lambda>s. expiring_nonce_seen s old_hash)) (\<lambda>old_expiry.
              bind (ensure (\<not> (old_expiry \<noteq> 0 \<and> old_expiry > now)) (NonceErr ExpiringNonceSetFull)) (\<lambda>_.
              modify (\<lambda>s. s\<lparr>expiring_nonce_seen := (expiring_nonce_seen s)(old_hash := 0)\<rparr>))))) (\<lambda>_.
     bind (modify (\<lambda>s. s\<lparr>expiring_nonce_ring := (expiring_nonce_ring s)(ptr := hash)\<rparr>)) (\<lambda>_.
     bind (modify (\<lambda>s. s\<lparr>expiring_nonce_seen := (expiring_nonce_seen s)(hash := valid_before)\<rparr>)) (\<lambda>_.
     modify (\<lambda>s. s\<lparr>expiring_nonce_ring_ptr := (if ptr + 1 \<ge> capacity then 0 else ptr + 1)\<rparr>))))))))))))"

lemmas nonce_defs = increment_nonce_def check_and_mark_expiring_nonce_def

section \<open>Two-dimensional nonces\<close>

lemma increment_nonce_eq:
  "increment_nonce account key e s =
     (if key = 0 then Inl (NonceErr InvalidNonceKey)
      else if nonces s account key = - 1 then Inl (NonceErr NonceOverflow)
      else let n = nonces s account key + 1 in
        Inr (n, s\<lparr>nonces := (nonces s)(account := (nonces s account)(key := n))\<rparr>,
             [(NONCE_PRECOMPILE_ADDRESS, NonceIncremented account key n)]))"
proof -
  have max: "unat w < 18446744073709551615 \<longleftrightarrow> w \<noteq> - 1" for w :: u64
  proof -
    have "w = - 1 \<longleftrightarrow> unat w = 2 ^ 64 - 1"
      using unat_max_word[where ?'a = 64] by (auto simp: word_unat_eq_iff)
    moreover have "unat w < 2 ^ 64" using unsigned_less[of w] by simp
    ultimately show ?thesis by auto
  qed
  show ?thesis
    by (simp add: increment_nonce_def exec_simps checked_add_def max Let_def)
qed

section \<open>Expiring nonces\<close>

text \<open>The slot the pointer is at can be taken: it is empty, or its entry has expired.\<close>

definition slot_evictable :: "u64 \<Rightarrow> nonce_manager \<Rightarrow> bool" where
  "slot_evictable now s =
     (let old = expiring_nonce_ring s (expiring_nonce_ring_ptr s)
      in old = 0 \<or> \<not> is_expiring_nonce_seen old now s)"

definition valid_window :: "env \<Rightarrow> u64 \<Rightarrow> bool" where
  "valid_window e valid_before =
     (now64 e < valid_before \<and>
      valid_before \<le> saturating_add (now64 e) (expiring_nonce_max_expiry_secs (spec e)))"

definition marked :: "env \<Rightarrow> b256 \<Rightarrow> u64 \<Rightarrow> nonce_manager \<Rightarrow> nonce_manager" where
  "marked e hash valid_before s =
     (let ptr = expiring_nonce_ring_ptr s; old = expiring_nonce_ring s ptr in
      s\<lparr>expiring_nonce_seen :=
          ((if old = 0 then expiring_nonce_seen s else (expiring_nonce_seen s)(old := 0))
             (hash := valid_before)),
        expiring_nonce_ring := (expiring_nonce_ring s)(ptr := hash),
        expiring_nonce_ring_ptr :=
          (if ptr + 1 \<ge> expiring_nonce_set_capacity (spec e) then 0 else ptr + 1)\<rparr>)"

lemma check_and_mark_eq:
  "check_and_mark_expiring_nonce hash vb e s =
     (if \<not> valid_window e vb then Inl (NonceErr InvalidExpiringNonceExpiry)
      else if is_expiring_nonce_seen hash (now64 e) s then Inl (NonceErr ExpiringNonceReplay)
      else if \<not> slot_evictable (now64 e) s then Inl (NonceErr ExpiringNonceSetFull)
      else Inr ((), marked e hash vb s, []))"
proof -
  let ?old = "expiring_nonce_ring s (expiring_nonce_ring_ptr s)"
  show ?thesis
    unfolding check_and_mark_expiring_nonce_def
    by (cases "valid_window e vb"; cases "is_expiring_nonce_seen hash (now64 e) s"; cases "?old = 0";
        cases "is_expiring_nonce_seen ?old (now64 e) s")
      (auto simp: exec_simps valid_window_def slot_evictable_def is_expiring_nonce_seen_def
        marked_def Let_def)
qed

definition nonce_inv :: "tempo_hardfork \<Rightarrow> nonce_manager \<Rightarrow> bool" where
  "nonce_inv h s \<longleftrightarrow>
     expiring_nonce_ring_ptr s < expiring_nonce_set_capacity h \<and>
     (\<forall>x. x \<noteq> 0 \<longrightarrow> expiring_nonce_seen s x \<noteq> 0 \<longrightarrow>
        (\<exists>i < expiring_nonce_set_capacity h. expiring_nonce_ring s i = x))"

lemma next_ptr_bound:
  "(if ptr + 1 \<ge> expiring_nonce_set_capacity h then 0 else ptr + 1)
           < expiring_nonce_set_capacity h"
proof -
  have "0 < expiring_nonce_set_capacity h" by (simp add: expiring_nonce_set_capacity_def)
  then show ?thesis by (simp add: not_le)
qed

lemma nonce_inv_marked:
  assumes inv: "nonce_inv (spec e) s"
  shows "nonce_inv (spec e) (marked e hash vb s)"
proof -
  let ?cap = "expiring_nonce_set_capacity (spec e)" and ?ptr = "expiring_nonce_ring_ptr s"
  have ptr: "?ptr < ?cap" using inv by (simp add: nonce_inv_def)
  have "\<exists>i < ?cap. (if i = ?ptr then hash else expiring_nonce_ring s i) = x"
    if "x \<noteq> 0" "expiring_nonce_seen (marked e hash vb s) x \<noteq> 0" for x
  proof (cases "x = hash")
    case True
    then show ?thesis using ptr by auto
  next
    case False
    with that have "expiring_nonce_seen s x \<noteq> 0" and "expiring_nonce_ring s ?ptr \<noteq> x"
      by (auto simp: marked_def Let_def split: if_splits)
    moreover from this inv that(1) obtain i where "i < ?cap" "expiring_nonce_ring s i = x"
      unfolding nonce_inv_def by blast
    ultimately show ?thesis by (intro exI[of _ i]) auto
  qed
  then show ?thesis
    using next_ptr_bound by (auto simp: nonce_inv_def marked_def Let_def)
qed

lemma check_and_mark_preserves: "preserves e (nonce_inv (spec e)) (check_and_mark_expiring_nonce hash vb)"
  by (rule validI) (auto simp: check_and_mark_eq nonce_inv_marked split: if_splits)

text \<open>A sequence of calls; a call that fails is reverted and leaves the state as it was.\<close>

fun run_expiring :: "(env \<times> b256 \<times> u64) list \<Rightarrow> nonce_manager \<Rightarrow> nonce_manager" where
  "run_expiring [] s = s"
| "run_expiring ((e, h, vb) # cs) s =
     (case check_and_mark_expiring_nonce h vb e s of
        Inl _ \<Rightarrow> run_expiring cs s
      | Inr (_, s', _) \<Rightarrow> run_expiring cs s')"

lemma check_and_mark_keeps_live:
  assumes "expiring_nonce_seen s h = v" and "now64 e < v"
    and "check_and_mark_expiring_nonce h' v' e s = Inr (u, s', l)"
  shows "expiring_nonce_seen s' h = v"
proof -
  have "v \<noteq> 0" using assms(2) by auto
  with assms show ?thesis
    by (auto simp: check_and_mark_eq marked_def Let_def slot_evictable_def
        is_expiring_nonce_seen_def split: if_splits)
qed

lemma run_keeps_live:
  "expiring_nonce_seen s h = v \<Longrightarrow> list_all (\<lambda>(e, _). now64 e < v) cs \<Longrightarrow>
   expiring_nonce_seen (run_expiring cs s) h = v"
proof (induction cs s rule: run_expiring.induct)
  case (2 e h' vb cs s)
  show ?case
  proof (cases "check_and_mark_expiring_nonce h' vb e s")
    case (Inl err)
    with 2 show ?thesis by simp
  next
    case (Inr r)
    then obtain u s' l where run: "check_and_mark_expiring_nonce h' vb e s = Inr (u, s', l)"
      by (cases r) auto
    have "expiring_nonce_seen s' h = v"
      using check_and_mark_keeps_live[OF _ _ run] 2(3,4) by simp
    with 2(2) 2(4) run show ?thesis by simp
  qed
qed simp

section \<open>Reachable states\<close>

text \<open>
  The transitions of the precompile's storage. The hardfork only moves forward; the ring
  capacity grows with it.
\<close>

inductive nonce_step :: "tempo_hardfork \<times> nonce_manager \<Rightarrow> tempo_hardfork \<times> nonce_manager \<Rightarrow> bool" where
  nonce_step_increment:
    "h \<le> spec e \<Longrightarrow> increment_nonce account key e s = Inr (n, s', l) \<Longrightarrow>
     nonce_step (h, s) (spec e, s')"
| nonce_step_mark:
    "h \<le> spec e \<Longrightarrow> check_and_mark_expiring_nonce hash vb e s = Inr (u, s', l) \<Longrightarrow>
     nonce_step (h, s) (spec e, s')"

definition nonce_init :: nonce_manager where
  "nonce_init = \<lparr>nonces = (\<lambda>_ _. 0), expiring_nonce_seen = (\<lambda>_. 0),
     expiring_nonce_ring = (\<lambda>_. 0), expiring_nonce_ring_ptr = 0\<rparr>"

lemma nonce_inv_fork_mono:
  assumes "h \<le> h'" and "nonce_inv h s" shows "nonce_inv h' s"
proof -
  have "expiring_nonce_set_capacity h \<le> expiring_nonce_set_capacity h'"
    using assms(1) by (auto simp: expiring_nonce_set_capacity_def is_t11_def)
  with assms(2) show ?thesis unfolding nonce_inv_def by (meson order_less_le_trans)
qed

lemma increment_nonce_preserves: "preserves e (nonce_inv h) (increment_nonce account key)"
  by (rule validI) (auto simp: increment_nonce_eq nonce_inv_def Let_def split: if_splits)

interpretation nonce_machine: stepwise_invariant nonce_step "\<lambda>(h, s). nonce_inv h s"
proof
  fix x y assume "nonce_step x y" "case x of (h, s) \<Rightarrow> nonce_inv h s"
  then show "case y of (h, s) \<Rightarrow> nonce_inv h s"
  proof cases
    case (nonce_step_increment h e account key s n s' l)
    then show ?thesis
      using validD[OF increment_nonce_preserves] nonce_inv_fork_mono \<open>case x of (h, s) \<Rightarrow> nonce_inv h s\<close>
      by (metis case_prod_conv)
  next
    case (nonce_step_mark h e hash vb s u s' l)
    then show ?thesis
      using validD[OF check_and_mark_preserves] nonce_inv_fork_mono \<open>case x of (h, s) \<Rightarrow> nonce_inv h s\<close>
      by (metis case_prod_conv)
  qed
qed

lemma seen_card_le_capacity:
  assumes "nonce_inv h s"
  shows "card {x. x \<noteq> 0 \<and> expiring_nonce_seen s x \<noteq> 0} \<le> unat (expiring_nonce_set_capacity h)"
proof -
  let ?cap = "expiring_nonce_set_capacity h"
  have "{x. x \<noteq> 0 \<and> expiring_nonce_seen s x \<noteq> 0} \<subseteq> expiring_nonce_ring s ` {i. i < ?cap}"
    using assms unfolding nonce_inv_def by blast
  also have "{i. i < ?cap} \<subseteq> of_nat ` {..< unat ?cap}"
  proof
    fix i assume "i \<in> {i. i < ?cap}"
    then have "unat i \<in> {..< unat ?cap}" and "i = of_nat (unat i)"
      by (simp_all add: word_less_nat_alt)
    then show "i \<in> of_nat ` {..< unat ?cap}" by (rule rev_image_eqI)
  qed
  finally have "{x. x \<noteq> 0 \<and> expiring_nonce_seen s x \<noteq> 0}
      \<subseteq> (\<lambda>i. expiring_nonce_ring s (of_nat i)) ` {..< unat ?cap}" (is "?A \<subseteq> ?B") by blast
  then have "card ?A \<le> card ?B" by (intro card_mono) auto
  also have "\<dots> \<le> unat ?cap" using card_image_le[of "{..< unat ?cap}"] by fastforce
  finally show ?thesis .
qed

lemma nonce_init_inv: "nonce_inv h nonce_init"
  by (simp add: nonce_inv_def nonce_init_def expiring_nonce_set_capacity_def)

section \<open>Properties\<close>

text \<open>Claim C1: replay protection. Once an expiring-nonce hash is accepted with expiry
  \<open>vb\<close>, no later call accepts the same hash while block time is before \<open>vb\<close>, whatever calls
  (successful or not, evicting ring slots or not) run in between: the call fails with the
  replay error, or with the expiry error if its own window is invalid.\<close>

theorem expiring_nonce_no_replay:
  assumes "check_and_mark_expiring_nonce hash vb e s = Inr (u, s', l)"
    and "list_all (\<lambda>(e', _). now64 e' < vb) calls"
    and "now64 e'' < vb"
  shows "check_and_mark_expiring_nonce hash vb' e'' (run_expiring calls s') =
    (if valid_window e'' vb' then Inl (NonceErr ExpiringNonceReplay)
     else Inl (NonceErr InvalidExpiringNonceExpiry))"
proof -
  have "expiring_nonce_seen s' hash = vb"
    using assms(1) by (auto simp: check_and_mark_eq marked_def Let_def split: if_splits)
  then have "expiring_nonce_seen (run_expiring calls s') hash = vb"
    using run_keeps_live assms(2) by blast
  moreover have "vb \<noteq> 0" using assms(3) by auto
  ultimately show ?thesis
    using assms(3) by (simp add: check_and_mark_eq is_expiring_nonce_seen_def)
qed

lemmas nonce_demo = now64_demo valid_window_def check_and_mark_eq is_expiring_nonce_seen_def
  slot_evictable_def marked_def nonce_init_def saturating_add_def expiring_nonce_max_expiry_secs_def
  expiring_nonce_set_capacity_def fork_eval

theorem expiring_nonce_no_replay_witness:
  "check_and_mark_expiring_nonce 7 120 (demo_env T8 105)
     (run_expiring [(demo_env T8 101, 9, 125), (demo_env T8 102, 7, 121)]
       (marked (demo_env T8 100) 7 120 nonce_init)) = Inl (NonceErr ExpiringNonceReplay)"
proof -
  have first: "check_and_mark_expiring_nonce 7 120 (demo_env T8 100) nonce_init =
      Inr ((), marked (demo_env T8 100) 7 120 nonce_init, [])"
    by (simp add: nonce_demo)
  show ?thesis
    using expiring_nonce_no_replay[OF first, of "[(demo_env T8 101, 9, 125), (demo_env T8 102, 7, 121)]"
        "demo_env T8 105" 120]
    by (simp add: now64_demo valid_window_def saturating_add_def expiring_nonce_max_expiry_secs_def fork_eval)
qed

text \<open>Claim C12: the ring is a faithful index of the seen set. In every state reachable from
  the empty storage, under hardforks that only move forward, the ring pointer is below the
  active capacity, so its \<open>u32\<close> increment cannot wrap, and every recorded non-zero hash
  is in a ring slot below the capacity, so it will be evicted and storage stays bounded.\<close>

theorem nonce_ring_reachable_inv:
  assumes "nonce_step\<^sup>*\<^sup>* (h\<^sub>0, nonce_init) (h, s)"
  shows "expiring_nonce_ring_ptr s < expiring_nonce_set_capacity h \<and>
    unat (expiring_nonce_ring_ptr s) + 1 < 2 ^ 32 \<and>
    card {x. x \<noteq> 0 \<and> expiring_nonce_seen s x \<noteq> 0} \<le> unat (expiring_nonce_set_capacity h)"
proof -
  have inv: "nonce_inv h s"
    using nonce_machine.steps_inv[OF assms] nonce_init_inv by simp
  then have ptr: "expiring_nonce_ring_ptr s < expiring_nonce_set_capacity h"
    by (simp add: nonce_inv_def)
  moreover have "unat (expiring_nonce_set_capacity h) \<le> 3000000"
    by (simp add: expiring_nonce_set_capacity_def)
  ultimately have "unat (expiring_nonce_ring_ptr s) + 1 < 2 ^ 32"
    by (simp add: word_less_nat_alt)
  with ptr seen_card_le_capacity[OF inv] show ?thesis by blast
qed

theorem nonce_ring_reachable_inv_witness:
  "expiring_nonce_ring_ptr (marked (demo_env T11 100) 7 320 nonce_init) < 3000000"
proof -
  have run: "check_and_mark_expiring_nonce 7 320 (demo_env T11 100) nonce_init =
      Inr ((), marked (demo_env T11 100) 7 320 nonce_init, [])"
    by (simp add: nonce_demo)
  have "nonce_step (T8, nonce_init) (spec (demo_env T11 100), marked (demo_env T11 100) 7 320 nonce_init)"
    by (rule nonce_step_mark[OF _ run]) (simp add: fork_eval)
  then show ?thesis
    by (auto simp: expiring_nonce_set_capacity_def fork_eval
        dest!: r_into_rtranclp[of nonce_step] nonce_ring_reachable_inv)
qed

text \<open>Claim C13: \<open>increment_nonce\<close> on every branch. Key 0 is refused, a nonce at \<open>u64::MAX\<close>
  is refused instead of wrapping, and otherwise exactly the one nonce grows by one, which
  \<open>get_nonce\<close> then returns, while every other account and key reads as before.\<close>

theorem increment_nonce_spec:
  "case increment_nonce account key e s of
     Inl err \<Rightarrow> (key = 0 \<and> err = NonceErr InvalidNonceKey) \<or>
               (key \<noteq> 0 \<and> unat (nonces s account key) = 2 ^ 64 - 1 \<and> err = NonceErr NonceOverflow)
   | Inr (n, s', _) \<Rightarrow>
       unat n = unat (nonces s account key) + 1 \<and>
       get_nonce account key e' s' = Inr n \<and>
       get_nonce a k e' s' = (if a = account \<and> k = key then Inr n else get_nonce a k e' s) \<and>
       is_expiring_nonce_seen h t s' = is_expiring_nonce_seen h t s"
proof (cases "key = 0 \<or> nonces s account key = - 1")
  case True
  then show ?thesis by (auto simp: increment_nonce_eq)
next
  case False
  then have "unat (nonces s account key + 1) = unat (nonces s account key) + 1"
    using unatSuc[of "nonces s account key"] by (metis Suc_eq_plus1 add.commute add_eq_0_iff)
  with False show ?thesis
    by (simp add: increment_nonce_eq get_nonce_def is_expiring_nonce_seen_def Let_def)
qed

end
