(* ===== verification/Policy_Registry.thy ===== *)
theory Policy_Registry
  imports Tempo_Types
begin

text \<open>
  The TIP-403 policy registry (\<open>precompiles/src/tip403_registry/mod.rs\<close>): whitelist,
  blacklist and compound transfer policies, TIP-1028 receive policies with cached policy
  types, and TIP-1092 token bindings. The two operations that read token storage
  (\<open>token_transfer_policy_id\<close>, \<open>migrate_transfer_policy_ids\<close>) are in \<open>TIP20_Token\<close>.
\<close>

section \<open>State\<close>

definition REJECT_ALL_POLICY_ID :: u64 where "REJECT_ALL_POLICY_ID = 0"
definition ALLOW_ALL_POLICY_ID :: u64 where "ALLOW_ALL_POLICY_ID = 1"

definition ALWAYS_AUTHORIZED :: "(tempo_hardfork \<times> address list) list" where
  "ALWAYS_AUTHORIZED = [(T6, [RECEIVE_POLICY_GUARD_ADDRESS])]"

definition RECOVERY_ORIGINATOR :: address where "RECOVERY_ORIGINATOR = ADDRESS_ZERO"

datatype recovery_mode = Originator | Receiver | ThirdParty

record token_transfer_policy =
  ttp_policy_id :: u64
  ttp_is_set :: bool

record policy_data =
  pd_policy_type :: u8
  pd_admin :: address

record compound_policy_data =
  sender_policy_id :: u64
  recipient_policy_id :: u64
  mint_recipient_policy_id :: u64

record policy_record =
  base :: policy_data
  compound :: compound_policy_data

record receive_policy_config =
  has_receive_policy :: bool
  rp_sender_policy_id :: u64
  rp_sender_policy_type :: u8
  token_filter_id :: u64
  token_filter_type :: u8
  recovery_mode :: recovery_mode

record receive_policy =
  config :: receive_policy_config
  recovery_address :: address

record tip403_registry =
  policy_id_counter_slot :: u64
  policy_records :: "u64 \<Rightarrow> policy_record"
  policy_set :: "u64 \<Rightarrow> address \<Rightarrow> bool"
  receive_policies :: "address \<Rightarrow> receive_policy"
  token_transfer_policies :: "address \<Rightarrow> token_transfer_policy"

datatype auth_role = RoleTransfer | RoleSender | RoleRecipient | RoleMintRecipient

section \<open>Roles and policy types\<close>

definition transfer_or :: "auth_role \<Rightarrow> tempo_hardfork \<Rightarrow> auth_role" where
  "transfer_or t2_variant h = (if is_t2 h then t2_variant else RoleTransfer)"

definition auth_sender :: "tempo_hardfork \<Rightarrow> auth_role" where
  "auth_sender = transfer_or RoleSender"

definition auth_recipient :: "tempo_hardfork \<Rightarrow> auth_role" where
  "auth_recipient = transfer_or RoleRecipient"

definition auth_mint_recipient :: "tempo_hardfork \<Rightarrow> auth_role" where
  "auth_mint_recipient = transfer_or RoleMintRecipient"

fun policy_type_u8 :: "policy_type \<Rightarrow> u8" where
  "policy_type_u8 WHITELIST = 0"
| "policy_type_u8 BLACKLIST = 1"
| "policy_type_u8 COMPOUND = 2"
| "policy_type_u8 PolicyTypeInvalid = 255"

definition policy_type_of_u8 :: "u8 \<Rightarrow> policy_type option" where
  "policy_type_of_u8 b =
     (if b = 0 then Some WHITELIST else if b = 1 then Some BLACKLIST
      else if b = 2 then Some COMPOUND else None)"

definition ensure_is_simple :: "policy_type \<Rightarrow> env \<Rightarrow> tempo_error + u8" where
  "ensure_is_simple t e =
     (case t of
        WHITELIST \<Rightarrow> Inr (policy_type_u8 t)
      | BLACKLIST \<Rightarrow> Inr (policy_type_u8 t)
      | _ \<Rightarrow> if is_t2 (spec e) then Inl (TIP403Err IncompatiblePolicyType)
             else Inr (policy_type_u8 PolicyTypeInvalid))"

definition policy_data_type :: "policy_data \<Rightarrow> env \<Rightarrow> tempo_error + policy_type" where
  "policy_data_type d e =
     (case policy_type_of_u8 (pd_policy_type d) of
        Some t \<Rightarrow> if is_t2 (spec e) \<or> t \<noteq> COMPOUND then Inr t
                  else Inl under_overflow
      | None \<Rightarrow> if is_t2 (spec e) then Inl (TIP403Err InvalidPolicyType) else Inl under_overflow)"

definition is_simple :: "policy_data \<Rightarrow> bool" where
  "is_simple d = (pd_policy_type d = policy_type_u8 WHITELIST \<or> pd_policy_type d = policy_type_u8 BLACKLIST)"

definition is_compound :: "policy_data \<Rightarrow> bool" where
  "is_compound d = (pd_policy_type d = policy_type_u8 COMPOUND)"

definition is_default :: "policy_data \<Rightarrow> bool" where
  "is_default d = (pd_policy_type d = 0 \<and> pd_admin d = ADDRESS_ZERO)"

definition sender_policy_data :: "receive_policy_config \<Rightarrow> policy_data" where
  "sender_policy_data c = \<lparr>pd_policy_type = rp_sender_policy_type c, pd_admin = ADDRESS_ZERO\<rparr>"

definition token_filter_data :: "receive_policy_config \<Rightarrow> policy_data" where
  "token_filter_data c = \<lparr>pd_policy_type = token_filter_type c, pd_admin = ADDRESS_ZERO\<rparr>"

definition recovery_encode :: "address \<Rightarrow> address \<Rightarrow> recovery_mode \<times> address" where
  "recovery_encode authority msg_sender =
     (if authority = RECOVERY_ORIGINATOR then (Originator, ADDRESS_ZERO)
      else if authority = msg_sender then (Receiver, ADDRESS_ZERO)
      else (ThirdParty, authority))"

section \<open>Queries\<close>

definition policy_id_counter :: "tip403_registry \<Rightarrow> u64" where
  "policy_id_counter r = max (policy_id_counter_slot r) 2"

definition builtin_authorization :: "u64 \<Rightarrow> bool option" where
  "builtin_authorization policy_id =
     (if policy_id = ALLOW_ALL_POLICY_ID then Some True
      else if policy_id = REJECT_ALL_POLICY_ID then Some False else None)"

definition policy_exists :: "u64 \<Rightarrow> tip403_registry \<Rightarrow> bool" where
  "policy_exists policy_id r = (builtin_authorization policy_id \<noteq> None \<or> policy_id < policy_id_counter r)"

definition get_policy_data :: "u64 \<Rightarrow> env \<Rightarrow> tip403_registry \<Rightarrow> tempo_error + policy_data" where
  "get_policy_data policy_id e r =
     (let d = base (policy_records r policy_id) in
      if is_t2 (spec e) \<and> is_default d \<and> policy_id \<ge> policy_id_counter r
      then Inl (TIP403Err PolicyNotFound) else Inr d)"

definition registered_token_transfer_policy_id :: "address \<Rightarrow> tip403_registry \<Rightarrow> u64 option" where
  "registered_token_transfer_policy_id token r =
     (let b = token_transfer_policies r token in if ttp_is_set b then Some (ttp_policy_id b) else None)"

definition policy_data_view :: "u64 \<Rightarrow> env \<Rightarrow> tip403_registry \<Rightarrow> tempo_error + policy_type \<times> address" where
  "policy_data_view policy_id e r =
     (if is_t2 (spec e) \<and> builtin_authorization policy_id \<noteq> None
      then rbind (rok_or (policy_type_of_u8 (ucast policy_id)) (TIP403Err InvalidPolicyType)) (\<lambda>t.
           Inr (t, ADDRESS_ZERO))
      else if \<not> is_t2 (spec e) \<and> \<not> policy_exists policy_id r then Inl (TIP403Err PolicyNotFound)
      else rbind (get_policy_data policy_id e r) (\<lambda>d.
           rbind (policy_data_type d e) (\<lambda>t. Inr (t, pd_admin d))))"

definition compound_policy_data_view ::
  "u64 \<Rightarrow> env \<Rightarrow> tip403_registry \<Rightarrow> tempo_error + u64 \<times> u64 \<times> u64" where
  "compound_policy_data_view policy_id e r =
     rbind (get_policy_data policy_id e r) (\<lambda>d.
     if \<not> is_compound d
     then Inl (if policy_exists policy_id r then TIP403Err IncompatiblePolicyType else TIP403Err PolicyNotFound)
     else let c = compound (policy_records r policy_id) in
          Inr (sender_policy_id c, recipient_policy_id c, mint_recipient_policy_id c))"

definition is_authorized_simple_inner ::
  "u64 \<Rightarrow> address \<Rightarrow> policy_data \<Rightarrow> env \<Rightarrow> tip403_registry \<Rightarrow> tempo_error + bool" where
  "is_authorized_simple_inner policy_id user d e r =
     (let is_in_set = policy_set r policy_id user in
      rbind (policy_data_type d e) (\<lambda>t.
        case t of
          WHITELIST \<Rightarrow> Inr is_in_set
        | BLACKLIST \<Rightarrow> Inr (\<not> is_in_set)
        | COMPOUND \<Rightarrow> Inl (TIP403Err IncompatiblePolicyType)
        | PolicyTypeInvalid \<Rightarrow> Inl (Fatal ''unreachable'')))"

definition is_authorized_simple ::
  "u64 \<Rightarrow> address \<Rightarrow> policy_data option \<Rightarrow> env \<Rightarrow> tip403_registry \<Rightarrow> tempo_error + bool" where
  "is_authorized_simple policy_id user cache e r =
     (case builtin_authorization policy_id of
        Some auth \<Rightarrow> Inr auth
      | None \<Rightarrow>
          rbind (case cache of Some d \<Rightarrow> Inr d | None \<Rightarrow> get_policy_data policy_id e r) (\<lambda>d.
          is_authorized_simple_inner policy_id user d e r))"

definition is_authorized_as ::
  "u64 \<Rightarrow> address \<Rightarrow> auth_role \<Rightarrow> env \<Rightarrow> tip403_registry \<Rightarrow> tempo_error + bool" where
  "is_authorized_as policy_id user role e r =
     (if list_ex (\<lambda>(fork, addrs). fork \<le> spec e \<and> user \<in> set addrs) ALWAYS_AUTHORIZED then Inr True
      else case builtin_authorization policy_id of
        Some auth \<Rightarrow> Inr auth
      | None \<Rightarrow>
        rbind (get_policy_data policy_id e r) (\<lambda>d.
        if is_compound d then
          let c = compound (policy_records r policy_id) in
          (case role of
             RoleSender \<Rightarrow> is_authorized_simple (sender_policy_id c) user None e r
           | RoleRecipient \<Rightarrow> is_authorized_simple (recipient_policy_id c) user None e r
           | RoleMintRecipient \<Rightarrow> is_authorized_simple (mint_recipient_policy_id c) user None e r
           | RoleTransfer \<Rightarrow>
               rbind (is_authorized_simple (sender_policy_id c) user None e r) (\<lambda>sender_auth.
               if is_t2 (spec e) \<and> \<not> sender_auth then Inr False
               else rbind (is_authorized_simple (recipient_policy_id c) user None e r) (\<lambda>recipient_auth.
                    Inr (sender_auth \<and> recipient_auth))))
        else is_authorized_simple_inner policy_id user d e r))"

definition receive_policy_recovery :: "address \<Rightarrow> recovery_mode \<Rightarrow> tip403_registry \<Rightarrow> address" where
  "receive_policy_recovery account mode r =
     (case mode of
        Originator \<Rightarrow> RECOVERY_ORIGINATOR
      | Receiver \<Rightarrow> account
      | ThirdParty \<Rightarrow> recovery_address (receive_policies r account))"

definition receive_policy_view ::
  "address \<Rightarrow> tip403_registry \<Rightarrow> tempo_error + bool \<times> u64 \<times> policy_type \<times> u64 \<times> policy_type \<times> address" where
  "receive_policy_view account r =
     (let c = config (receive_policies r account) in
      rbind (rok_or (policy_type_of_u8 (rp_sender_policy_type c)) (TIP403Err InvalidReceivePolicyType)) (\<lambda>st.
      rbind (rok_or (policy_type_of_u8 (token_filter_type c)) (TIP403Err InvalidReceivePolicyType)) (\<lambda>tt.
      Inr (has_receive_policy c, rp_sender_policy_id c, st, token_filter_id c, tt,
           receive_policy_recovery account (recovery_mode c) r))))"

definition check_receive_policy ::
  "address \<Rightarrow> address \<Rightarrow> address \<Rightarrow> env \<Rightarrow> tip403_registry \<Rightarrow>
   tempo_error + (blocked_reason \<times> address) option" where
  "check_receive_policy token sender receiver e r =
     (let c = config (receive_policies r receiver) in
      if \<not> has_receive_policy c then Inr None
      else
        rbind (is_authorized_simple (token_filter_id c) token (Some (token_filter_data c)) e r) (\<lambda>token_ok.
        if \<not> token_ok then Inr (Some (TOKEN_FILTER, receive_policy_recovery receiver (recovery_mode c) r))
        else
          rbind (is_authorized_simple (rp_sender_policy_id c) sender (Some (sender_policy_data c)) e r) (\<lambda>sender_ok.
          if \<not> sender_ok then Inr (Some (RECEIVE_POLICY, receive_policy_recovery receiver (recovery_mode c) r))
          else Inr None)))"

definition validate_receive_policy ::
  "address \<Rightarrow> address \<Rightarrow> address \<Rightarrow> env \<Rightarrow> tip403_registry \<Rightarrow> tempo_error + blocked_reason option" where
  "validate_receive_policy token sender receiver e r =
     rbind (check_receive_policy token sender receiver e r) (\<lambda>b. Inr (map_option fst b))"

definition validate_simple_policy :: "u64 \<Rightarrow> env \<Rightarrow> tip403_registry \<Rightarrow> tempo_error + unit" where
  "validate_simple_policy policy_id e r =
     (if builtin_authorization policy_id \<noteq> None then Inr ()
      else if policy_id \<ge> policy_id_counter r then Inl (TIP403Err PolicyNotFound)
      else rbind (get_policy_data policy_id e r) (\<lambda>d.
           if \<not> is_simple d then Inl (TIP403Err PolicyNotSimple) else Inr ()))"

definition validate_receive_policy_id :: "u64 \<Rightarrow> env \<Rightarrow> tip403_registry \<Rightarrow> tempo_error + u8" where
  "validate_receive_policy_id policy_id e r =
     (if builtin_authorization policy_id \<noteq> None then Inr (ucast policy_id)
      else if policy_id \<ge> policy_id_counter r then Inl (TIP403Err PolicyNotFound)
      else rbind (get_policy_data policy_id e r) (\<lambda>d.
           if \<not> is_simple d then Inl (TIP403Err InvalidReceivePolicyType) else Inr (pd_policy_type d)))"

definition is_policy_lookup_error :: "tempo_error \<Rightarrow> env \<Rightarrow> bool" where
  "is_policy_lookup_error err e =
     (if is_t2 (spec e)
      then err = TIP403Err InvalidPolicyType \<or> err = TIP403Err PolicyNotFound
      else err = under_overflow)"

section \<open>Operations\<close>

text \<open>The id allocation the three create operations share, inlined in the source.\<close>

definition allocate_policy_id :: "(tip403_registry, u64) op" where
  "allocate_policy_id =
     bind (gets policy_id_counter) (\<lambda>new_policy_id.
     bind (ok_or (checked_add new_policy_id 1) under_overflow) (\<lambda>next.
     bind (modify (\<lambda>r. r\<lparr>policy_id_counter_slot := next\<rparr>)) (\<lambda>_.
     ret new_policy_id)))"

definition emit403 :: "tip403_event \<Rightarrow> (tip403_registry, unit) op" where
  "emit403 ev = emit (TIP403_REGISTRY_ADDRESS, TIP403Event ev)"

definition set_policy_data :: "u64 \<Rightarrow> policy_data \<Rightarrow> (tip403_registry, unit) op" where
  "set_policy_data policy_id d =
     modify (\<lambda>r. r\<lparr>policy_records := (policy_records r)(policy_id := (policy_records r policy_id)\<lparr>base := d\<rparr>)\<rparr>)"

definition set_policy_set :: "u64 \<Rightarrow> address \<Rightarrow> bool \<Rightarrow> (tip403_registry, unit) op" where
  "set_policy_set policy_id account v =
     modify (\<lambda>r. r\<lparr>policy_set := (policy_set r)(policy_id := (policy_set r policy_id)(account := v))\<rparr>)"

definition set_token_transfer_policy :: "address \<Rightarrow> u64 \<Rightarrow> (tip403_registry, unit) op" where
  "set_token_transfer_policy token policy_id =
     modify (\<lambda>r. r\<lparr>token_transfer_policies :=
       (token_transfer_policies r)(token := \<lparr>ttp_policy_id = policy_id, ttp_is_set = True\<rparr>)\<rparr>)"

definition policy_type_or_invalid :: "u8 \<Rightarrow> policy_type" where
  "policy_type_or_invalid b = (case policy_type_of_u8 b of Some t \<Rightarrow> t | None \<Rightarrow> PolicyTypeInvalid)"

definition create_policy :: "address \<Rightarrow> address \<Rightarrow> policy_type \<Rightarrow> (tip403_registry, u64) op" where
  "create_policy msg_sender admin t =
     bind (query (\<lambda>e _. ensure_is_simple t e)) (\<lambda>policy_type.
     bind allocate_policy_id (\<lambda>new_policy_id.
     bind (set_policy_data new_policy_id \<lparr>pd_policy_type = policy_type, pd_admin = admin\<rparr>) (\<lambda>_.
     bind (emit403 (PolicyCreated new_policy_id msg_sender (policy_type_or_invalid policy_type))) (\<lambda>_.
     bind (emit403 (PolicyAdminUpdated new_policy_id msg_sender admin)) (\<lambda>_.
     ret new_policy_id)))))"

definition create_policy_with_accounts ::
  "address \<Rightarrow> address \<Rightarrow> policy_type \<Rightarrow> address list \<Rightarrow> (tip403_registry, u64) op" where
  "create_policy_with_accounts msg_sender admin t accounts =
     bind (query (\<lambda>e _. ensure_is_simple t e)) (\<lambda>policy_type.
     bind (query (\<lambda>e _. rensure (\<not> (is_t3 (spec e) \<and> list_ex is_virtual accounts))
                              (TIP403Err VirtualAddressNotAllowed))) (\<lambda>_.
     bind allocate_policy_id (\<lambda>new_policy_id.
     bind (set_policy_data new_policy_id \<lparr>pd_policy_type = policy_type, pd_admin = admin\<rparr>) (\<lambda>_.
     bind (foreach accounts (\<lambda>account.
       bind (set_policy_set new_policy_id account True) (\<lambda>_.
       case t of
         WHITELIST \<Rightarrow> emit403 (WhitelistUpdated new_policy_id msg_sender account True)
       | BLACKLIST \<Rightarrow> emit403 (BlacklistUpdated new_policy_id msg_sender account True)
       | _ \<Rightarrow> throw (TIP403Err IncompatiblePolicyType)))) (\<lambda>_.
     bind (emit403 (PolicyCreated new_policy_id msg_sender (policy_type_or_invalid policy_type))) (\<lambda>_.
     bind (emit403 (PolicyAdminUpdated new_policy_id msg_sender admin)) (\<lambda>_.
     ret new_policy_id)))))))"

definition set_policy_admin :: "address \<Rightarrow> u64 \<Rightarrow> address \<Rightarrow> (tip403_registry, unit) op" where
  "set_policy_admin msg_sender policy_id admin =
     bind (query (get_policy_data policy_id)) (\<lambda>d.
     bind (ensure (\<not> pd_admin d \<noteq> msg_sender) (TIP403Err PolicyUnauthorized)) (\<lambda>_.
     bind (set_policy_data policy_id (d\<lparr>pd_admin := admin\<rparr>)) (\<lambda>_.
     emit403 (PolicyAdminUpdated policy_id msg_sender admin))))"

definition modify_policy_whitelist ::
  "address \<Rightarrow> u64 \<Rightarrow> address \<Rightarrow> bool \<Rightarrow> (tip403_registry, unit) op" where
  "modify_policy_whitelist msg_sender policy_id account allowed =
     bind (query (\<lambda>e _. rensure (\<not> (is_t3 (spec e) \<and> is_virtual account))
                              (TIP403Err VirtualAddressNotAllowed))) (\<lambda>_.
     bind (query (get_policy_data policy_id)) (\<lambda>d.
     bind (ensure (\<not> pd_admin d \<noteq> msg_sender) (TIP403Err PolicyUnauthorized)) (\<lambda>_.
     bind (query (\<lambda>e _. policy_data_type d e)) (\<lambda>t.
     bind (ensure (t = WHITELIST) (TIP403Err IncompatiblePolicyType)) (\<lambda>_.
     bind (set_policy_set policy_id account allowed) (\<lambda>_.
     emit403 (WhitelistUpdated policy_id msg_sender account allowed)))))))"

definition modify_policy_blacklist ::
  "address \<Rightarrow> u64 \<Rightarrow> address \<Rightarrow> bool \<Rightarrow> (tip403_registry, unit) op" where
  "modify_policy_blacklist msg_sender policy_id account restricted =
     bind (query (\<lambda>e _. rensure (\<not> (is_t3 (spec e) \<and> is_virtual account))
                              (TIP403Err VirtualAddressNotAllowed))) (\<lambda>_.
     bind (query (get_policy_data policy_id)) (\<lambda>d.
     bind (ensure (\<not> pd_admin d \<noteq> msg_sender) (TIP403Err PolicyUnauthorized)) (\<lambda>_.
     bind (query (\<lambda>e _. policy_data_type d e)) (\<lambda>t.
     bind (ensure (t = BLACKLIST) (TIP403Err IncompatiblePolicyType)) (\<lambda>_.
     bind (set_policy_set policy_id account restricted) (\<lambda>_.
     emit403 (BlacklistUpdated policy_id msg_sender account restricted)))))))"

definition create_compound_policy ::
  "address \<Rightarrow> u64 \<Rightarrow> u64 \<Rightarrow> u64 \<Rightarrow> (tip403_registry, u64) op" where
  "create_compound_policy msg_sender sender_id recipient_id mint_recipient_id =
     bind (query (validate_simple_policy sender_id)) (\<lambda>_.
     bind (query (validate_simple_policy recipient_id)) (\<lambda>_.
     bind (query (validate_simple_policy mint_recipient_id)) (\<lambda>_.
     bind allocate_policy_id (\<lambda>new_policy_id.
     bind (modify (\<lambda>r. r\<lparr>policy_records := (policy_records r)(new_policy_id :=
         \<lparr>base = \<lparr>pd_policy_type = policy_type_u8 COMPOUND, pd_admin = ADDRESS_ZERO\<rparr>,
          compound = \<lparr>sender_policy_id = sender_id, recipient_policy_id = recipient_id,
                      mint_recipient_policy_id = mint_recipient_id\<rparr>\<rparr>)\<rparr>)) (\<lambda>_.
     bind (emit403 (CompoundPolicyCreated new_policy_id msg_sender sender_id recipient_id mint_recipient_id)) (\<lambda>_.
     ret new_policy_id))))))"

definition set_receive_policy ::
  "address \<Rightarrow> u64 \<Rightarrow> u64 \<Rightarrow> address \<Rightarrow> (tip403_registry, unit) op" where
  "set_receive_policy msg_sender sender_id filter_id recovery_authority =
     bind (ensure (\<not> is_virtual msg_sender) (TIP403Err VirtualAddressNotAllowed)) (\<lambda>_.
     let (mode, recovery_write) = recovery_encode recovery_authority msg_sender in
     bind (query (\<lambda>e _. rensure (\<not> (is_precompile recovery_authority (spec e) \<or> is_virtual recovery_authority))
                              (TIP403Err InvalidRecoveryAuthority))) (\<lambda>_.
     bind (query (validate_receive_policy_id sender_id)) (\<lambda>sender_type.
     bind (query (validate_receive_policy_id filter_id)) (\<lambda>filter_type.
     bind (modify (\<lambda>r. r\<lparr>receive_policies := (receive_policies r)(msg_sender :=
         \<lparr>config = \<lparr>has_receive_policy = True, rp_sender_policy_id = sender_id,
                     rp_sender_policy_type = sender_type, token_filter_id = filter_id,
                     token_filter_type = filter_type, recovery_mode = mode\<rparr>,
          recovery_address = recovery_write\<rparr>)\<rparr>)) (\<lambda>_.
     emit403 (ReceivePolicyUpdated msg_sender sender_id filter_id recovery_authority))))))"

section \<open>Calls\<close>

text \<open>The state-changing calls, with the hardfork from which the dispatcher accepts them.\<close>

datatype tip403_call =
    CreatePolicy address policy_type
  | CreatePolicyWithAccounts address policy_type "address list"
  | SetPolicyAdmin u64 address
  | ModifyPolicyWhitelist u64 address bool
  | ModifyPolicyBlacklist u64 address bool
  | CreateCompoundPolicy u64 u64 u64
  | SetReceivePolicy u64 u64 address

fun tip403_exec :: "address \<Rightarrow> tip403_call \<Rightarrow> (tip403_registry, unit) op" where
  "tip403_exec m (CreatePolicy admin t) = discard (create_policy m admin t)"
| "tip403_exec m (CreatePolicyWithAccounts admin t xs) = discard (create_policy_with_accounts m admin t xs)"
| "tip403_exec m (SetPolicyAdmin i admin) = set_policy_admin m i admin"
| "tip403_exec m (ModifyPolicyWhitelist i a b) = modify_policy_whitelist m i a b"
| "tip403_exec m (ModifyPolicyBlacklist i a b) = modify_policy_blacklist m i a b"
| "tip403_exec m (CreateCompoundPolicy a b c) = since T2 (discard (create_compound_policy m a b c))"
| "tip403_exec m (SetReceivePolicy a b rec) = since T6 (set_receive_policy m a b rec)"

section \<open>What a successful call did\<close>

text \<open>
  The facts about a successful call, from which everything below follows: the new state as
  an update of the old one, and the guards that held.
\<close>

lemma policy_id_counter_ge: "2 \<le> policy_id_counter r"
  by (simp add: policy_id_counter_def)

lemma builtin_None: "builtin_authorization i = None \<longleftrightarrow> 2 \<le> i"
proof -
  have "i = 0 \<or> i = 1" if "i < 2"
    using that by (simp add: word_less_nat_alt unat_eq_0 less_2_cases_iff) (metis unat_1 word_unat_eq_iff One_nat_def)
  then have "(i = 0 \<or> i = 1) \<longleftrightarrow> i < 2" by auto
  then show ?thesis
    by (simp add: builtin_authorization_def ALLOW_ALL_POLICY_ID_def REJECT_ALL_POLICY_ID_def) (meson not_le)
qed

definition with_new_policy ::
  "policy_record \<Rightarrow> (address \<Rightarrow> bool) \<Rightarrow> tip403_registry \<Rightarrow> tip403_registry" where
  "with_new_policy rec members r =
     (let i = policy_id_counter r in
      r\<lparr>policy_id_counter_slot := i + 1,
        policy_records := (policy_records r)(i := rec),
        policy_set := (policy_set r)(i := members)\<rparr>)"

lemma allocate_policy_id_Inr:
  "allocate_policy_id e r = Inr (i, r', l) \<longleftrightarrow>
     i = policy_id_counter r \<and> unat i + 1 < 2 ^ 64 \<and> r' = r\<lparr>policy_id_counter_slot := i + 1\<rparr> \<and> l = []"
  by (auto simp: allocate_policy_id_def run_simps checked_add_def)

lemmas op403_defs = set_policy_data_def set_policy_set_def emit403_def

lemma create_policy_Inr:
  assumes "create_policy m admin t e r = Inr (i, r', l)"
  obtains ty where "ensure_is_simple t e = Inr ty" "i = policy_id_counter r" "unat i + 1 < 2 ^ 64"
    "r' = with_new_policy ((policy_records r i)\<lparr>base := \<lparr>pd_policy_type = ty, pd_admin = admin\<rparr>\<rparr>) (policy_set r i) r"
  using assms
  by (auto simp: create_policy_def run_simps allocate_policy_id_Inr op403_defs with_new_policy_def Let_def)

lemma add_accounts_Inr:
  assumes "foreach accounts (\<lambda>account. bind (set_policy_set i account True) (\<lambda>_.
       case t of
         WHITELIST \<Rightarrow> emit403 (WhitelistUpdated i m account True)
       | BLACKLIST \<Rightarrow> emit403 (BlacklistUpdated i m account True)
       | _ \<Rightarrow> throw (TIP403Err IncompatiblePolicyType))) e r = Inr (u, r', l)"
  shows "r' = r\<lparr>policy_set := (policy_set r)(i := (\<lambda>a. a \<in> set accounts \<or> policy_set r i a))\<rparr>"
proof -
  let ?g = "\<lambda>account r. r\<lparr>policy_set := (policy_set r)(i := (policy_set r i)(account := True))\<rparr>"
  have "r' = fold ?g accounts r"
    by (rule foreach_effect[OF _ assms]) (auto simp: run_simps op403_defs split: policy_type.splits)
  also have "\<dots> = r\<lparr>policy_set := (policy_set r)(i := (\<lambda>a. a \<in> set accounts \<or> policy_set r i a))\<rparr>"
    by (induction accounts arbitrary: r) (auto simp: fun_eq_iff)
  finally show ?thesis .
qed

lemma create_policy_with_accounts_Inr:
  assumes "create_policy_with_accounts m admin t accounts e r = Inr (i, r', l)"
  obtains ty where "ensure_is_simple t e = Inr ty" "i = policy_id_counter r" "unat i + 1 < 2 ^ 64"
    "r' = with_new_policy ((policy_records r i)\<lparr>base := \<lparr>pd_policy_type = ty, pd_admin = admin\<rparr>\<rparr>)
            (\<lambda>a. a \<in> set accounts \<or> policy_set r i a) r"
    "is_t3 (spec e) \<Longrightarrow> \<not> list_ex is_virtual accounts"
  using assms
  by (auto simp: create_policy_with_accounts_def run_simps allocate_policy_id_Inr set_policy_data_def
      emit403_def with_new_policy_def Let_def dest!: add_accounts_Inr)


lemma get_policy_data_Inr: "get_policy_data i e r = Inr d \<Longrightarrow> d = base (policy_records r i)"
  by (auto simp: get_policy_data_def Let_def split: if_splits)

definition with_admin :: "u64 \<Rightarrow> address \<Rightarrow> tip403_registry \<Rightarrow> tip403_registry" where
  "with_admin i admin r =
     r\<lparr>policy_records := (policy_records r)(i := (policy_records r i)\<lparr>base := (base (policy_records r i))\<lparr>pd_admin := admin\<rparr>\<rparr>)\<rparr>"

definition with_member :: "u64 \<Rightarrow> address \<Rightarrow> bool \<Rightarrow> tip403_registry \<Rightarrow> tip403_registry" where
  "with_member i a v r = r\<lparr>policy_set := (policy_set r)(i := (policy_set r i)(a := v))\<rparr>"

lemma set_policy_admin_Inr:
  assumes "set_policy_admin m i admin e r = Inr (u, r', l)"
  shows "pd_admin (base (policy_records r i)) = m" and "r' = with_admin i admin r"
  using assms
  by (auto simp: set_policy_admin_def run_simps op403_defs with_admin_def dest!: get_policy_data_Inr)

lemma modify_policy_whitelist_Inr:
  assumes "modify_policy_whitelist m i a v e r = Inr (u, r', l)"
  shows "pd_admin (base (policy_records r i)) = m" and "r' = with_member i a v r"
    and "policy_data_type (base (policy_records r i)) e = Inr WHITELIST"
    and "is_t3 (spec e) \<Longrightarrow> \<not> is_virtual a"
  using assms
  by (auto simp: modify_policy_whitelist_def run_simps op403_defs with_member_def dest!: get_policy_data_Inr)

lemma modify_policy_blacklist_Inr:
  assumes "modify_policy_blacklist m i a v e r = Inr (u, r', l)"
  shows "pd_admin (base (policy_records r i)) = m" and "r' = with_member i a v r"
    and "policy_data_type (base (policy_records r i)) e = Inr BLACKLIST"
    and "is_t3 (spec e) \<Longrightarrow> \<not> is_virtual a"
  using assms
  by (auto simp: modify_policy_blacklist_def run_simps op403_defs with_member_def dest!: get_policy_data_Inr)

text \<open>A policy id that names a simple policy: built in, or created with a simple type.\<close>

definition simple_ref :: "tip403_registry \<Rightarrow> u64 \<Rightarrow> bool" where
  "simple_ref r i \<longleftrightarrow> i < 2 \<or> (i < policy_id_counter r \<and> is_simple (base (policy_records r i)))"

text \<open>A policy type cached beside the id agrees with the type the registry has for the id.\<close>

definition cached_ok :: "tip403_registry \<Rightarrow> u64 \<Rightarrow> u8 \<Rightarrow> bool" where
  "cached_ok r i t \<longleftrightarrow> simple_ref r i \<and> (2 \<le> i \<longrightarrow> t = pd_policy_type (base (policy_records r i)))"

lemma validate_simple_policy_Inr: "validate_simple_policy i e r = Inr u \<Longrightarrow> simple_ref r i"
  by (auto simp: validate_simple_policy_def simple_ref_def run_simps builtin_None
      dest!: get_policy_data_Inr split: if_splits)

lemma validate_receive_policy_id_Inr: "validate_receive_policy_id i e r = Inr t \<Longrightarrow> cached_ok r i t"
  by (auto simp: validate_receive_policy_id_def cached_ok_def simple_ref_def run_simps builtin_None
      dest!: get_policy_data_Inr split: if_splits)

lemma create_compound_policy_Inr:
  assumes "create_compound_policy m a b c e r = Inr (i, r', l)"
  shows "simple_ref r a" "simple_ref r b" "simple_ref r c" "i = policy_id_counter r" "unat i + 1 < 2 ^ 64"
    "r' = with_new_policy \<lparr>base = \<lparr>pd_policy_type = 2, pd_admin = 0\<rparr>,
        compound = \<lparr>sender_policy_id = a, recipient_policy_id = b, mint_recipient_policy_id = c\<rparr>\<rparr> (policy_set r i) r"
  using assms
  by (auto simp: create_compound_policy_def run_simps allocate_policy_id_Inr emit403_def with_new_policy_def
      Let_def dest: validate_simple_policy_Inr)

definition with_receive_policy :: "address \<Rightarrow> receive_policy \<Rightarrow> tip403_registry \<Rightarrow> tip403_registry" where
  "with_receive_policy a p r = r\<lparr>receive_policies := (receive_policies r)(a := p)\<rparr>"

lemma set_receive_policy_Inr:
  assumes "set_receive_policy m a b rec e r = Inr (u, r', l)"
  obtains st ft where "cached_ok r a st" "cached_ok r b ft"
    "r' = with_receive_policy m
       \<lparr>config = \<lparr>has_receive_policy = True, rp_sender_policy_id = a, rp_sender_policy_type = st,
                  token_filter_id = b, token_filter_type = ft, recovery_mode = fst (recovery_encode rec m)\<rparr>,
        recovery_address = snd (recovery_encode rec m)\<rparr> r"
    "\<not> is_virtual m" "\<not> is_virtual rec" "\<not> is_precompile rec (spec e)"
  using assms
  by (cases "recovery_encode rec m")
    (auto simp: set_receive_policy_def run_simps emit403_def with_receive_policy_def
      dest!: validate_receive_policy_id_Inr)

section \<open>Invariant\<close>

definition policy_blank :: "tip403_registry \<Rightarrow> u64 \<Rightarrow> bool" where
  "policy_blank r i \<longleftrightarrow> is_default (base (policy_records r i)) \<and> policy_set r i = (\<lambda>_. False)"

definition policy_wf :: "tip403_registry \<Rightarrow> u64 \<Rightarrow> bool" where
  "policy_wf r i \<longleftrightarrow>
     (is_simple (base (policy_records r i)) \<or> pd_policy_type (base (policy_records r i)) = 255 \<or>
      is_compound (base (policy_records r i)) \<and>
        (let c = compound (policy_records r i) in
         simple_ref r (sender_policy_id c) \<and> simple_ref r (recipient_policy_id c) \<and>
         simple_ref r (mint_recipient_policy_id c)))"

definition receive_policy_wf :: "tip403_registry \<Rightarrow> address \<Rightarrow> bool" where
  "receive_policy_wf r a \<longleftrightarrow>
     (let c = config (receive_policies r a) in
      has_receive_policy c \<longrightarrow>
        cached_ok r (rp_sender_policy_id c) (rp_sender_policy_type c) \<and>
        cached_ok r (token_filter_id c) (token_filter_type c))"

definition tip403_inv :: "tip403_registry \<Rightarrow> bool" where
  "tip403_inv r \<longleftrightarrow>
     (\<forall>i. i < 2 \<or> policy_id_counter r \<le> i \<longrightarrow> policy_blank r i) \<and>
     (\<forall>i. 2 \<le> i \<longrightarrow> i < policy_id_counter r \<longrightarrow> policy_wf r i) \<and>
     (\<forall>a. receive_policy_wf r a) \<and>
     (\<forall>i. is_compound (base (policy_records r i)) \<longrightarrow> pd_admin (base (policy_records r i)) = 0)"

text \<open>Policies are never removed, and neither their type nor their sub-policies change.\<close>

definition policy_extends :: "tip403_registry \<Rightarrow> tip403_registry \<Rightarrow> bool" where
  "policy_extends r r' \<longleftrightarrow>
     policy_id_counter r \<le> policy_id_counter r' \<and>
     (\<forall>i. 2 \<le> i \<longrightarrow> i < policy_id_counter r \<longrightarrow>
        pd_policy_type (base (policy_records r' i)) = pd_policy_type (base (policy_records r i)) \<and>
        compound (policy_records r' i) = compound (policy_records r i))"

lemma policy_extends_refl [simp]: "policy_extends r r"
  by (simp add: policy_extends_def)

lemma policy_extends_trans: "policy_extends r s \<Longrightarrow> policy_extends s t \<Longrightarrow> policy_extends r t"
  unfolding policy_extends_def by (metis order_trans order_less_le_trans)

lemma simple_ref_mono: "policy_extends r r' \<Longrightarrow> simple_ref r i \<Longrightarrow> simple_ref r' i"
  unfolding simple_ref_def policy_extends_def is_simple_def by (metis not_le order_less_le_trans)

lemma cached_ok_mono: "policy_extends r r' \<Longrightarrow> cached_ok r i t \<Longrightarrow> cached_ok r' i t"
  using simple_ref_mono[of r r' i] unfolding cached_ok_def simple_ref_def policy_extends_def
  by (metis not_le)

lemma policy_wf_mono:
  assumes "policy_extends r r'" "policy_wf r i" "2 \<le> i" "i < policy_id_counter r"
  shows "policy_wf r' i"
proof -
  have "pd_policy_type (base (policy_records r' i)) = pd_policy_type (base (policy_records r i))"
    "compound (policy_records r' i) = compound (policy_records r i)"
    using assms unfolding policy_extends_def by auto
  then show ?thesis
    using assms(2) simple_ref_mono[OF assms(1)]
    unfolding policy_wf_def is_simple_def is_compound_def Let_def by auto
qed

lemma receive_policy_wf_mono:
  "policy_extends r r' \<Longrightarrow> receive_policies r' a = receive_policies r a \<Longrightarrow> receive_policy_wf r a \<Longrightarrow> receive_policy_wf r' a"
  using cached_ok_mono by (auto simp: receive_policy_wf_def Let_def)

lemma counter_with_new_policy:
  assumes "unat (policy_id_counter r) + 1 < 2 ^ 64"
  shows "policy_id_counter (with_new_policy rec members r) = policy_id_counter r + 1"
    and "i < policy_id_counter r + 1 \<longleftrightarrow> i < policy_id_counter r \<or> i = policy_id_counter r"
proof -
  let ?c = "policy_id_counter r"
  have un: "unat (?c + 1) = unat ?c + 1" using assms by (simp add: unat_word_ariths)
  then have "2 \<le> ?c + 1" using policy_id_counter_ge[of r] by (simp add: word_le_nat_alt)
  then show "policy_id_counter (with_new_policy rec members r) = ?c + 1"
    by (simp add: with_new_policy_def policy_id_counter_def[of "tip403_registry.policy_set_update _ _"] Let_def)
  show "i < ?c + 1 \<longleftrightarrow> i < ?c \<or> i = ?c"
    using un by (auto simp: word_less_nat_alt word_unat_eq_iff)
qed

lemma extends_new_policy:
  "unat (policy_id_counter r) + 1 < 2 ^ 64 \<Longrightarrow> policy_extends r (with_new_policy rec members r)"
  using counter_with_new_policy[of r] policy_id_counter_ge[of r]
  unfolding policy_extends_def
  by (auto simp: with_new_policy_def Let_def less_imp_le)

lemma policy_extends_simps [simp]:
  "policy_extends r (with_admin i admin r)"
  "policy_extends r (with_member i a v r)"
  "policy_extends r (with_receive_policy a p r)"
  by (simp_all add: policy_extends_def with_admin_def with_member_def with_receive_policy_def policy_id_counter_def)

lemma counter_simps [simp]:
  "policy_id_counter (with_admin i admin r) = policy_id_counter r"
  "policy_id_counter (with_member i a v r) = policy_id_counter r"
  "policy_id_counter (with_receive_policy a p r) = policy_id_counter r"
  by (simp_all add: with_admin_def with_member_def with_receive_policy_def policy_id_counter_def)

lemma tip403_inv_new_policy:
  assumes inv: "tip403_inv r" and ov: "unat (policy_id_counter r) + 1 < 2 ^ 64"
    and new: "policy_wf (with_new_policy rec members r) (policy_id_counter r)"
    and adm: "is_compound (base rec) \<Longrightarrow> pd_admin (base rec) = 0"
  shows "tip403_inv (with_new_policy rec members r)" (is "tip403_inv ?r'")
proof -
  note c = counter_with_new_policy[OF ov] and ext = extends_new_policy[OF ov]
  have old: "policy_records ?r' i = policy_records r i" "policy_set ?r' i = policy_set r i"
    if "i \<noteq> policy_id_counter r" for i
    using that by (simp_all add: with_new_policy_def Let_def)
  have "policy_blank ?r' i" if "i < 2 \<or> policy_id_counter r + 1 \<le> i" for i
  proof -
    have "i \<noteq> policy_id_counter r" "i < 2 \<or> policy_id_counter r \<le> i"
      using that policy_id_counter_ge[of r] c(2)[of i] by (auto simp: not_le[symmetric])
    with old[of i] inv show ?thesis by (auto simp: tip403_inv_def policy_blank_def)
  qed
  moreover have "policy_wf ?r' i" if "2 \<le> i" "i < policy_id_counter r + 1" for i
    using that new policy_wf_mono[OF ext] inv unfolding c(2) tip403_inv_def by blast
  moreover have "receive_policy_wf ?r' a" for a
    using inv by (intro receive_policy_wf_mono[OF ext]) (auto simp: tip403_inv_def with_new_policy_def Let_def)
  moreover have "is_compound (base (policy_records ?r' i)) \<longrightarrow> pd_admin (base (policy_records ?r' i)) = 0" for i
    using inv adm by (auto simp: tip403_inv_def with_new_policy_def Let_def)
  ultimately show ?thesis unfolding tip403_inv_def c(1) by blast
qed

lemma admin_nonzero_exists:
  assumes "tip403_inv r" "pd_admin (base (policy_records r i)) \<noteq> 0"
  shows "2 \<le> i" and "i < policy_id_counter r"
  using assms unfolding tip403_inv_def policy_blank_def is_default_def
  by (metis not_le)+

lemma tip403_inv_update:
  assumes inv: "tip403_inv r" and ext: "policy_extends r r'" and c: "policy_id_counter r' = policy_id_counter r"
    and rp: "\<And>a. receive_policies r' a = receive_policies r a \<or> receive_policy_wf r' a"
    and i: "2 \<le> i" "i < policy_id_counter r"
    and adm: "is_compound (base (policy_records r' i)) \<Longrightarrow> pd_admin (base (policy_records r' i)) = 0"
    and frame: "\<And>j. j \<noteq> i \<Longrightarrow> policy_records r' j = policy_records r j \<and> policy_set r' j = policy_set r j"
  shows "tip403_inv r'"
proof -
  have "policy_blank r' j" if "j < 2 \<or> policy_id_counter r \<le> j" for j
    using frame[of j] that i inv by (fastforce simp: tip403_inv_def policy_blank_def)
  moreover have "policy_wf r' j" if "2 \<le> j" "j < policy_id_counter r" for j
    using policy_wf_mono[OF ext] inv that by (simp add: tip403_inv_def)
  moreover have "receive_policy_wf r' a" for a
    using rp[of a] receive_policy_wf_mono[OF ext] inv by (auto simp: tip403_inv_def)
  moreover have "is_compound (base (policy_records r' j)) \<longrightarrow> pd_admin (base (policy_records r' j)) = 0" for j
    using frame[of j] adm inv by (cases "j = i") (auto simp: tip403_inv_def)
  ultimately show ?thesis unfolding tip403_inv_def c by blast
qed

lemma tip403_inv_with_admin:
  "tip403_inv r \<Longrightarrow> pd_admin (base (policy_records r i)) \<noteq> 0 \<Longrightarrow> tip403_inv (with_admin i admin r)"
  by (rule tip403_inv_update[OF _ policy_extends_simps(1) counter_simps(1) _ admin_nonzero_exists])
    (auto simp: with_admin_def tip403_inv_def is_compound_def)

lemma tip403_inv_with_member:
  "tip403_inv r \<Longrightarrow> pd_admin (base (policy_records r i)) \<noteq> 0 \<Longrightarrow> tip403_inv (with_member i a v r)"
  by (rule tip403_inv_update[OF _ policy_extends_simps(2) counter_simps(2) _ admin_nonzero_exists])
    (auto simp: with_member_def tip403_inv_def)

lemma tip403_inv_with_receive_policy:
  assumes "tip403_inv r" "cached_ok r (rp_sender_policy_id (config p)) (rp_sender_policy_type (config p))"
    "cached_ok r (token_filter_id (config p)) (token_filter_type (config p))"
  shows "tip403_inv (with_receive_policy a p r)" (is "tip403_inv ?r'")
proof -
  have ext: "policy_extends r ?r'" by simp
  have "receive_policy_wf ?r' b" for b
  proof (cases "b = a")
    case True
    then show ?thesis
      using assms(2,3) cached_ok_mono[OF ext] by (auto simp: receive_policy_wf_def with_receive_policy_def)
  next
    case False
    then show ?thesis
      using assms(1) by (intro receive_policy_wf_mono[OF ext]) (auto simp: tip403_inv_def with_receive_policy_def)
  qed
  moreover have "policy_blank ?r' i = policy_blank r i" "policy_records ?r' = policy_records r" for i
    by (simp_all add: policy_blank_def with_receive_policy_def)
  ultimately show ?thesis
    using assms(1) policy_wf_mono[OF ext] unfolding tip403_inv_def by auto
qed

lemma ensure_is_simple_Inr:
  "ensure_is_simple t e = Inr ty \<Longrightarrow> ty = 0 \<or> ty = 1 \<or> ty = 255"
  by (auto simp: ensure_is_simple_def split: policy_type.splits if_splits)

lemma policy_wf_new_simple:
  "ty = 0 \<or> ty = 1 \<or> ty = 255 \<Longrightarrow>
   policy_wf (with_new_policy (rec\<lparr>base := \<lparr>pd_policy_type = ty, pd_admin = admin\<rparr>\<rparr>) members r) (policy_id_counter r)"
  by (auto simp: policy_wf_def with_new_policy_def Let_def is_simple_def)

lemma tip403_exec_keeps:
  assumes "tip403_exec m c e r = Inr (u, r', l)" "m \<noteq> 0" "tip403_inv r"
  shows "tip403_inv r' \<and> policy_extends r r'"
proof (cases c)
  case (CreatePolicy admin t)
  then obtain i where "create_policy m admin t e r = Inr (i, r', l)"
    using assms(1) by (auto simp: run_simps)
  then show ?thesis
    using assms(3) by (elim create_policy_Inr)
      (auto intro!: tip403_inv_new_policy policy_wf_new_simple extends_new_policy dest!: ensure_is_simple_Inr simp: is_compound_def)
next
  case (CreatePolicyWithAccounts admin t xs)
  then obtain i where "create_policy_with_accounts m admin t xs e r = Inr (i, r', l)"
    using assms(1) by (auto simp: run_simps)
  then show ?thesis
    using assms(3) by (elim create_policy_with_accounts_Inr)
      (auto intro!: tip403_inv_new_policy policy_wf_new_simple extends_new_policy dest!: ensure_is_simple_Inr simp: is_compound_def)
next
  case (SetPolicyAdmin i admin)
  with assms set_policy_admin_Inr[of m i admin e r u r' l] show ?thesis
    by (auto intro!: tip403_inv_with_admin)
next
  case (ModifyPolicyWhitelist i a v)
  with assms modify_policy_whitelist_Inr[of m i a v e r u r' l] show ?thesis
    by (auto intro!: tip403_inv_with_member)
next
  case (ModifyPolicyBlacklist i a v)
  with assms modify_policy_blacklist_Inr[of m i a v e r u r' l] show ?thesis
    by (auto intro!: tip403_inv_with_member)
next
  case (CreateCompoundPolicy x y z)
  then obtain i where run: "create_compound_policy m x y z e r = Inr (i, r', l)"
    using assms(1) by (auto simp: run_simps)
  note res = create_compound_policy_Inr[OF run]
  have "simple_ref r' x" "simple_ref r' y" "simple_ref r' z"
    using res extends_new_policy simple_ref_mono by metis+
  with res(4-6) have "policy_wf r' (policy_id_counter r)"
    by (simp add: policy_wf_def with_new_policy_def Let_def is_compound_def)
  with res(4-6) show ?thesis
    using assms(3) tip403_inv_new_policy[of r] extends_new_policy[of r] by auto
next
  case (SetReceivePolicy x y rec)
  with assms(1) have "set_receive_policy m x y rec e r = Inr (u, r', l)" by (simp add: run_simps)
  then show ?thesis
    using assms(3) by (elim set_receive_policy_Inr) (auto intro!: tip403_inv_with_receive_policy)
qed

text \<open>
  Transitions of the registry's storage: a dispatched call from a sender other than the zero
  address, which cannot sign or call, or a binding written by a TIP-20 token.
\<close>

inductive tip403_step :: "tip403_registry \<Rightarrow> tip403_registry \<Rightarrow> bool" where
  tip403_step_call: "m \<noteq> 0 \<Longrightarrow> tip403_exec m c e r = Inr (u, r', l) \<Longrightarrow> tip403_step r r'"
| tip403_step_bind: "set_token_transfer_policy token i e r = Inr (u, r', l) \<Longrightarrow> tip403_step r r'"

definition tip403_init :: tip403_registry where
  "tip403_init = \<lparr>policy_id_counter_slot = 0,
     policy_records = (\<lambda>_. \<lparr>base = \<lparr>pd_policy_type = 0, pd_admin = 0\<rparr>,
       compound = \<lparr>sender_policy_id = 0, recipient_policy_id = 0, mint_recipient_policy_id = 0\<rparr>\<rparr>),
     policy_set = (\<lambda>_ _. False),
     receive_policies = (\<lambda>_. \<lparr>config = \<lparr>has_receive_policy = False, rp_sender_policy_id = 0,
       rp_sender_policy_type = 0, token_filter_id = 0, token_filter_type = 0, recovery_mode = Originator\<rparr>,
       recovery_address = 0\<rparr>),
     token_transfer_policies = (\<lambda>_. \<lparr>ttp_policy_id = 0, ttp_is_set = False\<rparr>)\<rparr>"

lemma tip403_init_inv: "tip403_inv tip403_init"
  unfolding tip403_inv_def
  by (auto simp: tip403_init_def policy_id_counter_def policy_blank_def is_default_def is_compound_def
      receive_policy_wf_def)

lemma set_token_transfer_policy_keeps:
  assumes "set_token_transfer_policy token i e r = Inr (u, r', l)" "tip403_inv r"
  shows "tip403_inv r' \<and> policy_extends r r'"
proof -
  have r': "r' = r\<lparr>token_transfer_policies :=
       (token_transfer_policies r)(token := \<lparr>ttp_policy_id = i, ttp_is_set = True\<rparr>)\<rparr>"
    using assms(1) by (simp add: set_token_transfer_policy_def)
  have ext: "policy_extends r r'" by (simp add: r' policy_extends_def policy_id_counter_def)
  have c: "policy_id_counter r' = policy_id_counter r" by (simp add: r' policy_id_counter_def)
  have "policy_blank r' j = policy_blank r j" "policy_records r' = policy_records r" for j
    by (simp_all add: r' policy_blank_def)
  moreover have "receive_policy_wf r' a" for a
    using assms(2) by (intro receive_policy_wf_mono[OF ext]) (auto simp: r' tip403_inv_def)
  ultimately show ?thesis
    using ext assms(2) policy_wf_mono[OF ext] unfolding tip403_inv_def c by auto
qed

lemma tip403_step_keeps: "tip403_step r r' \<Longrightarrow> tip403_inv r \<Longrightarrow> tip403_inv r' \<and> policy_extends r r'"
  by (induction rule: tip403_step.induct) (auto dest: tip403_exec_keeps set_token_transfer_policy_keeps)

interpretation tip403_machine: stepwise_invariant tip403_step tip403_inv
  by standard (simp add: tip403_step_keeps)

interpretation tip403_history:
  stepwise_invariant tip403_step "\<lambda>r. tip403_inv r \<and> policy_extends r0 r" for r0
  by standard (use tip403_step_keeps policy_extends_trans in blast)

section \<open>The policies a registry stands for\<close>

datatype policy =
    SimplePolicy bool address "address set"
  | CompoundPolicy u64 u64 u64
  | LegacyPolicy address "address set"

definition policy_of :: "policy_record \<Rightarrow> (address \<Rightarrow> bool) \<Rightarrow> policy" where
  "policy_of rec members =
     (let t = pd_policy_type (base rec); c = compound rec in
      if t = 0 \<or> t = 1 then SimplePolicy (t = 0) (pd_admin (base rec)) {a. members a}
      else if t = 2 then CompoundPolicy (sender_policy_id c) (recipient_policy_id c) (mint_recipient_policy_id c)
      else LegacyPolicy (pd_admin (base rec)) {a. members a})"

definition policy_abs :: "tip403_registry \<Rightarrow> u64 \<Rightarrow> policy option" where
  "policy_abs r i =
     (if i < 2 \<or> policy_id_counter r \<le> i then None
      else Some (policy_of (policy_records r i) (policy_set r i)))"

text \<open>
  Whether a policy allows a user: a whitelist allows its members, a blacklist all others; a
  compound policy asks one simple policy per role. \<open>None\<close> for ids that name no policy and
  for policies of unknown type, which could be created before T2.
\<close>

definition simple_allows :: "(u64 \<Rightarrow> policy option) \<Rightarrow> u64 \<Rightarrow> address \<Rightarrow> bool option" where
  "simple_allows P i user =
     (if i = 0 then Some False else if i = 1 then Some True
      else case P i of
             Some (SimplePolicy white _ members) \<Rightarrow> Some ((user \<in> members) = white)
           | _ \<Rightarrow> None)"

definition policy_allows :: "(u64 \<Rightarrow> policy option) \<Rightarrow> auth_role \<Rightarrow> u64 \<Rightarrow> address \<Rightarrow> bool option" where
  "policy_allows P role i user =
     (case P i of
        Some (CompoundPolicy s t m) \<Rightarrow>
          (case role of
             RoleSender \<Rightarrow> simple_allows P s user
           | RoleRecipient \<Rightarrow> simple_allows P t user
           | RoleMintRecipient \<Rightarrow> simple_allows P m user
           | RoleTransfer \<Rightarrow>
               (case (simple_allows P s user, simple_allows P t user) of
                  (Some x, Some y) \<Rightarrow> Some (x \<and> y) | _ \<Rightarrow> None))
      | _ \<Rightarrow> simple_allows P i user)"

lemma builtin_cases: "i < 2 \<Longrightarrow> i = 0 \<or> i = (1 :: u64)"
  using builtin_None[of i]
  by (auto simp: builtin_authorization_def ALLOW_ALL_POLICY_ID_def REJECT_ALL_POLICY_ID_def not_le[symmetric] split: if_splits)

lemma builtin_simps [simp]:
  "builtin_authorization 0 = Some False" "builtin_authorization 1 = Some True"
  by (simp_all add: builtin_authorization_def ALLOW_ALL_POLICY_ID_def REJECT_ALL_POLICY_ID_def)

lemma not_builtin: "2 \<le> (i :: u64) \<Longrightarrow> i \<noteq> 0 \<and> i \<noteq> 1 \<and> \<not> i < 2"
  by (auto simp: not_less word_le_nat_alt)

lemma get_policy_data_exists:
  "i < policy_id_counter r \<Longrightarrow> get_policy_data i e r = Inr (base (policy_records r i))"
  by (simp add: get_policy_data_def Let_def not_le)

lemma policy_data_type_simple:
  "is_simple d \<Longrightarrow> policy_data_type d e = Inr (if pd_policy_type d = 0 then WHITELIST else BLACKLIST)"
  by (auto simp: policy_data_type_def is_simple_def policy_type_of_u8_def)

lemma is_authorized_simple_refines:
  assumes "simple_ref r i"
  shows "\<exists>b. is_authorized_simple i user None e r = Inr b \<and> simple_allows (policy_abs r) i user = Some b"
proof (cases "i < 2")
  case True
  then show ?thesis
    using builtin_cases[OF True] by (auto simp: is_authorized_simple_def simple_allows_def)
next
  case False
  then have i: "2 \<le> i" "i < policy_id_counter r" "is_simple (base (policy_records r i))"
    using assms by (auto simp: simple_ref_def not_less)
  then have t: "pd_policy_type (base (policy_records r i)) = 0 \<or> pd_policy_type (base (policy_records r i)) = 1"
    by (simp add: is_simple_def)
  from i not_builtin[OF i(1)] show ?thesis
    using t by (auto simp: is_authorized_simple_def builtin_None[THEN iffD2] get_policy_data_exists
        is_authorized_simple_inner_def policy_data_type_simple simple_allows_def policy_abs_def policy_of_def Let_def not_le)
qed

lemma is_authorized_as_compound:
  assumes "tip403_inv r" "is_t2 (spec e)" "policy_abs r i = Some (CompoundPolicy s t m)"
    and "\<not> list_ex (\<lambda>(fork, addrs). fork \<le> spec e \<and> user \<in> set addrs) ALWAYS_AUTHORIZED"
  shows "\<exists>b. is_authorized_as i user role e r = Inr b \<and> policy_allows (policy_abs r) role i user = Some b"
proof -
  from assms(3) have i: "2 \<le> i" "i < policy_id_counter r"
    and comp: "is_compound (base (policy_records r i))"
    and c: "sender_policy_id (compound (policy_records r i)) = s"
      "recipient_policy_id (compound (policy_records r i)) = t"
      "mint_recipient_policy_id (compound (policy_records r i)) = m"
    by (auto simp: policy_abs_def policy_of_def Let_def is_compound_def not_le not_less split: if_splits)
  from assms(1) i have "policy_wf r i" by (simp add: tip403_inv_def)
  with comp c have refs: "simple_ref r s" "simple_ref r t" "simple_ref r m"
    by (auto simp: policy_wf_def is_compound_def is_simple_def Let_def)
  note ref = refs[THEN is_authorized_simple_refines, of user e]
  show ?thesis
    using ref assms(2,3) not_builtin[OF i(1)] comp c i
    by (cases role)
      (auto simp: is_authorized_as_def assms(4) builtin_None[THEN iffD2] get_policy_data_exists Let_def policy_allows_def)
qed

lemma is_authorized_as_plain:
  assumes "tip403_inv r" "is_t2 (spec e)" "\<nexists>s t m. policy_abs r i = Some (CompoundPolicy s t m)"
    and "\<not> list_ex (\<lambda>(fork, addrs). fork \<le> spec e \<and> user \<in> set addrs) ALWAYS_AUTHORIZED"
  shows "is_authorized_as i user role e r =
    (case simple_allows (policy_abs r) i user of
       Some b \<Rightarrow> Inr b
     | None \<Rightarrow> Inl (TIP403Err (if policy_exists i r then InvalidPolicyType else PolicyNotFound)))"
proof (cases "i < 2 \<or> policy_id_counter r \<le> i")
  case True
  then show ?thesis
  proof
    assume "i < 2"
    then show ?thesis
      using builtin_cases[of i] by (auto simp: is_authorized_as_def assms(4) simple_allows_def)
  next
    assume ge: "policy_id_counter r \<le> i"
    then have "2 \<le> i" using policy_id_counter_ge[of r] by simp
    moreover have "is_default (base (policy_records r i))"
      using assms(1) ge by (simp add: tip403_inv_def policy_blank_def)
    ultimately show ?thesis
      using ge assms(2) not_builtin[of i]
      by (simp add: is_authorized_as_def assms(4) builtin_None[THEN iffD2] get_policy_data_def Let_def
          simple_allows_def policy_abs_def policy_of_def policy_exists_def)
  qed
next
  case False
  then have i: "2 \<le> i" "i < policy_id_counter r" by (auto simp: not_less not_le)
  have nc: "\<not> is_compound (base (policy_records r i))"
    using assms(3) False by (auto simp: policy_abs_def policy_of_def Let_def is_compound_def)
  have "policy_wf r i" using assms(1) i by (simp add: tip403_inv_def)
  then consider "is_simple (base (policy_records r i))" | "pd_policy_type (base (policy_records r i)) = 255"
    using nc by (auto simp: policy_wf_def)
  then show ?thesis
  proof cases
    case 1
    then have "simple_ref r i" using i by (simp add: simple_ref_def)
    from is_authorized_simple_refines[OF this, of user e] show ?thesis
      using i nc not_builtin[OF i(1)]
      by (auto simp: is_authorized_as_def assms(4) builtin_None[THEN iffD2] get_policy_data_exists is_authorized_simple_def)
  next
    case 2
    then show ?thesis
      using i nc not_builtin[OF i(1)] assms(2)
      by (auto simp: is_authorized_as_def assms(4) builtin_None[THEN iffD2] get_policy_data_exists
          is_authorized_simple_inner_def policy_data_type_def policy_type_of_u8_def simple_allows_def
          policy_abs_def policy_of_def Let_def policy_exists_def not_le)
  qed
qed


text \<open>
  The calls as operations on the policies, for T2 and later, where \<open>n\<close> is the next id;
  \<open>None\<close> where the caller or the policy is not the right one.
\<close>

definition simple_id :: "(u64 \<Rightarrow> policy option) \<Rightarrow> u64 \<Rightarrow> bool" where
  "simple_id P i \<longleftrightarrow> i < 2 \<or> (case P i of Some (SimplePolicy _ _ _) \<Rightarrow> True | _ \<Rightarrow> False)"

fun policy_call :: "address \<Rightarrow> tip403_call \<Rightarrow> u64 \<Rightarrow> (u64 \<Rightarrow> policy option) \<Rightarrow> (u64 \<Rightarrow> policy option) option" where
  "policy_call m (CreatePolicy admin t) n P =
     (if t = WHITELIST \<or> t = BLACKLIST then Some (P(n \<mapsto> SimplePolicy (t = WHITELIST) admin {})) else None)"
| "policy_call m (CreatePolicyWithAccounts admin t xs) n P =
     (if t = WHITELIST \<or> t = BLACKLIST then Some (P(n \<mapsto> SimplePolicy (t = WHITELIST) admin (set xs))) else None)"
| "policy_call m (SetPolicyAdmin i admin) n P =
     (case P i of
        Some (SimplePolicy w a S) \<Rightarrow> if a = m then Some (P(i \<mapsto> SimplePolicy w admin S)) else None
      | Some (LegacyPolicy a S) \<Rightarrow> if a = m then Some (P(i \<mapsto> LegacyPolicy admin S)) else None
      | _ \<Rightarrow> None)"
| "policy_call m (ModifyPolicyWhitelist i x v) n P =
     (case P i of
        Some (SimplePolicy w a S) \<Rightarrow>
          if a = m \<and> w then Some (P(i \<mapsto> SimplePolicy w a (if v then insert x S else S - {x}))) else None
      | _ \<Rightarrow> None)"
| "policy_call m (ModifyPolicyBlacklist i x v) n P =
     (case P i of
        Some (SimplePolicy w a S) \<Rightarrow>
          if a = m \<and> \<not> w then Some (P(i \<mapsto> SimplePolicy w a (if v then insert x S else S - {x}))) else None
      | _ \<Rightarrow> None)"
| "policy_call m (CreateCompoundPolicy a b c) n P =
     (if simple_id P a \<and> simple_id P b \<and> simple_id P c then Some (P(n \<mapsto> CompoundPolicy a b c)) else None)"
| "policy_call m (SetReceivePolicy a b rec) n P = Some P"

lemma policy_abs_new:
  assumes "unat (policy_id_counter r) + 1 < 2 ^ 64"
  shows "policy_abs (with_new_policy rec members r) = (policy_abs r)(policy_id_counter r \<mapsto> policy_of rec members)"
proof
  fix i
  have "policy_records (with_new_policy rec members r) i = (if i = policy_id_counter r then rec else policy_records r i)"
    "policy_set (with_new_policy rec members r) i = (if i = policy_id_counter r then members else policy_set r i)"
    by (simp_all add: with_new_policy_def Let_def)
  then show "policy_abs (with_new_policy rec members r) i =
      ((policy_abs r)(policy_id_counter r \<mapsto> policy_of rec members)) i"
    using counter_with_new_policy(1)[OF assms, of rec members] counter_with_new_policy(2)[OF assms, of i]
      policy_id_counter_ge[of r]
    by (auto simp: policy_abs_def not_le not_less)
qed

lemma policy_abs_update:
  assumes "2 \<le> i" "i < policy_id_counter r"
  shows "policy_abs (with_admin i admin r) = (policy_abs r)(i \<mapsto>
      policy_of ((policy_records r i)\<lparr>base := (base (policy_records r i))\<lparr>pd_admin := admin\<rparr>\<rparr>) (policy_set r i))"
    and "policy_abs (with_member i a v r) = (policy_abs r)(i \<mapsto>
      policy_of (policy_records r i) ((policy_set r i)(a := v)))"
proof -
  have "\<not> (i < 2 \<or> policy_id_counter r \<le> i)" using assms by (auto simp: not_less not_le)
  then show "policy_abs (with_admin i admin r) = (policy_abs r)(i \<mapsto>
      policy_of ((policy_records r i)\<lparr>base := (base (policy_records r i))\<lparr>pd_admin := admin\<rparr>\<rparr>) (policy_set r i))"
    and "policy_abs (with_member i a v r) = (policy_abs r)(i \<mapsto>
      policy_of (policy_records r i) ((policy_set r i)(a := v)))"
    by (intro ext; simp add: policy_abs_def; simp add: with_admin_def with_member_def)+
qed

lemma policy_abs_exists:
  "2 \<le> i \<Longrightarrow> i < policy_id_counter r \<Longrightarrow> policy_abs r i = Some (policy_of (policy_records r i) (policy_set r i))"
  by (auto simp: policy_abs_def not_le)

lemma simple_ref_simple_id: "simple_ref r i \<Longrightarrow> simple_id (policy_abs r) i"
  by (auto simp: simple_ref_def simple_id_def policy_abs_def policy_of_def is_simple_def Let_def)

lemma create_refines:
  assumes "ensure_is_simple t e = Inr ty" "is_t2 (spec e)"
  shows "t = WHITELIST \<or> t = BLACKLIST"
    and "policy_of (rec\<lparr>base := \<lparr>pd_policy_type = ty, pd_admin = admin\<rparr>\<rparr>) members =
      SimplePolicy (t = WHITELIST) admin {a. members a}"
  using assms by (auto simp: ensure_is_simple_def policy_of_def split: policy_type.splits)

lemma Collect_fun_upd [simp]:
  "Collect (f(a := True)) = insert a (Collect f)" "Collect (f(a := False)) = Collect f - {a}"
  by (auto split: if_splits)

lemma tip403_exec_refines:
  assumes run: "tip403_exec m c e r = Inr (u, r', l)" and m: "m \<noteq> 0" and inv: "tip403_inv r" and t2: "is_t2 (spec e)"
  shows "policy_call m c (policy_id_counter r) (policy_abs r) = Some (policy_abs r')"
proof (cases c)
  case (CreatePolicy admin t)
  then obtain i where "create_policy m admin t e r = Inr (i, r', l)"
    using run by (auto simp: run_simps)
  moreover have "policy_set r (policy_id_counter r) = (\<lambda>_. False)"
    using inv by (simp add: tip403_inv_def policy_blank_def)
  ultimately show ?thesis
    using CreatePolicy create_refines[OF _ t2, of t]
    by (elim create_policy_Inr) (simp add: policy_abs_new)
next
  case (CreatePolicyWithAccounts admin t xs)
  then obtain i where "create_policy_with_accounts m admin t xs e r = Inr (i, r', l)"
    using run by (auto simp: run_simps)
  moreover have "policy_set r (policy_id_counter r) = (\<lambda>_. False)"
    using inv by (simp add: tip403_inv_def policy_blank_def)
  ultimately show ?thesis
    using CreatePolicyWithAccounts create_refines[OF _ t2, of t]
    by (elim create_policy_with_accounts_Inr) (simp add: policy_abs_new)
next
  case (SetPolicyAdmin i admin)
  note res = set_policy_admin_Inr[of m i admin e r u r' l]
  with run SetPolicyAdmin m have "pd_admin (base (policy_records r i)) \<noteq> 0" by simp
  note ex = admin_nonzero_exists[OF inv this]
  have "\<not> is_compound (base (policy_records r i))"
    using inv \<open>pd_admin _ \<noteq> 0\<close> by (auto simp: tip403_inv_def)
  with res run SetPolicyAdmin show ?thesis
    by (auto simp: policy_abs_update[OF ex] policy_abs_exists[OF ex] policy_of_def Let_def is_compound_def)
next
  case (ModifyPolicyWhitelist i a v)
  note res = modify_policy_whitelist_Inr[of m i a v e r u r' l]
  with run ModifyPolicyWhitelist m have "pd_admin (base (policy_records r i)) \<noteq> 0" by simp
  note ex = admin_nonzero_exists[OF inv this]
  have "pd_policy_type (base (policy_records r i)) = 0"
    using res(3) run ModifyPolicyWhitelist
    by (auto simp: policy_data_type_def policy_type_of_u8_def split: option.splits if_splits)
  with res run ModifyPolicyWhitelist show ?thesis
    by (auto simp: policy_abs_update[OF ex] policy_abs_exists[OF ex] policy_of_def Let_def)
next
  case (ModifyPolicyBlacklist i a v)
  note res = modify_policy_blacklist_Inr[of m i a v e r u r' l]
  with run ModifyPolicyBlacklist m have "pd_admin (base (policy_records r i)) \<noteq> 0" by simp
  note ex = admin_nonzero_exists[OF inv this]
  have "pd_policy_type (base (policy_records r i)) = 1"
    using res(3) run ModifyPolicyBlacklist
    by (auto simp: policy_data_type_def policy_type_of_u8_def split: option.splits if_splits)
  with res run ModifyPolicyBlacklist show ?thesis
    by (auto simp: policy_abs_update[OF ex] policy_abs_exists[OF ex] policy_of_def Let_def)
next
  case (CreateCompoundPolicy x y z)
  then obtain i where run': "create_compound_policy m x y z e r = Inr (i, r', l)"
    using run by (auto simp: run_simps)
  note res = create_compound_policy_Inr[OF run']
  then show ?thesis
    using CreateCompoundPolicy by (simp add: simple_ref_simple_id policy_abs_new) (simp add: policy_of_def)
next
  case (SetReceivePolicy x y rec)
  with run have "set_receive_policy m x y rec e r = Inr (u, r', l)" by (simp add: run_simps)
  then have "policy_abs r' = policy_abs r"
    by (elim set_receive_policy_Inr)
      (auto simp: policy_abs_def with_receive_policy_def policy_id_counter_def fun_eq_iff)
  then show ?thesis using SetReceivePolicy by simp
qed


section \<open>Receive policies\<close>

text \<open>The check without the cache: the policy types are read from the registry.\<close>

definition check_receive_policy_uncached ::
  "address \<Rightarrow> address \<Rightarrow> address \<Rightarrow> env \<Rightarrow> tip403_registry \<Rightarrow>
   tempo_error + (blocked_reason \<times> address) option" where
  "check_receive_policy_uncached token sender receiver e r =
     (let c = config (receive_policies r receiver);
          recovery = receive_policy_recovery receiver (recovery_mode c) r in
      if \<not> has_receive_policy c then Inr None
      else
        rbind (is_authorized_simple (token_filter_id c) token None e r) (\<lambda>token_ok.
        if \<not> token_ok then Inr (Some (TOKEN_FILTER, recovery))
        else
          rbind (is_authorized_simple (rp_sender_policy_id c) sender None e r) (\<lambda>sender_ok.
          if \<not> sender_ok then Inr (Some (RECEIVE_POLICY, recovery)) else Inr None)))"

lemma policy_data_type_cong: "pd_policy_type d = pd_policy_type d' \<Longrightarrow> policy_data_type d e = policy_data_type d' e"
  by (simp add: policy_data_type_def)

lemma is_authorized_simple_cached:
  assumes "cached_ok r i t"
  shows "is_authorized_simple i user (Some \<lparr>pd_policy_type = t, pd_admin = 0\<rparr>) e r = is_authorized_simple i user None e r"
proof (cases "i < 2")
  case True
  then show ?thesis using builtin_cases[of i] by (auto simp: is_authorized_simple_def)
next
  case False
  then have i: "2 \<le> i" "i < policy_id_counter r" "t = pd_policy_type (base (policy_records r i))"
    using assms by (auto simp: cached_ok_def simple_ref_def not_less)
  then have "policy_data_type \<lparr>pd_policy_type = t, pd_admin = 0\<rparr> e = policy_data_type (base (policy_records r i)) e"
    by (intro policy_data_type_cong) simp
  with i not_builtin[OF i(1)] show ?thesis
    by (simp add: is_authorized_simple_def builtin_None[THEN iffD2] get_policy_data_exists is_authorized_simple_inner_def)
qed

lemma check_receive_policy_cached:
  assumes "tip403_inv r"
  shows "check_receive_policy token sender receiver e r = check_receive_policy_uncached token sender receiver e r"
proof (cases "has_receive_policy (config (receive_policies r receiver))")
  case True
  then have "cached_ok r (rp_sender_policy_id (config (receive_policies r receiver))) (rp_sender_policy_type (config (receive_policies r receiver)))"
    "cached_ok r (token_filter_id (config (receive_policies r receiver))) (token_filter_type (config (receive_policies r receiver)))"
    using assms by (auto simp: tip403_inv_def receive_policy_wf_def Let_def)
  from this[THEN is_authorized_simple_cached] show ?thesis
    by (simp add: check_receive_policy_def check_receive_policy_uncached_def Let_def token_filter_data_def
        sender_policy_data_def cong: if_cong)
next
  case False
  then show ?thesis by (simp add: check_receive_policy_def check_receive_policy_uncached_def)
qed

lemma check_receive_policy_total:
  assumes "tip403_inv r"
  shows "\<exists>b. check_receive_policy token sender receiver e r = Inr b"
proof (cases "has_receive_policy (config (receive_policies r receiver))")
  case True
  then have "simple_ref r (rp_sender_policy_id (config (receive_policies r receiver)))"
    "simple_ref r (token_filter_id (config (receive_policies r receiver)))"
    using assms by (auto simp: tip403_inv_def receive_policy_wf_def cached_ok_def Let_def)
  from is_authorized_simple_refines[OF this(1), of sender e] is_authorized_simple_refines[OF this(2), of token e]
  show ?thesis
    by (auto simp: check_receive_policy_cached[OF assms] check_receive_policy_uncached_def Let_def)
next
  case False
  then show ?thesis by (simp add: check_receive_policy_def)
qed

section \<open>Properties\<close>

text \<open>Claim C3: the authorization check implements the policies. In every reachable registry,
  from T2 on and for users that are not exempt, \<open>is_authorized_as\<close> returns exactly what the
  stored policy says for the role: membership for a whitelist, non-membership for a blacklist,
  the sub-policy of the role for a compound policy (both the sender and the recipient policy for
  a transfer). It fails only for ids that name no policy, and for policies of an undecodable
  type; in particular a compound policy never resolves to another compound policy.\<close>

theorem is_authorized_as_correct:
  assumes "tip403_step\<^sup>*\<^sup>* tip403_init r" and "is_t2 (spec e)"
    and "\<not> list_ex (\<lambda>(fork, addrs). fork \<le> spec e \<and> user \<in> set addrs) ALWAYS_AUTHORIZED"
  shows "is_authorized_as i user role e r =
    (case policy_allows (policy_abs r) role i user of
       Some b \<Rightarrow> Inr b
     | None \<Rightarrow> Inl (TIP403Err (if policy_exists i r then InvalidPolicyType else PolicyNotFound)))"
proof -
  have inv: "tip403_inv r" using tip403_machine.steps_inv[OF assms(1) tip403_init_inv] .
  show ?thesis
  proof (cases "\<exists>s t m. policy_abs r i = Some (CompoundPolicy s t m)")
    case True
    then obtain s t m where "policy_abs r i = Some (CompoundPolicy s t m)" by blast
    from is_authorized_as_compound[OF inv assms(2) this assms(3), of role] show ?thesis by auto
  next
    case False
    then have "policy_allows (policy_abs r) role i user = simple_allows (policy_abs r) i user"
      by (auto simp: policy_allows_def split: option.splits policy.splits)
    with is_authorized_as_plain[OF inv assms(2) False assms(3)] show ?thesis by simp
  qed
qed

definition whitelist_demo :: tip403_registry where
  "whitelist_demo = with_new_policy
     \<lparr>base = \<lparr>pd_policy_type = 0, pd_admin = 11\<rparr>,
      compound = \<lparr>sender_policy_id = 0, recipient_policy_id = 0, mint_recipient_policy_id = 0\<rparr>\<rparr>
     (\<lambda>a. a \<in> {21, 22}) tip403_init"

lemma counter_init: "policy_id_counter tip403_init = 2"
  by (simp add: policy_id_counter_def tip403_init_def)

lemma whitelist_demo_created:
  "\<exists>l. create_policy_with_accounts 11 11 WHITELIST [21, 22] (demo_env T8 0) tip403_init = Inr (2, whitelist_demo, l)"
proof -
  have "\<not> is_virtual 21" "\<not> is_virtual 22" by (simp_all add: is_virtual_def VIRTUAL_MAGIC_def)
  then show ?thesis
    by (simp add: create_policy_with_accounts_def exec_simps ensure_is_simple_def allocate_policy_id_def counter_init
        checked_add_def op403_defs whitelist_demo_def with_new_policy_def Let_def)
      (auto simp: tip403_init_def fun_eq_iff)
qed

lemma whitelist_demo_reachable: "tip403_step\<^sup>*\<^sup>* tip403_init whitelist_demo"
proof -
  from whitelist_demo_created obtain l where
    "tip403_exec 11 (CreatePolicyWithAccounts 11 WHITELIST [21, 22]) (demo_env T8 0) tip403_init = Inr ((), whitelist_demo, l)"
    by (auto simp: run_simps)
  from tip403_step_call[OF _ this] show ?thesis by (intro r_into_rtranclp) simp
qed

lemma whitelist_demo_counter: "policy_id_counter whitelist_demo = 3"
  using counter_with_new_policy(1)[of tip403_init] by (simp add: counter_init whitelist_demo_def)

theorem is_authorized_as_correct_witness:
  "is_authorized_as 2 21 RoleSender (demo_env T8 0) whitelist_demo = Inr True \<and>
   is_authorized_as 2 30 RoleSender (demo_env T8 0) whitelist_demo = Inr False \<and>
   is_authorized_as 3 21 RoleSender (demo_env T8 0) whitelist_demo = Inl (TIP403Err PolicyNotFound)"
proof -
  have t2: "is_t2 (spec (demo_env T8 0))" by (simp add: fork_eval)
  have abs: "policy_abs whitelist_demo 2 = Some (SimplePolicy True 11 {21, 22})" "policy_abs whitelist_demo 3 = None"
    by (simp_all add: policy_abs_def whitelist_demo_counter)
      (auto simp: whitelist_demo_def with_new_policy_def counter_init policy_of_def Let_def)
  have ex: "\<not> list_ex (\<lambda>(fork, addrs). fork \<le> spec (demo_env T8 0) \<and> u \<in> set addrs) ALWAYS_AUTHORIZED"
    if "u = 21 \<or> u = 30" for u using that by (auto simp: ALWAYS_AUTHORIZED_def address_defs)
  have "\<not> policy_exists 3 whitelist_demo"
    by (simp add: policy_exists_def whitelist_demo_counter builtin_None)
  then show ?thesis
    using is_authorized_as_correct[OF whitelist_demo_reachable t2 ex, of 21 2 RoleSender]
      is_authorized_as_correct[OF whitelist_demo_reachable t2 ex, of 30 2 RoleSender]
      is_authorized_as_correct[OF whitelist_demo_reachable t2 ex, of 21 3 RoleSender]
    by (simp add: abs policy_allows_def simple_allows_def)
qed

text \<open>Claim C4: every call acts on the policies as specified, and only for the admin. From T2
  on, a successful call changes the set of policies exactly as its specification \<open>policy_call\<close>:
  creation adds a policy under the next id and leaves all others alone, membership and admin
  changes touch one policy whose admin is the caller and whose type fits, compound policies refer
  to existing simple policies only, and receive policies change no policy.\<close>

theorem tip403_calls_refine_policies:
  assumes "tip403_step\<^sup>*\<^sup>* tip403_init r" and "is_t2 (spec e)" and "m \<noteq> 0"
    and "tip403_exec m c e r = Inr (u, r', l)"
  shows "policy_call m c (policy_id_counter r) (policy_abs r) = Some (policy_abs r')"
  using tip403_exec_refines[OF assms(4,3) tip403_machine.steps_inv[OF assms(1) tip403_init_inv] assms(2)] .

theorem tip403_calls_refine_policies_witness:
  "policy_call 11 (CreatePolicyWithAccounts 11 WHITELIST [21, 22]) 2 (policy_abs tip403_init) = Some (policy_abs whitelist_demo)"
proof -
  from whitelist_demo_created obtain l where
    "tip403_exec 11 (CreatePolicyWithAccounts 11 WHITELIST [21, 22]) (demo_env T8 0) tip403_init = Inr ((), whitelist_demo, l)"
    by (auto simp: run_simps)
  from tip403_calls_refine_policies[OF rtranclp.rtrancl_refl _ _ this] show ?thesis
    by (simp add: fork_eval counter_init)
qed

text \<open>Claim C6: policies are permanent and cached types stay right. Along any run, an existing
  policy keeps existing with the same type and, if compound, the same sub-policies; therefore
  checking a receive policy with the types cached when it was set gives, on every reachable
  registry, the same result as reading them from the policies, and it never fails.\<close>

theorem receive_policy_cache_coherent:
  assumes "tip403_step\<^sup>*\<^sup>* tip403_init r" and "tip403_step\<^sup>*\<^sup>* r r'"
  shows "policy_extends r r' \<and>
    check_receive_policy token sender receiver e r' = check_receive_policy_uncached token sender receiver e r' \<and>
    (\<exists>b. check_receive_policy token sender receiver e r' = Inr b)"
proof -
  have "tip403_inv r" using tip403_machine.steps_inv[OF assms(1) tip403_init_inv] .
  then have "tip403_inv r' \<and> policy_extends r r'"
    using tip403_history.steps_inv[OF assms(2), of r] by simp
  then show ?thesis using check_receive_policy_cached check_receive_policy_total by blast
qed

theorem receive_policy_cache_coherent_witness:
  "policy_extends tip403_init whitelist_demo \<and>
   (\<exists>b. check_receive_policy 40 21 50 (demo_env T8 0) whitelist_demo = Inr b)"
  using receive_policy_cache_coherent[OF rtranclp.rtrancl_refl whitelist_demo_reachable] by blast

end
