(* ===== verification/Enumerable_Set.thy ===== *)
theory Enumerable_Set
  imports Tempo_Types
begin

text \<open>
  The enumerable set of contract storage (\<open>precompiles/src/storage/types/set.rs\<close>) over the
  storage vector (\<open>vec.rs\<close>): a length slot, raw element slots that are read and written
  without bounds checks, and a map from element to its 1-based position, with 0 for absent.
  Removal swaps the last element into the gap. \<open>set_inv\<close> ties the three together, and the
  operations refine those of a mathematical set.
\<close>

section \<open>Storage vectors\<close>

record 'a vec_storage =
  len_slot :: u256
  elem_slot :: "nat \<Rightarrow> 'a"

definition load_checked_len :: "'a vec_storage \<Rightarrow> tempo_error + nat" where
  "load_checked_len v = (if len_slot v > 0xFFFFFFFF then Inl under_overflow else Inr (unat (len_slot v)))"

definition vec_push :: "nat \<Rightarrow> 'a \<Rightarrow> ('a vec_storage, unit) op" where
  "vec_push max_index value =
     bind (query (\<lambda>_. load_checked_len)) (\<lambda>length.
     bind (ensure (\<not> length \<ge> max_index) (Fatal ''Vec is at max capacity'')) (\<lambda>_.
     bind (modify (\<lambda>v. v\<lparr>elem_slot := (elem_slot v)(length := value)\<rparr>)) (\<lambda>_.
     modify (\<lambda>v. v\<lparr>len_slot := of_nat (length + 1)\<rparr>))))"

definition vec_pop :: "('a::zero vec_storage, 'a option) op" where
  "vec_pop =
     bind (query (\<lambda>_. load_checked_len)) (\<lambda>length.
     if length = 0 then ret None
     else
       bind (gets (\<lambda>v. elem_slot v (length - 1))) (\<lambda>element.
       bind (modify (\<lambda>v. v\<lparr>elem_slot := (elem_slot v)(length - 1 := 0)\<rparr>)) (\<lambda>_.
       bind (modify (\<lambda>v. v\<lparr>len_slot := of_nat (length - 1)\<rparr>)) (\<lambda>_.
       ret (Some element)))))"

definition vec_delete :: "('a::zero vec_storage, unit) op" where
  "vec_delete =
     bind (query (\<lambda>_. load_checked_len)) (\<lambda>length.
     bind (modify (\<lambda>v. v\<lparr>len_slot := 0\<rparr>)) (\<lambda>_.
     foreach [0..<length] (\<lambda>i. modify (\<lambda>v. v\<lparr>elem_slot := (elem_slot v)(i := 0)\<rparr>))))"

section \<open>Sets\<close>

record 'a set_storage =
  vals :: "'a vec_storage"
  positions :: "'a \<Rightarrow> u32"

definition put_vals :: "'a vec_storage \<Rightarrow> 'a set_storage \<Rightarrow> 'a set_storage" where
  "put_vals v s = s\<lparr>vals := v\<rparr>"

interpretation vals_lens: lens vals put_vals
  by standard (simp_all add: put_vals_def)

definition set_from_vec :: "'a list \<Rightarrow> 'a list" where
  "set_from_vec vec =
     snd (fold (\<lambda>item (seen, deduped).
       if item \<in> seen then (seen, deduped) else (insert item seen, deduped @ [item])) vec ({}, []))"

definition checked_position :: "nat \<Rightarrow> u32 option" where
  "checked_position index = (if index < 2 ^ 32 then checked_add (of_nat index) 1 else None)"

definition set_len :: "'a set_storage \<Rightarrow> tempo_error + nat" where
  "set_len s = load_checked_len (vals s)"

definition set_is_empty :: "'a set_storage \<Rightarrow> tempo_error + bool" where
  "set_is_empty s = rbind (set_len s) (\<lambda>n. Inr (n = 0))"

definition set_contains :: "'a \<Rightarrow> 'a set_storage \<Rightarrow> bool" where
  "set_contains value s = (positions s value \<noteq> 0)"

definition set_insert :: "nat \<Rightarrow> 'a \<Rightarrow> ('a set_storage, bool) op" where
  "set_insert max_index value =
     bind (gets (set_contains value)) (\<lambda>present.
     if present then ret False
     else
       bind (query (\<lambda>_. set_len)) (\<lambda>length.
       bind (ok_or (checked_position length) under_overflow) (\<lambda>position.
       bind (modify (\<lambda>s. s\<lparr>positions := (positions s)(value := position)\<rparr>)) (\<lambda>_.
       bind (zoom vals put_vals (vec_push max_index value)) (\<lambda>_.
       ret True)))))"

definition set_value :: "nat \<Rightarrow> 'a \<Rightarrow> 'a set_storage \<Rightarrow> 'a set_storage" where
  "set_value i x s = s\<lparr>vals := (vals s)\<lparr>elem_slot := (elem_slot (vals s))(i := x)\<rparr>\<rparr>"

definition set_remove :: "'a::zero \<Rightarrow> ('a set_storage, bool) op" where
  "set_remove value =
     bind (gets (\<lambda>s. positions s value)) (\<lambda>position.
     if position = 0 then ret False
     else
       bind (query (\<lambda>_. set_len)) (\<lambda>len.
       let last_index = len - 1; index = unat (position - 1) in
       bind (whenM (index \<noteq> last_index)
         (bind (gets (\<lambda>s. elem_slot (vals s) last_index)) (\<lambda>last_value.
          bind (modify (\<lambda>s. s\<lparr>positions := (positions s)(last_value := position)\<rparr>)) (\<lambda>_.
          modify (set_value index last_value))))) (\<lambda>_.
       bind (modify (set_value last_index 0)) (\<lambda>_.
       bind (modify (\<lambda>s. s\<lparr>vals := (vals s)\<lparr>len_slot := of_nat last_index\<rparr>\<rparr>)) (\<lambda>_.
       bind (modify (\<lambda>s. s\<lparr>positions := (positions s)(value := 0)\<rparr>)) (\<lambda>_.
       ret True))))))"

definition set_at :: "nat \<Rightarrow> 'a set_storage \<Rightarrow> tempo_error + 'a option" where
  "set_at index s =
     rbind (set_len s) (\<lambda>n. Inr (if index \<ge> n then None else Some (elem_slot (vals s) index)))"

definition set_read_range :: "nat \<Rightarrow> nat \<Rightarrow> 'a set_storage \<Rightarrow> tempo_error + 'a list" where
  "set_read_range start stop s =
     rbind (set_len s) (\<lambda>len.
       let stop' = min stop len; start' = min start stop' in
       Inr (map (elem_slot (vals s)) [start'..<stop']))"

definition set_read :: "'a set_storage \<Rightarrow> tempo_error + 'a list" where
  "set_read s = rbind (set_len s) (\<lambda>len. Inr (map (elem_slot (vals s)) [0..<len]))"

definition set_clear_position :: "nat \<Rightarrow> ('a set_storage, unit) op" where
  "set_clear_position i = modify (\<lambda>s. s\<lparr>positions := (positions s)(elem_slot (vals s) i := 0)\<rparr>)"

definition set_write :: "'a::zero list \<Rightarrow> ('a set_storage, unit) op" where
  "set_write new =
     bind (query (\<lambda>_. set_len)) (\<lambda>old_len.
     let new_len = length new in
     bind (foreach [0..<old_len] set_clear_position) (\<lambda>_.
     bind (foreach (enumerate 0 new) (\<lambda>(index, new_value).
       bind (ok_or (checked_position index) under_overflow) (\<lambda>position.
       bind (modify (\<lambda>s. s\<lparr>positions := (positions s)(new_value := position)\<rparr>)) (\<lambda>_.
       modify (set_value index new_value))))) (\<lambda>_.
     bind (modify (\<lambda>s. s\<lparr>vals := (vals s)\<lparr>len_slot := of_nat new_len\<rparr>\<rparr>)) (\<lambda>_.
     foreach [new_len..<old_len] (\<lambda>i. modify (set_value i 0))))))"

definition set_delete :: "('a::zero set_storage, unit) op" where
  "set_delete =
     bind (query (\<lambda>_. set_len)) (\<lambda>len.
     bind (foreach [0..<len] set_clear_position) (\<lambda>_.
     zoom vals put_vals vec_delete))"

section \<open>The representation of a list of distinct elements\<close>

definition list_position :: "'a list \<Rightarrow> 'a \<Rightarrow> nat" where
  "list_position xs v = (if v \<in> set xs then Suc (length (takeWhile (\<lambda>x. x \<noteq> v) xs)) else 0)"

definition storage_of :: "'a::zero list \<Rightarrow> 'a set_storage" where
  "storage_of xs =
     \<lparr>vals = \<lparr>len_slot = of_nat (length xs), elem_slot = (\<lambda>i. if i < length xs then xs ! i else 0)\<rparr>,
      positions = (\<lambda>v. of_nat (list_position xs v))\<rparr>"

text \<open>
  Well-formed storage, for elements whose vectors hold at most \<open>m\<close> entries: the slots are
  exactly those of some list of distinct elements.
\<close>

definition set_inv :: "nat \<Rightarrow> 'a::zero set_storage \<Rightarrow> bool" where
  "set_inv m s \<longleftrightarrow> m < 2 ^ 32 \<and> (\<exists>xs. distinct xs \<and> length xs \<le> m \<and> s = storage_of xs)"

definition set_abs :: "'a set_storage \<Rightarrow> 'a set" where
  "set_abs s = {v. set_contains v s}"

lemma list_position_nth: "distinct xs \<Longrightarrow> i < length xs \<Longrightarrow> list_position xs (xs ! i) = Suc i"
proof -
  assume d: "distinct xs" and i: "i < length xs"
  have "takeWhile (\<lambda>x. x \<noteq> xs ! i) xs = take i xs"
  proof (rule takeWhile_eq_take_P_nth)
    fix j assume "j < i" "j < length xs"
    then show "xs ! j \<noteq> xs ! i" using d i by (simp add: nth_eq_iff_index_eq)
  qed simp
  with i show ?thesis by (simp add: list_position_def)
qed

lemma list_position_absent [simp]: "v \<notin> set xs \<Longrightarrow> list_position xs v = 0"
  by (simp add: list_position_def)

lemma list_position_le: "list_position xs v \<le> length xs"
  by (auto simp: list_position_def takeWhile_append dest!: split_list_first)

lemma list_position_0: "list_position xs v = 0 \<longleftrightarrow> v \<notin> set xs"
  by (simp add: list_position_def)

lemma list_position_snoc:
  "v \<notin> set xs \<Longrightarrow> list_position (xs @ [v]) = (list_position xs)(v := Suc (length xs))"
proof -
  assume "v \<notin> set xs"
  then have "takeWhile (\<lambda>x. x \<noteq> v) xs = xs" by (auto simp: takeWhile_eq_all_conv)
  with \<open>v \<notin> set xs\<close> show ?thesis
    by (intro ext) (auto simp: list_position_def takeWhile_append)
qed

lemma unat_of_nat_256: "n < 2 ^ 32 \<Longrightarrow> unat (of_nat n :: u256) = n"
  by (rule unat_of_nat_small) simp

lemma unat_of_nat_32: "n < 2 ^ 32 \<Longrightarrow> unat (of_nat n :: u32) = n"
  by (rule unat_of_nat_small) simp

lemma word32_of_nat_0: "n < 2 ^ 32 \<Longrightarrow> (of_nat n :: u32) = 0 \<longleftrightarrow> n = 0"
  using unat_of_nat_32[of n] by (metis unat_eq_zero)

lemma storage_of_contains:
  "length xs < 2 ^ 32 \<Longrightarrow> set_contains v (storage_of xs) \<longleftrightarrow> v \<in> set xs"
  using list_position_le[of xs v]
  by (simp add: set_contains_def storage_of_def word32_of_nat_0 list_position_0)

lemma storage_of_len: "length xs < 2 ^ 32 \<Longrightarrow> set_len (storage_of xs) = Inr (length xs)"
  by (simp add: set_len_def load_checked_len_def storage_of_def unat_of_nat_256 word_less_nat_alt)

lemma storage_of_elem: "i < length xs \<Longrightarrow> elem_slot (vals (storage_of xs)) i = xs ! i"
  by (simp add: storage_of_def)

lemma checked_position_eq: "i + 1 < 2 ^ 32 \<Longrightarrow> checked_position i = Some (of_nat (Suc i))"
  using unat_of_nat_32[of i] unat_of_nat_32[of "Suc i"]
  by (simp add: checked_position_def checked_add_Some del: of_nat_Suc)

lemma load_len_storage_of:
  "length xs < 2 ^ 32 \<Longrightarrow> load_checked_len (vals (storage_of xs)) = Inr (length xs)"
  using storage_of_len[of xs] by (simp add: set_len_def)

lemma put_vals_storage_snoc:
  assumes "v \<notin> set xs"
  shows "(storage_of xs)\<lparr>positions := (positions (storage_of xs))(v := of_nat (Suc (length xs))),
      vals := (vals (storage_of xs))\<lparr>elem_slot := (elem_slot (vals (storage_of xs)))(length xs := v),
        len_slot := of_nat (length xs + 1)\<rparr>\<rparr> = storage_of (xs @ [v])"
  using assms
  by (auto simp: storage_of_def list_position_snoc nth_append less_Suc_eq fun_eq_iff)

lemma set_insert_storage_of:
  assumes "length xs < m" "m < 2 ^ 32"
  shows "set_insert m v e (storage_of xs) =
    (if v \<in> set xs then Inr (False, storage_of xs, []) else Inr (True, storage_of (xs @ [v]), []))"
proof -
  have len: "length xs < 2 ^ 32" "length xs + 1 < 2 ^ 32" using assms by auto
  have push: "zoom vals put_vals (vec_push m v) e (s :: 'a set_storage) =
     Inr ((), s\<lparr>vals := (vals s)\<lparr>elem_slot := (elem_slot (vals s))(length xs := v),
        len_slot := of_nat (length xs + 1)\<rparr>\<rparr>, [])" if "vals s = vals (storage_of xs)" for s
    using assms load_len_storage_of[OF len(1)] that
    by (simp add: zoom_def vec_push_def exec_simps put_vals_def)
  show ?thesis
    unfolding set_insert_def
    using put_vals_storage_snoc[of v xs]
    by (simp add: exec_simps storage_of_contains[OF len(1)] storage_of_len[OF len(1)]
        checked_position_eq[OF len(2)] push del: of_nat_Suc)
qed


definition swap_remove :: "'a list \<Rightarrow> nat \<Rightarrow> 'a list" where
  "swap_remove xs i = butlast (xs[i := last xs])"

lemma swap_remove_props:
  assumes "distinct xs" "i < length xs"
  shows "length (swap_remove xs i) = length xs - 1"
    and "distinct (swap_remove xs i)"
    and "set (swap_remove xs i) = set xs - {xs ! i}"
    and "j < length xs - 1 \<Longrightarrow> swap_remove xs i ! j = (if j = i then last xs else xs ! j)"
proof -
  obtain ys z where xs: "xs = ys @ [z]" using assms(2) by (cases xs rule: rev_cases) auto
  have eq: "swap_remove xs i = (if i < length ys then ys[i := z] else ys)"
    using assms(2) by (auto simp: swap_remove_def xs list_update_append butlast_append)
  show "length (swap_remove xs i) = length xs - 1" unfolding eq by (simp add: xs)
  show "distinct (swap_remove xs i)" unfolding eq using assms by (auto simp: xs distinct_list_update)
  show "set (swap_remove xs i) = set xs - {xs ! i}"
    unfolding eq using assms by (auto simp: xs set_update_distinct nth_append)
  show "j < length xs - 1 \<Longrightarrow> swap_remove xs i ! j = (if j = i then last xs else xs ! j)"
    unfolding eq using assms(2) by (auto simp: xs nth_append)
qed

lemma list_position_swap_remove:
  assumes d: "distinct xs" and i: "i < length xs"
  shows "list_position (swap_remove xs i) w =
    (if w = xs ! i then 0 else if w = last xs then Suc i else list_position xs w)"
proof -
  note sr = swap_remove_props[OF assms]
  have last: "last xs = xs ! (length xs - 1)" using i by (subst last_conv_nth) auto
  consider (gone) "w \<notin> set xs \<or> w = xs ! i" | (last) "w = last xs" "w \<noteq> xs ! i"
    | (other) j where "j < length xs" "w = xs ! j" "w \<noteq> xs ! i" "w \<noteq> last xs"
    by (metis in_set_conv_nth)
  then show ?thesis
  proof cases
    case gone
    have "last xs \<in> set xs" using i by (intro last_in_set) auto
    with gone show ?thesis by (auto simp: list_position_def sr(3))
  next
    case last
    then have "i \<noteq> length xs - 1" using \<open>last xs = _\<close> by auto
    then have "i < length xs - 1" using i by simp
    then have "swap_remove xs i ! i = w" using sr(4)[of i] last by simp
    with last \<open>i < length xs - 1\<close> list_position_nth[OF sr(2), of i] sr(1) show ?thesis by simp
  next
    case other
    then have "j \<noteq> length xs - 1" "j \<noteq> i" using last by auto
    then have "j < length xs - 1" using other(1) by simp
    then have "swap_remove xs i ! j = w" using sr(4)[of j] \<open>j \<noteq> i\<close> other(2) by simp
    with other \<open>j < length xs - 1\<close> list_position_nth[OF sr(2), of j] list_position_nth[OF d, of j] sr(1)
    show ?thesis by simp
  qed
qed

lemma set_remove_storage_of:
  assumes d: "distinct xs" and i: "i < length xs" and len: "length xs < 2 ^ 32"
  shows "set_remove (xs ! i) e (storage_of xs) = Inr (True, storage_of (swap_remove xs i), [])"
proof -
  note sr = swap_remove_props[OF d i] and lp = list_position_swap_remove[OF d i]
  have last: "last xs = xs ! (length xs - 1)" using i by (subst last_conv_nth) auto
  have pos: "positions (storage_of xs) (xs ! i) = of_nat (Suc i)"
    using d i by (simp add: storage_of_def list_position_nth)
  have nz: "(of_nat (Suc i) :: u32) \<noteq> 0" using i len by (subst word32_of_nat_0) auto
  have idx: "unat (of_nat (Suc i) - 1 :: u32) = i" using i len unat_of_nat_32[of i] by simp
  have final: "storage_of (swap_remove xs i) =
      (let s1 = (if i \<noteq> length xs - 1
                 then set_value i (last xs) ((storage_of xs)\<lparr>positions := (positions (storage_of xs))(last xs := of_nat (Suc i))\<rparr>)
                 else storage_of xs);
           s2 = set_value (length xs - 1) 0 s1;
           s3 = s2\<lparr>vals := (vals s2)\<lparr>len_slot := of_nat (length xs - 1)\<rparr>\<rparr>
       in s3\<lparr>positions := (positions s3)(xs ! i := 0)\<rparr>)"
    using i last list_position_nth[OF d i]
    by (auto simp: storage_of_def set_value_def swap_remove_props[OF d] lp fun_eq_iff Let_def)
  show ?thesis
    unfolding set_remove_def
    by (simp add: exec_simps pos nz idx storage_of_len[OF len] Let_def final storage_of_elem last
        del: of_nat_Suc) (use i in \<open>simp add: storage_of_elem last del: of_nat_Suc\<close>)
qed

lemma set_remove_absent:
  assumes "v \<notin> set xs"
  shows "set_remove v e (storage_of xs) = Inr (False, storage_of xs, [])"
  using assms by (simp add: set_remove_def exec_simps storage_of_def)


lemma set_clear_positions:
  "foreach [0..<n] set_clear_position e s =
     Inr ((), s\<lparr>positions := (\<lambda>v. if v \<in> elem_slot (vals s) ` {..<n} then 0 else positions s v)\<rparr>, [])"
proof (induction n)
  case (Suc n)
  then show ?case
    by (auto simp: foreach_append bind_andthen set_clear_position_def lessThan_Suc fun_eq_iff
        intro!: arg_cong[where f = "\<lambda>p. s\<lparr>positions := p\<rparr>"])
qed simp

lemma storage_of_all_cleared:
  assumes "length xs < 2 ^ 32"
  shows "foreach [0..<length xs] set_clear_position e (storage_of xs) =
     Inr ((), (storage_of xs)\<lparr>positions := (\<lambda>_. 0)\<rparr>, [])"
proof -
  have "elem_slot (vals (storage_of xs)) ` {..<length xs} = set xs"
    by (auto simp: storage_of_def in_set_conv_nth)
  then show ?thesis
    unfolding set_clear_positions by (auto simp: storage_of_def fun_eq_iff)
qed

lemma set_write_loop:
  assumes "distinct new" "length new < 2 ^ 32" "positions s = (\<lambda>_. 0)"
  shows "foreach (enumerate 0 new) (\<lambda>(index, new_value).
       bind (ok_or (checked_position index) under_overflow) (\<lambda>position.
       bind (modify (\<lambda>s. s\<lparr>positions := (positions s)(new_value := position)\<rparr>)) (\<lambda>_.
       modify (set_value index new_value)))) e s =
     Inr ((), s\<lparr>positions := (\<lambda>v. of_nat (list_position new v)),
       vals := (vals s)\<lparr>elem_slot := (\<lambda>i. if i < length new then new ! i else elem_slot (vals s) i)\<rparr>\<rparr>, [])"
  using assms(1,2)
proof (induction new rule: rev_induct)
  case Nil
  then show ?case using assms(3) by simp
next
  case (snoc x xs)
  then have "checked_position (length xs) = Some (of_nat (Suc (length xs)))"
    by (intro checked_position_eq) simp
  with snoc show ?case
    by (auto simp: foreach_append enumerate_append_eq bind_andthen list_position_snoc set_value_def
        nth_append less_Suc_eq fun_eq_iff simp del: of_nat_Suc)
qed

lemma fold_clear_values:
  "fold (\<lambda>i. set_value i 0) [a..<b] s =
     s\<lparr>vals := (vals s)\<lparr>elem_slot := (\<lambda>i. if a \<le> i \<and> i < b then 0 else elem_slot (vals s) i)\<rparr>\<rparr>"
proof (induction b)
  case (Suc b)
  show ?case
  proof (cases "a \<le> b")
    case True
    with Suc show ?thesis by (auto simp: set_value_def fun_eq_iff less_Suc_eq)
  next
    case False
    then have "(\<lambda>i. if a \<le> i \<and> i < Suc b then 0 else elem_slot (vals s) i) = elem_slot (vals s)"
      by (intro ext) auto
    then show ?thesis using False by simp
  qed
qed simp

lemma set_write_storage_of:
  assumes "distinct new" "length new < 2 ^ 32" "length xs < 2 ^ 32"
  shows "set_write new e (storage_of xs) = Inr ((), storage_of new, [])"
proof -
  have "positions ((storage_of xs)\<lparr>positions := (\<lambda>_. 0)\<rparr>) = (\<lambda>_. 0)" by simp
  note loop = set_write_loop[OF assms(1,2) this]
  show ?thesis
    unfolding set_write_def
    by (simp add: exec_simps storage_of_len[OF assms(3)] storage_of_all_cleared[OF assms(3)] loop
        Let_def fold_clear_values)
      (auto simp: storage_of_def fun_eq_iff)
qed

lemma vec_delete_loop:
  "fold (\<lambda>i v. v\<lparr>elem_slot := (elem_slot v)(i := 0)\<rparr>) [0..<n] v =
     v\<lparr>elem_slot := (\<lambda>i. if i < n then 0 else elem_slot v i)\<rparr>"
  by (induction n) (auto simp: fun_eq_iff less_Suc_eq)

lemma set_delete_storage_of:
  assumes "length xs < 2 ^ 32"
  shows "set_delete e (storage_of xs) = Inr ((), storage_of [], [])"
proof -
  have "zoom vals put_vals vec_delete e ((storage_of xs)\<lparr>positions := (\<lambda>_. 0)\<rparr>) = Inr ((), storage_of [], [])"
    using load_len_storage_of[OF assms]
    by (simp add: zoom_def vec_delete_def exec_simps vec_delete_loop put_vals_def)
      (auto simp: storage_of_def fun_eq_iff)
  then show ?thesis
    unfolding set_delete_def
    by (simp add: exec_simps storage_of_len[OF assms] storage_of_all_cleared[OF assms])
qed

lemma set_from_vec_props:
  "distinct (set_from_vec xs) \<and> set (set_from_vec xs) = set xs"
proof -
  let ?f = "\<lambda>item (seen, deduped).
       if item \<in> seen then (seen, deduped) else (insert item seen, deduped @ [item])"
  have dist: "distinct ds \<Longrightarrow> fold ?f xs (set ds, ds) = (set ds', ds') \<Longrightarrow>
      distinct ds' \<and> set ds' = set ds \<union> set xs" for ds ds'
  proof (induction xs arbitrary: ds)
    case (Cons x xs)
    show ?case
    proof (cases "x \<in> set ds")
      case True
      then show ?thesis using Cons.IH[of ds] Cons.prems by auto
    next
      case False
      then show ?thesis using Cons.IH[of "ds @ [x]"] Cons.prems by (auto simp: insert_commute)
    qed
  qed simp
  have ex: "\<exists>ds'. fold ?f xs (set ds, ds) = (set ds', ds')" for ds
  proof (induction xs arbitrary: ds)
    case (Cons x xs)
    show ?case
      using Cons.IH[of ds] Cons.IH[of "ds @ [x]"] by (auto simp: insert_commute)
  qed auto
  from ex[of "[]"] obtain ds' where run: "fold ?f xs (set [], []) = (set ds', ds')" by blast
  from dist[OF _ this] have "distinct ds' \<and> set ds' = set xs" by simp
  moreover from run have "set_from_vec xs = ds'" by (simp add: set_from_vec_def)
  ultimately show ?thesis by simp
qed


lemma set_insert_full:
  assumes "length xs = m" "m < 2 ^ 32" "v \<notin> set xs"
  shows "\<exists>err. set_insert m v e (storage_of xs) = Inl err"
proof -
  have len: "length xs < 2 ^ 32" using assms by simp
  have push: "zoom vals put_vals (vec_push m v) e s = Inl (Fatal ''Vec is at max capacity'')"
    if "vals s = vals (storage_of xs)" for s :: "'a set_storage"
    using load_len_storage_of[OF len] that assms(1) by (simp add: zoom_def vec_push_def exec_simps)
  show ?thesis
    unfolding set_insert_def using assms(3)
    by (cases "checked_position (length xs)")
      (simp_all add: exec_simps storage_of_contains[OF len] storage_of_len[OF len] push)
qed

section \<open>The contract of a stored set\<close>

text \<open>
  What clients of a stored set rely on: every operation keeps the storage well-formed and
  acts on the abstract set; only an insertion can fail (at capacity).
\<close>

locale set_contract =
  fixes inv :: "'s \<Rightarrow> bool" and abs :: "'s \<Rightarrow> 'a set"
    and mem :: "'a \<Rightarrow> 's \<Rightarrow> bool" and rd :: "'s \<Rightarrow> tempo_error + 'a list"
    and ins :: "'a \<Rightarrow> ('s, bool) op" and rem :: "'a \<Rightarrow> ('s, bool) op" and clear :: "('s, unit) op"
  assumes mem_abs: "inv s \<Longrightarrow> mem v s \<longleftrightarrow> v \<in> abs s"
    and rd_abs: "inv s \<Longrightarrow> \<exists>xs. rd s = Inr xs \<and> distinct xs \<and> set xs = abs s"
    and ins_abs: "inv s \<Longrightarrow> ins v e s = Inr (b, s', l) \<Longrightarrow>
      inv s' \<and> abs s' = insert v (abs s) \<and> b = (v \<notin> abs s) \<and> l = []"
    and rem_abs: "inv s \<Longrightarrow>
      \<exists>s'. rem v e s = Inr (v \<in> abs s, s', []) \<and> inv s' \<and> abs s' = abs s - {v}"
    and clear_abs: "inv s \<Longrightarrow> \<exists>s'. clear e s = Inr ((), s', []) \<and> inv s' \<and> abs s' = {}"
begin

lemma ins_all:
  assumes "inv s" "foreach xs (\<lambda>x. bind (ins x) (\<lambda>_. ret ())) e s = Inr (u, s', l)"
  shows "inv s' \<and> abs s' = abs s \<union> set xs"
  using assms unfolding ret_def
proof (induction xs arbitrary: s l)
  case (Cons x xs)
  from Cons.prems(2) obtain b s1 l1 l2 where
    "ins x e s = Inr (b, s1, l1)"
    "foreach xs (\<lambda>x. bind (ins x) (\<lambda>_ r s. Inr ((), s, []))) e s1 = Inr (u, s', l2)"
    by (auto simp: run_simps)
  with Cons.IH ins_abs[OF Cons.prems(1)] show ?case by fastforce
qed simp

lemma rem_absent_unchanged: "inv s \<Longrightarrow> v \<notin> abs s \<Longrightarrow> \<exists>s'. rem v e s = Inr (False, s', []) \<and> abs s' = abs s"
  using rem_abs[of s v e] by auto

lemma ins_rem:
  assumes "inv s" "ins v e s = Inr (b, s', l)" "v \<notin> abs s"
  shows "\<exists>s''. rem v e' s' = Inr (True, s'', []) \<and> abs s'' = abs s"
  using ins_abs[OF assms(1,2)] rem_abs[of s' v e'] assms(3) by fastforce

end

lemma set_abs_storage_of: "length xs < 2 ^ 32 \<Longrightarrow> set_abs (storage_of xs) = set xs"
  by (auto simp: set_abs_def storage_of_contains)

lemma set_read_storage_of: "length xs < 2 ^ 32 \<Longrightarrow> set_read (storage_of xs) = Inr xs"
  by (auto simp: set_read_def storage_of_len storage_of_elem intro: nth_equalityI)

lemma set_invE:
  assumes "set_inv m s"
  obtains xs where "distinct xs" "length xs \<le> m" "m < 2 ^ 32" "length xs < 2 ^ 32" "s = storage_of xs"
    "set_abs s = set xs"
  using assms set_abs_storage_of unfolding set_inv_def by (metis order.strict_trans1)

lemma set_invI: "distinct xs \<Longrightarrow> length xs \<le> m \<Longrightarrow> m < 2 ^ 32 \<Longrightarrow> set_inv m (storage_of xs)"
  unfolding set_inv_def by blast

interpretation stored_set: set_contract "set_inv m" set_abs set_contains set_read "set_insert m" set_remove set_delete
  for m
proof
  fix s :: "'a set_storage" and v e
  assume inv: "set_inv m s"
  then obtain xs where xs: "distinct xs" "length xs \<le> m" "m < 2 ^ 32" "length xs < 2 ^ 32"
    "s = storage_of xs" "set_abs s = set xs" by (rule set_invE)
  show "set_contains v s \<longleftrightarrow> v \<in> set_abs s" by (simp add: set_abs_def)
  show "\<exists>ys. set_read s = Inr ys \<and> distinct ys \<and> set ys = set_abs s"
    using xs set_read_storage_of[OF xs(4)] by auto
  show "\<exists>s'. set_delete e s = Inr ((), s', []) \<and> set_inv m s' \<and> set_abs s' = {}"
    using set_delete_storage_of[OF xs(4), of e] xs set_invI[of "[]" m] set_abs_storage_of[of "[]"] by auto
  show "\<exists>s'. set_remove v e s = Inr (v \<in> set_abs s, s', []) \<and> set_inv m s' \<and> set_abs s' = set_abs s - {v}"
  proof (cases "v \<in> set xs")
    case True
    then obtain i where i: "i < length xs" "v = xs ! i" by (auto simp: in_set_conv_nth)
    note sr = swap_remove_props[OF xs(1) i(1)]
    have "set_inv m (storage_of (swap_remove xs i))" using sr xs by (intro set_invI) auto
    moreover have "set_abs (storage_of (swap_remove xs i)) = set xs - {v}"
      using sr xs i by (subst set_abs_storage_of) auto
    ultimately show ?thesis using set_remove_storage_of[OF xs(1) i(1) xs(4)] xs True i by auto
  next
    case False
    then show ?thesis using set_remove_absent[OF False] xs inv by auto
  qed
  fix b s' l
  assume "set_insert m v e s = Inr (b, s', l)"
  then show "set_inv m s' \<and> set_abs s' = insert v (set_abs s) \<and> b = (v \<notin> set_abs s) \<and> l = []"
  proof (cases "length xs < m")
    case True
    then show ?thesis
      using \<open>set_insert m v e s = _\<close> set_insert_storage_of[OF True xs(3), of v e] xs
        set_abs_storage_of[of "xs @ [v]"] set_invI[of "xs @ [v]" m] inv
      by (auto split: if_splits)
  next
    case False
    then have "v \<in> set xs" "length xs = m"
      using set_insert_full[of xs m v e] xs \<open>set_insert m v e s = _\<close> by force+
    then show ?thesis
      using \<open>set_insert m v e s = _\<close> xs inv
      by (auto simp: set_insert_def exec_simps storage_of_contains)
  qed
qed

section \<open>Properties\<close>

text \<open>Claim C8: a stored set refines a mathematical set. From well-formed storage, \<open>insert\<close>
  and \<open>remove\<close> keep it well-formed, report whether they changed the set, and act as
  insertion and deletion on the abstract set; reading lists each element once; an insertion
  fails only for a new element of a set that is at capacity, and a removal never fails.\<close>

theorem stored_set_refines_set:
  assumes "set_inv m s"
  shows "(case set_insert m v e s of
            Inl _ \<Rightarrow> v \<notin> set_abs s \<and> card (set_abs s) = m
          | Inr (added, s', _) \<Rightarrow>
              set_inv m s' \<and> added = (v \<notin> set_abs s) \<and> set_abs s' = insert v (set_abs s)) \<and>
    (\<exists>s'. set_remove v e s = Inr (v \<in> set_abs s, s', []) \<and> set_inv m s' \<and> set_abs s' = set_abs s - {v}) \<and>
    (\<exists>xs. set_read s = Inr xs \<and> distinct xs \<and> set xs = set_abs s \<and> set_len s = Inr (card (set_abs s)))"
proof -
  obtain xs where xs: "distinct xs" "length xs \<le> m" "m < 2 ^ 32" "length xs < 2 ^ 32"
    "s = storage_of xs" "set_abs s = set xs" using assms by (rule set_invE)
  have "length xs = m \<and> v \<notin> set xs" if "set_insert m v e s = Inl err" for err
  proof -
    have "\<not> length xs < m"
    proof
      assume "length xs < m"
      from set_insert_storage_of[OF this xs(3), of v e] that xs(5) show False by (simp split: if_splits)
    qed
    moreover have "v \<notin> set xs" if "v \<in> set xs"
      using \<open>set_insert m v e s = Inl err\<close> that xs
      by (simp add: set_insert_def exec_simps storage_of_contains)
    ultimately show ?thesis using xs(2) by auto
  qed
  then show ?thesis
    using stored_set.ins_abs[OF assms] stored_set.rem_abs[OF assms, of v e] xs
      set_read_storage_of[OF xs(4)] storage_of_len[OF xs(4)]
    by (auto simp: distinct_card split: sum.splits)
qed

theorem stored_set_refines_set_witness:
  "set_abs (storage_of [3, 5 :: address]) = {3, 5} \<and>
   (\<exists>s'. set_remove (3 :: address) (demo_env T8 0) (storage_of [3, 5]) = Inr (True, s', []) \<and> set_abs s' = {5})"
proof -
  have inv: "set_inv 10 (storage_of [3, 5 :: address])" by (intro set_invI) auto
  have abs: "set_abs (storage_of [3, 5 :: address]) = {3, 5}" by (simp add: set_abs_storage_of)
  have "{3, 5} - {3} = {5 :: address}" by auto
  then show ?thesis
    using stored_set_refines_set[OF inv, of 3 "demo_env T8 0"] unfolding abs by auto
qed

text \<open>Claim C9: bulk replacement round trip. Writing the deduplication of a vector over
  any well-formed set always succeeds, clears the old elements, and reading back returns the
  deduplicated vector in order; deleting leaves the empty set with every slot cleared.\<close>

theorem set_write_read_roundtrip:
  assumes "set_inv m s" and "length (set_from_vec xs) \<le> m"
  shows "\<exists>s'. set_write (set_from_vec xs) e s = Inr ((), s', []) \<and> set_inv m s' \<and>
      set_read s' = Inr (set_from_vec xs) \<and> set_abs s' = set xs \<and>
      set_delete e s' = Inr ((), \<lparr>vals = \<lparr>len_slot = 0, elem_slot = (\<lambda>_. 0)\<rparr>, positions = (\<lambda>_. 0)\<rparr>, [])"
proof -
  obtain ys where ys: "m < 2 ^ 32" "length ys < 2 ^ 32" "s = storage_of ys"
    using assms(1) by (elim set_invE)
  let ?new = "set_from_vec xs"
  have new: "distinct ?new" "set ?new = set xs" "length ?new < 2 ^ 32"
    using set_from_vec_props[of xs] assms(2) ys(1) by auto
  have "storage_of [] = \<lparr>vals = \<lparr>len_slot = 0, elem_slot = (\<lambda>_. 0)\<rparr>, positions = (\<lambda>_. 0)\<rparr>"
    by (simp add: storage_of_def)
  then show ?thesis
    using set_write_storage_of[OF new(1,3) ys(2), of e] ys(3) set_invI[OF new(1) assms(2) ys(1)]
      set_read_storage_of[OF new(3)] set_abs_storage_of[OF new(3)] new(2) set_delete_storage_of[OF new(3), of e]
    by auto
qed

theorem set_write_read_roundtrip_witness:
  "\<exists>s'. set_write [7, 9 :: address] (demo_env T8 0) (storage_of [3, 5, 7]) = Inr ((), s', []) \<and>
     set_read s' = Inr [7, 9]"
proof -
  have inv: "set_inv 10 (storage_of [3, 5, 7 :: address])" by (intro set_invI) auto
  have vec: "set_from_vec [7, 9, 7 :: address] = [7, 9]" by (simp add: set_from_vec_def)
  show ?thesis
    using set_write_read_roundtrip[OF inv, of "[7, 9, 7]" "demo_env T8 0"] unfolding vec by auto
qed

end
