(* ===== verification/Account_Keychain.thy ===== *)
theory Account_Keychain
  imports Enumerable_Set
begin

text \<open>
  The account keychain (\<open>precompiles/src/account_keychain/mod.rs\<close>): access keys with
  expiry, permanent revocation, per-token spending limits with periods, and call scopes.
  \<open>transaction_key\<close> and \<open>tx_origin\<close> are transient: the transaction handler sets them
  before execution. Whether a target is a deployed TIP-20 token, which the factory answers
  and only validation before T4 asks, is the argument \<open>deployed\<close>.
\<close>

section \<open>Data\<close>

datatype signature_type = Secp256k1 | P256 | WebAuthn | SignatureTypeInvalid

datatype stored_signature_type = StoredSecp256k1 | StoredP256 | StoredWebAuthn

fun stored_signature_type_u8 :: "stored_signature_type \<Rightarrow> u8" where
  "stored_signature_type_u8 StoredSecp256k1 = 0"
| "stored_signature_type_u8 StoredP256 = 1"
| "stored_signature_type_u8 StoredWebAuthn = 2"

fun try_from_signature_type :: "signature_type \<Rightarrow> tempo_error + stored_signature_type" where
  "try_from_signature_type Secp256k1 = Inr StoredSecp256k1"
| "try_from_signature_type P256 = Inr StoredP256"
| "try_from_signature_type WebAuthn = Inr StoredWebAuthn"
| "try_from_signature_type SignatureTypeInvalid = Inl (KeychainErr InvalidSignatureType)"

fun from_stored_signature_type :: "stored_signature_type \<Rightarrow> signature_type" where
  "from_stored_signature_type StoredSecp256k1 = Secp256k1"
| "from_stored_signature_type StoredP256 = P256"
| "from_stored_signature_type StoredWebAuthn = WebAuthn"

record authorized_key =
  key_signature_type :: stored_signature_type
  expiry :: u64
  enforce_limits :: bool
  is_revoked :: bool
  is_admin :: bool

definition default_key :: authorized_key where
  "default_key = \<lparr>key_signature_type = StoredSecp256k1, expiry = 0, enforce_limits = False,
     is_revoked = False, is_admin = False\<rparr>"

record spending_limit_state =
  remaining :: u256
  limit_max :: u128
  period :: u64
  period_end :: u64

type_synonym selector = u32

record target_scope =
  selectors :: "selector set_storage"
  selector_scopes :: "selector \<Rightarrow> address set_storage"

record key_scope =
  is_scoped :: bool
  targets :: "address set_storage"
  target_scopes :: "address \<Rightarrow> target_scope"

record token_limit =
  tl_token :: address
  tl_amount :: u256
  tl_period :: u64

record selector_rule =
  sr_selector :: selector
  sr_recipients :: "address list"

record call_scope =
  cs_target :: address
  cs_selector_rules :: "selector_rule list"

record key_restrictions =
  kr_expiry :: u64
  enforceLimits :: bool
  limits :: "token_limit list"
  allowAnyCalls :: bool
  allowedCalls :: "call_scope list"

record key_info =
  ki_signature_type :: signature_type
  ki_key_id :: address
  ki_expiry :: u64
  ki_enforce_limits :: bool
  ki_is_revoked :: bool

record account_keychain =
  keys :: "address \<Rightarrow> address \<Rightarrow> authorized_key"
  spending_limits :: "b256 \<Rightarrow> address \<Rightarrow> spending_limit_state"
  key_scopes :: "b256 \<Rightarrow> key_scope"
  key_authorization_witnesses :: "address \<Rightarrow> b256 \<Rightarrow> bool"
  transaction_key :: address
  tx_origin :: address

section \<open>Constants and pure helpers\<close>

definition TIP20_TRANSFER_SELECTOR :: selector where "TIP20_TRANSFER_SELECTOR = 0xa9059cbb"
definition TIP20_APPROVE_SELECTOR :: selector where "TIP20_APPROVE_SELECTOR = 0x095ea7b3"
definition TIP20_TRANSFER_WITH_MEMO_SELECTOR :: selector where
  "TIP20_TRANSFER_WITH_MEMO_SELECTOR = 0x95777d59"

definition ZERO_PERIODIC_REMAINING_SENTINEL :: u256 where
  "ZERO_PERIODIC_REMAINING_SENTINEL = - 1"

definition is_constrained_tip20_selector :: "selector \<Rightarrow> bool" where
  "is_constrained_tip20_selector s =
     (s = TIP20_TRANSFER_SELECTOR \<or> s = TIP20_APPROVE_SELECTOR \<or> s = TIP20_TRANSFER_WITH_MEMO_SELECTOR)"

text \<open>The largest index of a stored vector of addresses, and of one of 4-byte selectors.\<close>

definition ADDRESS_VEC_MAX :: nat where "ADDRESS_VEC_MAX = 2 ^ 32 - 1"
definition SELECTOR_VEC_MAX :: nat where "SELECTOR_VEC_MAX = (2 ^ 32 - 1) div 4"

definition compute_next_period_end :: "spending_limit_state \<Rightarrow> u64 \<Rightarrow> u64" where
  "compute_next_period_end st current_timestamp =
     (let elapsed = saturating_sub current_timestamp (period_end st);
          periods_elapsed = saturating_add (elapsed div period st) 1;
          advance = saturating_mul (period st) periods_elapsed
      in saturating_add (period_end st) advance)"

definition spending_limit_key :: "env \<Rightarrow> address \<Rightarrow> address \<Rightarrow> b256" where
  "spending_limit_key e account key_id = keccak256 e (be_bytes 20 account @ be_bytes 20 key_id)"

definition t3_spending_limit_cap :: "u256 \<Rightarrow> tempo_error + u128" where
  "t3_spending_limit_cap limit = rok_or (try_into limit) (KeychainErr InvalidSpendingLimit)"

text \<open>Duplicates by sorting and comparing neighbours, as the precompile library does it.\<close>

definition has_duplicates_metered :: "'a::linorder list \<Rightarrow> bool" where
  "has_duplicates_metered values =
     (let sorted_values = sort values in list_ex (\<lambda>(a, b). a = b) (zip sorted_values (tl sorted_values)))"

section \<open>Storage access\<close>

definition set_key :: "address \<Rightarrow> address \<Rightarrow> authorized_key \<Rightarrow> (account_keychain, unit) op" where
  "set_key account key_id key =
     modify (\<lambda>s. s\<lparr>keys := (keys s)(account := (keys s account)(key_id := key))\<rparr>)"

definition set_limit :: "b256 \<Rightarrow> address \<Rightarrow> spending_limit_state \<Rightarrow> (account_keychain, unit) op" where
  "set_limit k token st =
     modify (\<lambda>s. s\<lparr>spending_limits := (spending_limits s)(k := (spending_limits s k)(token := st))\<rparr>)"

definition set_remaining :: "b256 \<Rightarrow> address \<Rightarrow> u256 \<Rightarrow> (account_keychain, unit) op" where
  "set_remaining k token v =
     modify (\<lambda>s. s\<lparr>spending_limits := (spending_limits s)(k := (spending_limits s k)(token :=
       (spending_limits s k token)\<lparr>remaining := v\<rparr>))\<rparr>)"

definition set_is_scoped :: "b256 \<Rightarrow> bool \<Rightarrow> (account_keychain, unit) op" where
  "set_is_scoped k b = modify (\<lambda>s. s\<lparr>key_scopes := (key_scopes s)(k := (key_scopes s k)\<lparr>is_scoped := b\<rparr>)\<rparr>)"

definition get_targets :: "b256 \<Rightarrow> account_keychain \<Rightarrow> address set_storage" where
  "get_targets k s = targets (key_scopes s k)"

definition put_targets :: "b256 \<Rightarrow> address set_storage \<Rightarrow> account_keychain \<Rightarrow> account_keychain" where
  "put_targets k v s = s\<lparr>key_scopes := (key_scopes s)(k := (key_scopes s k)\<lparr>targets := v\<rparr>)\<rparr>"

definition put_target_scope :: "b256 \<Rightarrow> address \<Rightarrow> target_scope \<Rightarrow> account_keychain \<Rightarrow> account_keychain" where
  "put_target_scope k t v s = s\<lparr>key_scopes := (key_scopes s)(k :=
     (key_scopes s k)\<lparr>target_scopes := (target_scopes (key_scopes s k))(t := v)\<rparr>)\<rparr>"

definition get_selectors :: "b256 \<Rightarrow> address \<Rightarrow> account_keychain \<Rightarrow> selector set_storage" where
  "get_selectors k t s = selectors (target_scopes (key_scopes s k) t)"

definition put_selectors :: "b256 \<Rightarrow> address \<Rightarrow> selector set_storage \<Rightarrow> account_keychain \<Rightarrow> account_keychain" where
  "put_selectors k t v s = put_target_scope k t ((target_scopes (key_scopes s k) t)\<lparr>selectors := v\<rparr>) s"

definition get_recipients :: "b256 \<Rightarrow> address \<Rightarrow> selector \<Rightarrow> account_keychain \<Rightarrow> address set_storage" where
  "get_recipients k t sel s = selector_scopes (target_scopes (key_scopes s k) t) sel"

definition put_recipients ::
  "b256 \<Rightarrow> address \<Rightarrow> selector \<Rightarrow> address set_storage \<Rightarrow> account_keychain \<Rightarrow> account_keychain" where
  "put_recipients k t sel v s = put_target_scope k t ((target_scopes (key_scopes s k) t)
     \<lparr>selector_scopes := (selector_scopes (target_scopes (key_scopes s k) t))(sel := v)\<rparr>) s"

lemmas scope_access_defs = get_targets_def put_targets_def put_target_scope_def get_selectors_def
  put_selectors_def get_recipients_def put_recipients_def

interpretation targets_lens: lens "get_targets k" "put_targets k" for k
  by standard (simp_all add: scope_access_defs)

interpretation selectors_lens: lens "get_selectors k t" "put_selectors k t" for k t
  by standard (simp_all add: scope_access_defs)

interpretation recipients_lens: lens "get_recipients k t sel" "put_recipients k t sel" for k t sel
  by standard (simp_all add: scope_access_defs)

definition emit_kc :: "keychain_event \<Rightarrow> (account_keychain, unit) op" where
  "emit_kc ev = emit (ACCOUNT_KEYCHAIN_ADDRESS, KeychainEvent ev)"

section \<open>Keys\<close>

definition load_active_key ::
  "address \<Rightarrow> address \<Rightarrow> u64 \<Rightarrow> account_keychain \<Rightarrow> tempo_error + authorized_key" where
  "load_active_key account key_id current_timestamp s =
     (let key = keys s account key_id in
      if is_revoked key then Inl (KeychainErr KeyAlreadyRevoked)
      else if expiry key = 0 then Inl (KeychainErr KeyNotFound)
      else if current_timestamp \<ge> expiry key then Inl (KeychainErr KeyExpired)
      else Inr key)"

definition is_admin_key :: "address \<Rightarrow> address \<Rightarrow> env \<Rightarrow> account_keychain \<Rightarrow> tempo_error + bool" where
  "is_admin_key account key_id e s =
     (if key_id = account then Inr True
      else case load_active_key account key_id (now64 e) s of
             Inr key \<Rightarrow> Inr (is_admin key)
           | Inl err \<Rightarrow> if is_system_error err then Inl err else Inr False)"

definition is_active_key :: "address \<Rightarrow> address \<Rightarrow> env \<Rightarrow> account_keychain \<Rightarrow> tempo_error + bool" where
  "is_active_key account key_id e s =
     (case load_active_key account key_id (now64 e) s of
        Inr _ \<Rightarrow> Inr True
      | Inl err \<Rightarrow> if is_system_error err then Inl err else Inr False)"

definition ensure_admin_caller :: "address \<Rightarrow> env \<Rightarrow> account_keychain \<Rightarrow> tempo_error + unit" where
  "ensure_admin_caller msg_sender e s =
     rbind (if transaction_key s \<noteq> 0
            then rbind (if \<not> is_t6 (spec e) then Inr False else is_admin_key msg_sender (transaction_key s) e s)
                   (\<lambda>admin. rensure admin (KeychainErr UnauthorizedCaller))
            else Inr ()) (\<lambda>_.
     if is_t2 (spec e)
     then rensure (\<not> (tx_origin s = 0 \<or> tx_origin s \<noteq> msg_sender)) (KeychainErr UnauthorizedCaller)
     else Inr ())"

definition ensure_key_authorization_witness_not_burned ::
  "address \<Rightarrow> b256 \<Rightarrow> account_keychain \<Rightarrow> tempo_error + unit" where
  "ensure_key_authorization_witness_not_burned account witness s =
     rensure (\<not> key_authorization_witnesses s account witness) (KeychainErr KeyAuthorizationWitnessAlreadyBurned)"

definition burn_key_authorization_witness_value :: "address \<Rightarrow> b256 \<Rightarrow> (account_keychain, unit) op" where
  "burn_key_authorization_witness_value account witness =
     bind (query (\<lambda>_. ensure_key_authorization_witness_not_burned account witness)) (\<lambda>_.
     bind (modify (\<lambda>s. s\<lparr>key_authorization_witnesses := (key_authorization_witnesses s)(account :=
        (key_authorization_witnesses s account)(witness := True))\<rparr>)) (\<lambda>_.
     emit_kc (KeyAuthorizationWitnessBurned account witness)))"

definition burn_key_authorization_witness :: "address \<Rightarrow> b256 \<Rightarrow> (account_keychain, unit) op" where
  "burn_key_authorization_witness msg_sender witness =
     bind (query (ensure_admin_caller msg_sender)) (\<lambda>_.
     burn_key_authorization_witness_value msg_sender witness)"

definition is_key_authorization_witness_burned :: "address \<Rightarrow> b256 \<Rightarrow> account_keychain \<Rightarrow> bool" where
  "is_key_authorization_witness_burned account witness s = key_authorization_witnesses s account witness"

definition revoke_key :: "address \<Rightarrow> address \<Rightarrow> (account_keychain, unit) op" where
  "revoke_key msg_sender key_id =
     bind (query (ensure_admin_caller msg_sender)) (\<lambda>_.
     bind (gets (\<lambda>s. keys s msg_sender key_id)) (\<lambda>key.
     bind (ensure (\<not> expiry key = 0) (KeychainErr KeyNotFound)) (\<lambda>_.
     bind (set_key msg_sender key_id (default_key\<lparr>is_revoked := True\<rparr>)) (\<lambda>_.
     emit_kc (KeyRevoked msg_sender key_id)))))"

definition get_key :: "address \<Rightarrow> address \<Rightarrow> account_keychain \<Rightarrow> key_info" where
  "get_key account key_id s =
     (let key = keys s account key_id in
      if expiry key = 0 \<or> is_revoked key
      then \<lparr>ki_signature_type = Secp256k1, ki_key_id = 0, ki_expiry = 0, ki_enforce_limits = False,
            ki_is_revoked = is_revoked key\<rparr>
      else \<lparr>ki_signature_type = from_stored_signature_type (key_signature_type key), ki_key_id = key_id,
            ki_expiry = expiry key, ki_enforce_limits = enforce_limits key, ki_is_revoked = is_revoked key\<rparr>)"

definition get_transaction_key :: "account_keychain \<Rightarrow> address" where
  "get_transaction_key s = transaction_key s"

definition set_transaction_key :: "address \<Rightarrow> (account_keychain, unit) op" where
  "set_transaction_key key_id = modify (\<lambda>s. s\<lparr>transaction_key := key_id\<rparr>)"

definition set_tx_origin :: "address \<Rightarrow> (account_keychain, unit) op" where
  "set_tx_origin origin = modify (\<lambda>s. s\<lparr>tx_origin := origin\<rparr>)"

definition validate_keychain_authorization ::
  "address \<Rightarrow> address \<Rightarrow> u64 \<Rightarrow> u8 option \<Rightarrow> account_keychain \<Rightarrow> tempo_error + authorized_key" where
  "validate_keychain_authorization account key_id current_timestamp expected_sig_type s =
     rbind (load_active_key account key_id current_timestamp s) (\<lambda>key.
     case expected_sig_type of
       Some sig_type \<Rightarrow>
         if stored_signature_type_u8 (key_signature_type key) \<noteq> sig_type
         then Inl (KeychainErr (SignatureTypeMismatch (stored_signature_type_u8 (key_signature_type key)) sig_type))
         else Inr key
     | None \<Rightarrow> Inr key)"

section \<open>Call scopes\<close>

fun validate_rules_loop ::
  "(address \<Rightarrow> bool) \<Rightarrow> env \<Rightarrow> address \<Rightarrow> selector set \<Rightarrow> selector_rule list \<Rightarrow> tempo_error + unit" where
  "validate_rules_loop deployed e target seen [] = Inr ()"
| "validate_rules_loop deployed e target seen (rule # rules) =
     (if \<not> is_t11 (spec e) \<and> sr_selector rule \<in> seen then Inl (KeychainErr InvalidCallScope)
      else let seen' = (if is_t11 (spec e) then seen else insert (sr_selector rule) seen) in
        if sr_recipients rule = [] then validate_rules_loop deployed e target seen' rules
        else if \<not> is_constrained_tip20_selector (sr_selector rule) \<or>
                \<not> (if \<not> is_t4 (spec e) then deployed target else is_tip20_prefix target)
        then Inl (KeychainErr InvalidCallScope)
        else if list_ex (\<lambda>r. r = 0) (sr_recipients rule) \<or> has_duplicates_metered (sr_recipients rule)
        then Inl (KeychainErr InvalidCallScope)
        else validate_rules_loop deployed e target seen' rules)"

definition validate_selector_rules ::
  "(address \<Rightarrow> bool) \<Rightarrow> env \<Rightarrow> address \<Rightarrow> selector_rule list \<Rightarrow> tempo_error + unit" where
  "validate_selector_rules deployed e target rules =
     (if is_t11 (spec e) \<and> has_duplicates_metered (map sr_selector rules)
      then Inl (KeychainErr InvalidCallScope)
      else validate_rules_loop deployed e target {} rules)"

definition validate_call_scope :: "(address \<Rightarrow> bool) \<Rightarrow> env \<Rightarrow> call_scope \<Rightarrow> tempo_error + unit" where
  "validate_call_scope deployed e scope =
     (if cs_target scope = 0 then Inl (KeychainErr InvalidCallScope)
      else if cs_selector_rules scope \<noteq> []
      then validate_selector_rules deployed e (cs_target scope) (cs_selector_rules scope)
      else Inr ())"

fun validate_each :: "(address \<Rightarrow> bool) \<Rightarrow> env \<Rightarrow> call_scope list \<Rightarrow> tempo_error + unit" where
  "validate_each deployed e [] = Inr ()"
| "validate_each deployed e (scope # scopes) =
     rbind (validate_call_scope deployed e scope) (\<lambda>_. validate_each deployed e scopes)"

fun validate_scopes_loop ::
  "(address \<Rightarrow> bool) \<Rightarrow> env \<Rightarrow> address set \<Rightarrow> call_scope list \<Rightarrow> tempo_error + unit" where
  "validate_scopes_loop deployed e seen [] = Inr ()"
| "validate_scopes_loop deployed e seen (scope # scopes) =
     (if cs_target scope \<in> seen then Inl (KeychainErr InvalidCallScope)
      else rbind (if is_t4 (spec e) then validate_call_scope deployed e scope else Inr ()) (\<lambda>_.
           validate_scopes_loop deployed e (insert (cs_target scope) seen) scopes))"

definition validate_call_scopes :: "(address \<Rightarrow> bool) \<Rightarrow> env \<Rightarrow> call_scope list \<Rightarrow> tempo_error + unit" where
  "validate_call_scopes deployed e scopes =
     (if is_t11 (spec e)
      then if has_duplicates_metered (map cs_target scopes) then Inl (KeychainErr InvalidCallScope)
           else validate_each deployed e scopes
      else validate_scopes_loop deployed e {} scopes)"

definition clear_target_selectors :: "b256 \<Rightarrow> address \<Rightarrow> (account_keychain, unit) op" where
  "clear_target_selectors account_key target =
     bind (query (\<lambda>_ s. set_read (get_selectors account_key target s))) (\<lambda>sels.
     bind (foreach sels (\<lambda>sel.
       zoom (get_recipients account_key target sel) (put_recipients account_key target sel) set_delete)) (\<lambda>_.
     zoom (get_selectors account_key target) (put_selectors account_key target) set_delete))"

definition remove_target_scope :: "b256 \<Rightarrow> address \<Rightarrow> (account_keychain, unit) op" where
  "remove_target_scope account_key target =
     bind (zoom (get_targets account_key) (put_targets account_key) (set_remove target)) (\<lambda>removed.
     if \<not> removed then ret () else clear_target_selectors account_key target)"

definition clear_all_target_scopes :: "b256 \<Rightarrow> (account_keychain, unit) op" where
  "clear_all_target_scopes account_key =
     bind (query (\<lambda>_ s. set_read (get_targets account_key s))) (\<lambda>ts.
     bind (foreach ts (clear_target_selectors account_key)) (\<lambda>_.
     zoom (get_targets account_key) (put_targets account_key) set_delete))"

definition upsert_rule :: "b256 \<Rightarrow> address \<Rightarrow> selector_rule \<Rightarrow> (account_keychain, unit) op" where
  "upsert_rule account_key target rule =
     bind (zoom (get_selectors account_key target) (put_selectors account_key target)
             (set_insert SELECTOR_VEC_MAX (sr_selector rule))) (\<lambda>_.
     if sr_recipients rule = []
     then bind (ask (\<lambda>e. is_t4 (spec e))) (\<lambda>t4.
          whenM (\<not> t4)
            (zoom (get_recipients account_key target (sr_selector rule))
                  (put_recipients account_key target (sr_selector rule)) set_delete))
     else zoom (get_recipients account_key target (sr_selector rule))
               (put_recipients account_key target (sr_selector rule)) (set_write (sr_recipients rule)))"

definition upsert_target_scope ::
  "(address \<Rightarrow> bool) \<Rightarrow> b256 \<Rightarrow> call_scope \<Rightarrow> (account_keychain, unit) op" where
  "upsert_target_scope deployed account_key scope =
     (let target = cs_target scope in
      bind (query (\<lambda>e _. if \<not> is_t4 (spec e) then validate_call_scope deployed e scope else Inr ())) (\<lambda>_.
      bind (zoom (get_targets account_key) (put_targets account_key) (set_insert ADDRESS_VEC_MAX target)) (\<lambda>_.
      bind (clear_target_selectors account_key target) (\<lambda>_.
      if cs_selector_rules scope = [] then ret ()
      else foreach (cs_selector_rules scope) (upsert_rule account_key target)))))"

definition replace_allowed_calls ::
  "(address \<Rightarrow> bool) \<Rightarrow> b256 \<Rightarrow> call_scope list option \<Rightarrow> (account_keychain, unit) op" where
  "replace_allowed_calls deployed account_key allowed_calls =
     bind (clear_all_target_scopes account_key) (\<lambda>_.
     case allowed_calls of
       None \<Rightarrow> set_is_scoped account_key False
     | Some scopes \<Rightarrow>
         bind (set_is_scoped account_key True) (\<lambda>_.
         if scopes = [] then ret ()
         else
           bind (query (\<lambda>e _. validate_call_scopes deployed e scopes)) (\<lambda>_.
           foreach scopes (upsert_target_scope deployed account_key))))"

definition set_allowed_calls ::
  "(address \<Rightarrow> bool) \<Rightarrow> address \<Rightarrow> address \<Rightarrow> call_scope list \<Rightarrow> (account_keychain, unit) op" where
  "set_allowed_calls deployed msg_sender key_id scopes =
     bind (query (\<lambda>e _. rensure (is_t3 (spec e)) (KeychainErr InvalidCallScope))) (\<lambda>_.
     bind (query (ensure_admin_caller msg_sender)) (\<lambda>_.
     bind (query (\<lambda>e. load_active_key msg_sender key_id (now64 e))) (\<lambda>key.
     bind (ensure (\<not> is_admin key) (KeychainErr InvalidKeyId)) (\<lambda>_.
     bind (ask (\<lambda>e. spending_limit_key e msg_sender key_id)) (\<lambda>key_hash.
     bind (ensure (scopes \<noteq> []) (KeychainErr InvalidCallScope)) (\<lambda>_.
     bind (query (\<lambda>e _. validate_call_scopes deployed e scopes)) (\<lambda>_.
     bind (foreach scopes (upsert_target_scope deployed key_hash)) (\<lambda>_.
     set_is_scoped key_hash True))))))))"

definition remove_allowed_calls :: "address \<Rightarrow> address \<Rightarrow> address \<Rightarrow> (account_keychain, unit) op" where
  "remove_allowed_calls msg_sender key_id target =
     bind (query (ensure_admin_caller msg_sender)) (\<lambda>_.
     bind (query (\<lambda>e. load_active_key msg_sender key_id (now64 e))) (\<lambda>key.
     bind (ensure (\<not> is_admin key) (KeychainErr InvalidKeyId)) (\<lambda>_.
     bind (ask (\<lambda>e. spending_limit_key e msg_sender key_id)) (\<lambda>key_hash.
     bind (gets (\<lambda>s. is_scoped (key_scopes s key_hash))) (\<lambda>current_mode.
     if \<not> current_mode then ret () else remove_target_scope key_hash target)))))"

text \<open>Reading all elements of a list in order, stopping at the first error.\<close>

fun rmap :: "('a \<Rightarrow> 'e + 'b) \<Rightarrow> 'a list \<Rightarrow> 'e + 'b list" where
  "rmap f [] = Inr []"
| "rmap f (x # xs) = rbind (f x) (\<lambda>y. rbind (rmap f xs) (\<lambda>ys. Inr (y # ys)))"

definition read_selector_rule :: "b256 \<Rightarrow> address \<Rightarrow> account_keychain \<Rightarrow> selector \<Rightarrow> tempo_error + selector_rule" where
  "read_selector_rule k target s sel =
     rbind (set_read (get_recipients k target sel s)) (\<lambda>rs. Inr \<lparr>sr_selector = sel, sr_recipients = rs\<rparr>)"

definition read_target_scope :: "b256 \<Rightarrow> account_keychain \<Rightarrow> address \<Rightarrow> tempo_error + call_scope" where
  "read_target_scope k s target =
     rbind (set_read (get_selectors k target s)) (\<lambda>sels.
     if sels = [] then Inr \<lparr>cs_target = target, cs_selector_rules = []\<rparr>
     else rbind (rmap (read_selector_rule k target s) sels) (\<lambda>rules.
          Inr \<lparr>cs_target = target, cs_selector_rules = rules\<rparr>))"

definition get_allowed_calls ::
  "address \<Rightarrow> address \<Rightarrow> env \<Rightarrow> account_keychain \<Rightarrow> tempo_error + bool \<times> call_scope list" where
  "get_allowed_calls account key_id e s =
     (if key_id = 0 then Inr (False, [])
      else let key = keys s account key_id in
        if expiry key = 0 \<or> is_revoked key \<or> now64 e \<ge> expiry key then Inr (True, [])
        else let key_hash = spending_limit_key e account key_id in
          if \<not> is_scoped (key_scopes s key_hash) then Inr (False, [])
          else rbind (set_read (get_targets key_hash s)) (\<lambda>ts.
               rbind (rmap (read_target_scope key_hash s) ts) (\<lambda>scopes. Inr (True, scopes))))"

definition be_word :: "u8 list \<Rightarrow> 'a::len word" where
  "be_word bs = fold (\<lambda>b acc. push_bit 8 acc OR ucast b) bs 0"

text \<open>\<open>to\<close> is the call target, or \<open>None\<close> for contract creation.\<close>

definition validate_call_scope_for_transaction ::
  "address \<Rightarrow> address \<Rightarrow> address option \<Rightarrow> u8 list \<Rightarrow> env \<Rightarrow> account_keychain \<Rightarrow> tempo_error + unit" where
  "validate_call_scope_for_transaction account key_id to input e s =
     (if key_id = 0 \<or> \<not> is_t3 (spec e) then Inr ()
      else case to of
        None \<Rightarrow> Inl (KeychainErr CallNotAllowed)
      | Some target \<Rightarrow>
        let key_hash = spending_limit_key e account key_id in
        if \<not> is_scoped (key_scopes s key_hash) then Inr ()
        else if \<not> set_contains target (get_targets key_hash s) then Inl (KeychainErr CallNotAllowed)
        else
          rbind (set_is_empty (get_selectors key_hash target s)) (\<lambda>target_is_unconstrained.
          if target_is_unconstrained then Inr ()
          else if length input < 4 then Inl (KeychainErr CallNotAllowed)
          else let sel = be_word (take 4 input) in
            if \<not> set_contains sel (get_selectors key_hash target s) then Inl (KeychainErr CallNotAllowed)
            else
              rbind (set_is_empty (get_recipients key_hash target sel s)) (\<lambda>selector_is_unconstrained.
              if selector_is_unconstrained then Inr ()
              else if length input < 36 then Inl (KeychainErr CallNotAllowed)
              else let recipient_word = take 32 (drop 4 input) in
                if list_ex (\<lambda>b. b \<noteq> 0) (take 12 recipient_word) then Inl (KeychainErr CallNotAllowed)
                else if set_contains (be_word (drop 12 recipient_word)) (get_recipients key_hash target sel s)
                then Inr () else Inl (KeychainErr CallNotAllowed))))"

section \<open>Authorizing keys\<close>

definition apply_limit :: "b256 \<Rightarrow> token_limit \<Rightarrow> (account_keychain, unit) op" where
  "apply_limit limit_key limit =
     bind (ask (\<lambda>e. is_t3 (spec e))) (\<lambda>t3.
     if t3 then
       bind (ask (\<lambda>e. if tl_period limit = 0 then 0 else saturating_add (now64 e) (tl_period limit))) (\<lambda>pe.
       bind (query (\<lambda>_ _. t3_spending_limit_cap (tl_amount limit))) (\<lambda>cap.
       set_limit limit_key (tl_token limit)
         \<lparr>remaining = tl_amount limit, limit_max = cap, period = tl_period limit, period_end = pe\<rparr>))
     else set_remaining limit_key (tl_token limit) (tl_amount limit))"

definition apply_key_authorization_restrictions ::
  "(address \<Rightarrow> bool) \<Rightarrow> address \<Rightarrow> address \<Rightarrow> token_limit list \<Rightarrow> call_scope list option \<Rightarrow>
   (account_keychain, unit) op" where
  "apply_key_authorization_restrictions deployed account key_id lims allowed_calls =
     bind (ask (\<lambda>e. spending_limit_key e account key_id)) (\<lambda>limit_key.
     bind (ask (\<lambda>e. is_t3 (spec e))) (\<lambda>t3.
     bind (foreach lims (apply_limit limit_key)) (\<lambda>_.
     if \<not> t3 then ret () else replace_allowed_calls deployed limit_key allowed_calls)))"

definition allowed_call_configs :: "key_restrictions \<Rightarrow> env \<Rightarrow> tempo_error + call_scope list option" where
  "allowed_call_configs config e =
     (if is_t3 (spec e) then
        if enforceLimits config \<and> \<not> distinct (map tl_token (limits config))
        then Inl (KeychainErr InvalidSpendingLimit)
        else if allowAnyCalls config then
          if is_t5 (spec e) \<and> allowedCalls config \<noteq> [] then Inl (KeychainErr InvalidCallScope) else Inr None
        else Inr (Some (allowedCalls config))
      else
        if list_ex (\<lambda>limit. tl_period limit \<noteq> 0) (limits config) then Inl (KeychainErr InvalidSpendingLimit)
        else if \<not> allowAnyCalls config \<or> allowedCalls config \<noteq> [] then Inl (KeychainErr InvalidCallScope)
        else Inr None)"

definition authorize_key_internal ::
  "(address \<Rightarrow> bool) \<Rightarrow> address \<Rightarrow> address \<Rightarrow> signature_type \<Rightarrow> key_restrictions \<Rightarrow> b256 option \<Rightarrow> bool \<Rightarrow>
   (account_keychain, unit) op" where
  "authorize_key_internal deployed msg_sender key_id sig_type config witness admin =
     bind (query (ensure_admin_caller msg_sender)) (\<lambda>_.
     bind (ensure (\<not> key_id = 0) (KeychainErr ZeroPublicKey)) (\<lambda>_.
     bind (ensure (\<not> (admin \<and> key_id = msg_sender)) (KeychainErr InvalidKeyId)) (\<lambda>_.
     bind (query (\<lambda>e _. rensure (\<not> (is_t0 (spec e) \<and> kr_expiry config \<le> now64 e)) (KeychainErr ExpiryInPast))) (\<lambda>_.
     bind (gets (\<lambda>s. keys s msg_sender key_id)) (\<lambda>existing_key.
     bind (ensure (\<not> expiry existing_key > 0) (KeychainErr KeyAlreadyExists)) (\<lambda>_.
     bind (ensure (\<not> is_revoked existing_key) (KeychainErr KeyAlreadyRevoked)) (\<lambda>_.
     bind (query (\<lambda>_ _. try_from_signature_type sig_type)) (\<lambda>stored_type.
     bind (query (\<lambda>e _. allowed_call_configs config e)) (\<lambda>allowed.
     bind (case witness of
             Some w \<Rightarrow> query (\<lambda>_. ensure_key_authorization_witness_not_burned msg_sender w)
           | None \<Rightarrow> ret ()) (\<lambda>_.
     bind (set_key msg_sender key_id
             \<lparr>key_signature_type = stored_type, expiry = kr_expiry config,
              enforce_limits = enforceLimits config, is_revoked = False, is_admin = admin\<rparr>) (\<lambda>_.
     bind (whenM (\<not> admin)
             (apply_key_authorization_restrictions deployed msg_sender key_id
                (if enforceLimits config then limits config else []) allowed)) (\<lambda>_.
     bind (case witness of Some w \<Rightarrow> emit_kc (KeyAuthorizationWitness msg_sender w) | None \<Rightarrow> ret ()) (\<lambda>_.
     emit_kc (KeyAuthorized msg_sender key_id (stored_signature_type_u8 stored_type) (kr_expiry config)))))))))))))))"

definition authorize_key ::
  "(address \<Rightarrow> bool) \<Rightarrow> address \<Rightarrow> address \<Rightarrow> signature_type \<Rightarrow> key_restrictions \<Rightarrow> b256 option \<Rightarrow>
   (account_keychain, unit) op" where
  "authorize_key deployed msg_sender key_id sig_type config witness =
     authorize_key_internal deployed msg_sender key_id sig_type config witness False"

definition authorize_admin_key ::
  "(address \<Rightarrow> bool) \<Rightarrow> address \<Rightarrow> address \<Rightarrow> signature_type \<Rightarrow> b256 option \<Rightarrow> (account_keychain, unit) op" where
  "authorize_admin_key deployed msg_sender key_id sig_type witness =
     bind (authorize_key_internal deployed msg_sender key_id sig_type
             \<lparr>kr_expiry = - 1, enforceLimits = False, limits = [], allowAnyCalls = True, allowedCalls = []\<rparr>
             witness True) (\<lambda>_.
     emit_kc (AdminKeyAuthorized msg_sender key_id))"

section \<open>Spending limits\<close>

definition update_spending_limit :: "address \<Rightarrow> address \<Rightarrow> address \<Rightarrow> u256 \<Rightarrow> (account_keychain, unit) op" where
  "update_spending_limit msg_sender key_id token new_limit =
     bind (query (ensure_admin_caller msg_sender)) (\<lambda>_.
     bind (query (\<lambda>e. load_active_key msg_sender key_id (now64 e))) (\<lambda>key.
     bind (ensure (\<not> is_admin key) (KeychainErr InvalidKeyId)) (\<lambda>_.
     bind (whenM (\<not> enforce_limits key) (set_key msg_sender key_id (key\<lparr>enforce_limits := True\<rparr>))) (\<lambda>_.
     bind (ask (\<lambda>e. spending_limit_key e msg_sender key_id)) (\<lambda>limit_key.
     bind (ask (\<lambda>e. is_t3 (spec e))) (\<lambda>t3.
     bind (if t3 then
             bind (gets (\<lambda>s. spending_limits s limit_key token)) (\<lambda>limit_state.
             bind (query (\<lambda>_ _. t3_spending_limit_cap new_limit)) (\<lambda>cap.
             set_limit limit_key token (limit_state\<lparr>remaining := new_limit, limit_max := cap\<rparr>)))
           else set_remaining limit_key token new_limit) (\<lambda>_.
     emit_kc (SpendingLimitUpdated msg_sender key_id token new_limit))))))))"

definition effective_limit_state_with_key ::
  "address \<Rightarrow> address \<Rightarrow> address \<Rightarrow> u64 \<Rightarrow> authorized_key \<Rightarrow> env \<Rightarrow> account_keychain \<Rightarrow> u256 \<times> u64" where
  "effective_limit_state_with_key account key_id token current_timestamp key e s =
     (if is_revoked key \<or> expiry key = 0 then (0, 0)
      else if current_timestamp \<ge> expiry key \<and> is_t3 (spec e) then (0, 0)
      else let st = spending_limits s (spending_limit_key e account key_id) token in
        if \<not> is_t3 (spec e) then (remaining st, 0)
        else if period st = 0 then (remaining st, 0)
        else let rem = (if is_t7 (spec e) \<and> remaining st = ZERO_PERIODIC_REMAINING_SENTINEL then 0 else remaining st) in
          if current_timestamp < period_end st then (rem, period_end st)
          else let elapsed = saturating_sub current_timestamp (period_end st);
                   periods_elapsed = saturating_add (elapsed div period st) 1;
                   advance = saturating_mul (period st) periods_elapsed;
                   next_end = saturating_add (period_end st) advance
               in (ucast (limit_max st), next_end))"

definition effective_limit_state ::
  "address \<Rightarrow> address \<Rightarrow> address \<Rightarrow> u64 \<Rightarrow> env \<Rightarrow> account_keychain \<Rightarrow> u256 \<times> u64" where
  "effective_limit_state account key_id token current_timestamp e s =
     (if key_id = 0 \<and> is_t3 (spec e) then (0, 0)
      else effective_limit_state_with_key account key_id token current_timestamp (keys s account key_id) e s)"

definition effective_remaining_limit ::
  "address \<Rightarrow> address \<Rightarrow> address \<Rightarrow> u64 \<Rightarrow> env \<Rightarrow> account_keychain \<Rightarrow> u256" where
  "effective_remaining_limit account key_id token current_timestamp e s =
     fst (effective_limit_state account key_id token current_timestamp e s)"

definition effective_remaining_limit_with_key ::
  "address \<Rightarrow> address \<Rightarrow> address \<Rightarrow> u64 \<Rightarrow> authorized_key \<Rightarrow> env \<Rightarrow> account_keychain \<Rightarrow> u256" where
  "effective_remaining_limit_with_key account key_id token current_timestamp key e s =
     (if key_id = 0 \<and> is_t3 (spec e) then 0
      else fst (effective_limit_state_with_key account key_id token current_timestamp key e s))"

definition get_remaining_limit_with_period ::
  "address \<Rightarrow> address \<Rightarrow> address \<Rightarrow> env \<Rightarrow> account_keychain \<Rightarrow> u256 \<times> u64" where
  "get_remaining_limit_with_period account key_id token e s = effective_limit_state account key_id token (now64 e) e s"

definition get_remaining_limit :: "address \<Rightarrow> address \<Rightarrow> address \<Rightarrow> env \<Rightarrow> account_keychain \<Rightarrow> u256" where
  "get_remaining_limit account key_id token e s =
     (if \<not> is_t2 (spec e) then remaining (spending_limits s (spending_limit_key e account key_id) token)
      else fst (get_remaining_limit_with_period account key_id token e s))"

definition verify_and_update_spending :: "address \<Rightarrow> address \<Rightarrow> address \<Rightarrow> u256 \<Rightarrow> (account_keychain, unit) op" where
  "verify_and_update_spending account key_id token amount =
     (if key_id = 0 then ret ()
      else
        bind (query (\<lambda>e. load_active_key account key_id (now64 e))) (\<lambda>key.
        if \<not> enforce_limits key then ret ()
        else
          bind (ask id) (\<lambda>e.
          let limit_key = spending_limit_key e account key_id in
          bind (gets (\<lambda>s. spending_limits s limit_key token)) (\<lambda>limit_state.
          if \<not> is_t3 (spec e) then
            bind (ensure (\<not> amount > remaining limit_state) (KeychainErr SpendingLimitExceeded)) (\<lambda>_.
            set_remaining limit_key token (remaining limit_state - amount))
          else
            let is_periodic = (period limit_state \<noteq> 0);
                rem0 = (if is_periodic \<and> is_t7 (spec e) \<and> remaining limit_state = ZERO_PERIODIC_REMAINING_SENTINEL
                        then 0 else remaining limit_state);
                rollover = (is_periodic \<and> now64 e \<ge> period_end limit_state);
                rem = (if rollover then ucast (limit_max limit_state) else rem0);
                limit_state' = (if rollover
                                then limit_state\<lparr>remaining := rem, period_end := compute_next_period_end limit_state (now64 e)\<rparr>
                                else limit_state);
                new_remaining = rem - amount in
            bind (ensure (\<not> amount > rem) (KeychainErr SpendingLimitExceeded)) (\<lambda>_.
            bind (if is_periodic
                  then set_limit limit_key token (limit_state'\<lparr>remaining :=
                         (if is_t7 (spec e) \<and> new_remaining = 0 then ZERO_PERIODIC_REMAINING_SENTINEL else new_remaining)\<rparr>)
                  else set_remaining limit_key token new_remaining) (\<lambda>_.
            emit_kc (AccessKeySpend account key_id token amount new_remaining)))))))"

definition refund_spending_limit :: "address \<Rightarrow> address \<Rightarrow> u256 \<Rightarrow> (account_keychain, unit) op" where
  "refund_spending_limit account token amount =
     bind (gets transaction_key) (\<lambda>tk.
     if tk = 0 then ret ()
     else
       bind (gets tx_origin) (\<lambda>origin.
       if account \<noteq> origin then ret ()
       else
         bind (ask id) (\<lambda>e.
         bind (gets (load_active_key account tk (now64 e))) (\<lambda>loaded.
         case loaded of
           Inl err \<Rightarrow> if is_system_error err then throw err else ret ()
         | Inr key \<Rightarrow>
             if \<not> enforce_limits key then ret ()
             else
               let limit_key = spending_limit_key e account tk in
               bind (gets (\<lambda>s. spending_limits s limit_key token)) (\<lambda>limit_state.
               if \<not> is_t3 (spec e)
               then set_remaining limit_key token (saturating_add (remaining limit_state) amount)
               else
                 let refunded = (if is_t7 (spec e) \<and> period limit_state \<noteq> 0 \<and>
                                   remaining limit_state = ZERO_PERIODIC_REMAINING_SENTINEL
                                 then amount else saturating_add (remaining limit_state) amount) in
                 set_limit limit_key token (limit_state\<lparr>remaining :=
                   (if limit_max limit_state = 0 then refunded
                    else min refunded (ucast (limit_max limit_state)))\<rparr>))))))"

definition authorize_transfer :: "address \<Rightarrow> address \<Rightarrow> u256 \<Rightarrow> (account_keychain, unit) op" where
  "authorize_transfer account token amount =
     bind (gets transaction_key) (\<lambda>tk.
     if tk = 0 then ret ()
     else
       bind (gets tx_origin) (\<lambda>origin.
       if account \<noteq> origin then ret ()
       else verify_and_update_spending account tk token amount))"

definition authorize_approve :: "address \<Rightarrow> address \<Rightarrow> u256 \<Rightarrow> u256 \<Rightarrow> (account_keychain, unit) op" where
  "authorize_approve account token old_approval new_approval =
     bind (gets transaction_key) (\<lambda>tk.
     if tk = 0 then ret ()
     else
       bind (gets tx_origin) (\<lambda>origin.
       if account \<noteq> origin then ret ()
       else
         let approval_increase = saturating_sub new_approval old_approval in
         if approval_increase = 0 then ret ()
         else verify_and_update_spending account tk token approval_increase))"

section \<open>Calls\<close>

text \<open>
  The state-changing calls of the dispatcher with their activation forks. The legacy
  authorization call exists until T3 and maps to a key without periods and call scopes.
\<close>

datatype keychain_call =
    LegacyAuthorizeKey address signature_type u64 bool "(address \<times> u256) list"
  | AuthorizeKey address signature_type key_restrictions
  | AuthorizeKeyWithWitness address signature_type key_restrictions b256
  | AuthorizeAdminKey address signature_type b256
  | BurnKeyAuthorizationWitness b256
  | RevokeKey address
  | UpdateSpendingLimit address address u256
  | SetAllowedCalls address "call_scope list"
  | RemoveAllowedCalls address address

definition legacy_restrictions :: "u64 \<Rightarrow> bool \<Rightarrow> (address \<times> u256) list \<Rightarrow> key_restrictions" where
  "legacy_restrictions exp enforce lims =
     \<lparr>kr_expiry = exp, enforceLimits = enforce,
      limits = map (\<lambda>(token, amount). \<lparr>tl_token = token, tl_amount = amount, tl_period = 0\<rparr>) lims,
      allowAnyCalls = True, allowedCalls = []\<rparr>"

definition AUTHORIZE_KEY_SELECTOR :: selector where "AUTHORIZE_KEY_SELECTOR = 0x980a6025"

fun keychain_exec :: "(address \<Rightarrow> bool) \<Rightarrow> address \<Rightarrow> keychain_call \<Rightarrow> (account_keychain, unit) op" where
  "keychain_exec deployed m (LegacyAuthorizeKey key sig exp enforce lims) =
     bind (query (\<lambda>e _. rensure (\<not> is_t3 (spec e))
             (KeychainErr (LegacyAuthorizeKeySelectorChanged AUTHORIZE_KEY_SELECTOR)))) (\<lambda>_.
     authorize_key deployed m key sig (legacy_restrictions exp enforce lims) None)"
| "keychain_exec deployed m (AuthorizeKey key sig config) =
     since T3 (authorize_key deployed m key sig config None)"
| "keychain_exec deployed m (AuthorizeKeyWithWitness key sig config w) =
     since T5 (authorize_key deployed m key sig config (Some w))"
| "keychain_exec deployed m (AuthorizeAdminKey key sig w) =
     since T6 (authorize_admin_key deployed m key sig (Some w))"
| "keychain_exec deployed m (BurnKeyAuthorizationWitness w) = since T5 (burn_key_authorization_witness m w)"
| "keychain_exec deployed m (RevokeKey key) = revoke_key m key"
| "keychain_exec deployed m (UpdateSpendingLimit key token lim) = update_spending_limit m key token lim"
| "keychain_exec deployed m (SetAllowedCalls key scopes) = since T3 (set_allowed_calls deployed m key scopes)"
| "keychain_exec deployed m (RemoveAllowedCalls key target) = since T3 (remove_allowed_calls m key target)"

end
