(* ===== verification/Keychain_Spending.thy ===== *)
theory Keychain_Spending
  imports Account_Keychain
begin

text \<open>
  Spending limits of the account keychain. One limit is a row of storage; \<open>row_effective\<close>
  and \<open>row_spend\<close> are the accounting of a row, which the keychain's queries and
  \<open>verify_and_update_spending\<close> are shown to follow from T3 on. The bounds on what a key
  can spend are proved on rows.
\<close>

section \<open>Accounting of one row\<close>

definition row_remaining :: "tempo_hardfork \<Rightarrow> spending_limit_state \<Rightarrow> u256" where
  "row_remaining h st =
     (if period st \<noteq> 0 \<and> is_t7 h \<and> remaining st = ZERO_PERIODIC_REMAINING_SENTINEL then 0 else remaining st)"

definition row_effective :: "tempo_hardfork \<Rightarrow> spending_limit_state \<Rightarrow> u64 \<Rightarrow> u256 \<times> u64" where
  "row_effective h st t =
     (if period st = 0 then (remaining st, 0)
      else if t < period_end st then (row_remaining h st, period_end st)
      else (ucast (limit_max st), compute_next_period_end st t))"

definition row_spend :: "tempo_hardfork \<Rightarrow> spending_limit_state \<Rightarrow> u64 \<Rightarrow> u256 \<Rightarrow> spending_limit_state option" where
  "row_spend h st t amount =
     (let (rem, pe) = row_effective h st t; new = rem - amount in
      if amount > rem then None
      else if period st = 0 then Some (st\<lparr>remaining := new\<rparr>)
      else Some (st\<lparr>period_end := pe,
                    remaining := (if is_t7 h \<and> new = 0 then ZERO_PERIODIC_REMAINING_SENTINEL else new)\<rparr>))"

lemma row_same_period_end: "st\<lparr>period_end := period_end st, remaining := v\<rparr> = st\<lparr>remaining := v\<rparr>"
  for st :: spending_limit_state
  by (cases st) simp

lemma unat_next_period_end:
  assumes "period st \<noteq> 0" "period_end st \<le> t" "t \<noteq> - 1"
  shows "unat (compute_next_period_end st t) =
    min (unat (period_end st) + unat (period st) * ((unat t - unat (period_end st)) div unat (period st) + 1)) (2 ^ 64 - 1)"
proof -
  have "unat t < 2 ^ 64 - 1" using unat_less_max[OF assms(3)] by simp
  then have "(unat t - unat (period_end st)) div unat (period st) + 1 \<le> 2 ^ 64 - 1"
    using div_le_dividend[of "unat t - unat (period_end st)" "unat (period st)"] by linarith
  then have "unat (compute_next_period_end st t) = min (unat (period_end st) +
      min (unat (period st) * ((unat t - unat (period_end st)) div unat (period st) + 1)) (2 ^ 64 - 1)) (2 ^ 64 - 1)"
    by (simp add: compute_next_period_end_def Let_def unat_saturating_add unat_saturating_mul unat_saturating_sub unat_div)
  then show ?thesis by (simp add: min_def)
qed

lemma compute_next_period_end_later:
  assumes "period st \<noteq> 0" "period_end st \<le> t" "t \<noteq> - 1"
  shows "t < compute_next_period_end st t"
proof -
  define pe p n where d: "pe = unat (period_end st)" "p = unat (period st)" "n = unat t"
  have p: "0 < p" using assms(1) by (simp add: d unat_gt_0)
  have pe: "pe \<le> n" using assms(2) by (simp add: d word_le_nat_alt)
  have n: "n < 2 ^ 64 - 1" using unat_less_max[OF assms(3)] by (simp add: d)
  have "n - pe < p * ((n - pe) div p) + p" using p by (metis add.commute dividend_less_times_div mult.commute)
  then have "n < pe + p * ((n - pe) div p + 1)" using pe by (simp add: algebra_simps)
  then have "n < min (pe + p * ((n - pe) div p + 1)) (2 ^ 64 - 1)" using n by simp
  then show ?thesis using unat_next_period_end[OF assms] by (simp add: word_less_nat_alt d)
qed

lemma next_period_end_stable:
  assumes "period st \<noteq> 0" "period_end st \<le> t" "t \<le> t'" "t' < compute_next_period_end st t"
  shows "compute_next_period_end st t' = compute_next_period_end st t"
proof -
  define pe p n n' where d: "pe = unat (period_end st)" "p = unat (period st)" "n = unat t" "n' = unat t'"
  have nm: "t' \<noteq> - 1" using assms(4) word_n1_ge[of "compute_next_period_end st t"] by auto
  then have nm': "t \<noteq> - 1" using assms(3) word_n1_ge[of t'] by (auto dest: antisym)
  have p: "0 < p" using assms(1) by (simp add: d unat_gt_0)
  have le: "pe \<le> n" "n \<le> n'" using assms(2,3) by (simp_all add: d word_le_nat_alt)
  note eq = unat_next_period_end[OF assms(1,2) nm', folded d]
    unat_next_period_end[OF assms(1) order_trans[OF assms(2,3)] nm, folded d]
  let ?k = "(n - pe) div p" and ?k' = "(n' - pe) div p"
  have kk: "?k \<le> ?k'" using le by (intro div_le_mono) simp
  have "min (pe + p * (?k + 1)) (2 ^ 64 - 1) = min (pe + p * (?k' + 1)) (2 ^ 64 - 1)"
  proof (cases "pe + p * (?k + 1) \<le> 2 ^ 64 - 1")
    case True
    then have "n' < pe + p * (?k + 1)"
      using assms(4) eq(1) by (simp add: word_less_nat_alt d min_def)
    then have "n' - pe < p * (?k + 1)" using le by linarith
    then have "?k' < ?k + 1" using p by (simp add: less_mult_imp_div_less mult.commute)
    with kk have "?k' = ?k" by linarith
    then show ?thesis by simp
  next
    case False
    moreover have "p * (?k + 1) \<le> p * (?k' + 1)" using kk by (intro mult_le_mono) auto
    ultimately have "\<not> pe + p * (?k' + 1) \<le> 2 ^ 64 - 1" by linarith
    with False show ?thesis by (simp only: min_def if_False)
  qed
  with eq show ?thesis by (simp add: word_unat_eq_iff)
qed

lemma row_remaining_not_sentinel:
  "is_t7 h \<Longrightarrow> period st \<noteq> 0 \<Longrightarrow> row_remaining h st \<noteq> ZERO_PERIODIC_REMAINING_SENTINEL"
  by (simp add: row_remaining_def ZERO_PERIODIC_REMAINING_SENTINEL_def)

lemma unat_ucast_128: "unat (ucast (w :: u128) :: u256) = unat w"
  by (rule unat_ucast_up) simp

lemma ucast_128_not_sentinel: "(ucast (w :: u128) :: u256) \<noteq> ZERO_PERIODIC_REMAINING_SENTINEL"
proof
  assume "(ucast w :: u256) = ZERO_PERIODIC_REMAINING_SENTINEL"
  then have "unat w = 2 ^ 256 - 1"
    using unat_ucast_128[of w] by (simp add: ZERO_PERIODIC_REMAINING_SENTINEL_def)
  moreover have "unat w < 2 ^ 128" using unsigned_less[of w] by simp
  ultimately show False by simp
qed

lemma row_spend_Some:
  assumes "row_spend h st t amount = Some st'" "t \<noteq> - 1"
  shows "amount \<le> fst (row_effective h st t)"
    and "period st = 0 \<or> t' < snd (row_effective h st t) \<Longrightarrow>
      row_effective h st' t' = (fst (row_effective h st t) - amount, snd (row_effective h st t))"
    and "period st' = period st" and "limit_max st' = limit_max st"
    and "period st \<noteq> 0 \<Longrightarrow> t < snd (row_effective h st t)"
proof -
  obtain rem pe where eff: "row_effective h st t = (rem, pe)" by fastforce
  from assms(1) eff have le: "amount \<le> rem"
    and st': "st' = (if period st = 0 then st\<lparr>remaining := rem - amount\<rparr>
      else st\<lparr>period_end := pe,
              remaining := (if is_t7 h \<and> rem - amount = 0 then ZERO_PERIODIC_REMAINING_SENTINEL else rem - amount)\<rparr>)"
    by (auto simp: row_spend_def Let_def not_less split: if_splits)
  show "amount \<le> fst (row_effective h st t)" using le eff by simp
  show "period st' = period st" "limit_max st' = limit_max st" by (simp_all add: st')
  show "period st \<noteq> 0 \<Longrightarrow> t < snd (row_effective h st t)"
    using compute_next_period_end_later[OF _ _ assms(2), of st] by (auto simp: row_effective_def not_less)
  assume t': "period st = 0 \<or> t' < snd (row_effective h st t)"
  show "row_effective h st' t' = (fst (row_effective h st t) - amount, snd (row_effective h st t))"
  proof (cases "period st = 0")
    case True
    then show ?thesis using eff by (auto simp: st' row_effective_def)
  next
    case False
    have "rem \<noteq> ZERO_PERIODIC_REMAINING_SENTINEL" if "is_t7 h"
      using eff False row_remaining_not_sentinel[OF that False] ucast_128_not_sentinel
      by (auto simp: row_effective_def split: if_splits)
    then have "rem - amount \<noteq> ZERO_PERIODIC_REMAINING_SENTINEL" if "is_t7 h"
      using that le unat_less_max[of rem] unat_max_word[where ?'a = 256]
      unfolding ZERO_PERIODIC_REMAINING_SENTINEL_def
      by (metis diff_le_self leD unat_sub)
    then show ?thesis using False t' eff by (auto simp: st' row_effective_def row_remaining_def)
  qed
qed

section \<open>The keychain follows the rows\<close>

definition limit_row :: "env \<Rightarrow> address \<Rightarrow> address \<Rightarrow> address \<Rightarrow> account_keychain \<Rightarrow> spending_limit_state" where
  "limit_row e account key_id token s = spending_limits s (spending_limit_key e account key_id) token"

definition with_row ::
  "env \<Rightarrow> address \<Rightarrow> address \<Rightarrow> address \<Rightarrow> spending_limit_state \<Rightarrow> account_keychain \<Rightarrow> account_keychain" where
  "with_row e account key_id token st s =
     (let k = spending_limit_key e account key_id in
      s\<lparr>spending_limits := (spending_limits s)(k := (spending_limits s k)(token := st))\<rparr>)"

lemma limit_row_with_row [simp]: "limit_row e a k token (with_row e a k token st s) = st"
  by (simp add: limit_row_def with_row_def Let_def)

lemma keys_with_row [simp]: "keys (with_row e a k token st s) = keys s"
  by (simp add: with_row_def Let_def)

lemma load_active_key_with_row [simp]:
  "load_active_key a k t (with_row e a' k' token st s) = load_active_key a k t s"
  by (simp add: load_active_key_def)

lemma effective_limit_state_row:
  assumes "is_t3 (spec e)" "key_id \<noteq> 0" "load_active_key account key_id t s = Inr key"
  shows "effective_limit_state account key_id token t e s =
    row_effective (spec e) (limit_row e account key_id token s) t"
proof -
  have "\<not> is_revoked (keys s account key_id)" "expiry (keys s account key_id) \<noteq> 0" "\<not> t \<ge> expiry (keys s account key_id)"
    using assms(3) by (auto simp: load_active_key_def Let_def split: if_splits)
  then show ?thesis
    using assms(1,2)
    by (auto simp: effective_limit_state_def effective_limit_state_with_key_def limit_row_def Let_def
        row_effective_def row_remaining_def compute_next_period_end_def)
qed

lemma active_key_not_max:
  "load_active_key account key_id t s = Inr key \<Longrightarrow> t \<noteq> - 1"
proof -
  assume "load_active_key account key_id t s = Inr key"
  then have "t < expiry (keys s account key_id)"
    by (auto simp: load_active_key_def Let_def not_le split: if_splits)
  moreover have "expiry (keys s account key_id) \<le> - 1" by (rule word_n1_ge)
  ultimately show "t \<noteq> - 1" by auto
qed

lemma verify_and_update_spending_eq:
  assumes "is_t3 (spec e)" "key_id \<noteq> 0"
  shows "verify_and_update_spending account key_id token amount e s =
    (case load_active_key account key_id (now64 e) s of
       Inl err \<Rightarrow> Inl err
     | Inr key \<Rightarrow>
         if \<not> enforce_limits key then Inr ((), s, [])
         else (case row_spend (spec e) (limit_row e account key_id token s) (now64 e) amount of
                 None \<Rightarrow> Inl (KeychainErr SpendingLimitExceeded)
               | Some st' \<Rightarrow> Inr ((), with_row e account key_id token st' s,
                   [(ACCOUNT_KEYCHAIN_ADDRESS, KeychainEvent (AccessKeySpend account key_id token amount
                       (fst (row_effective (spec e) (limit_row e account key_id token s) (now64 e)) - amount)))])))"
proof (cases "load_active_key account key_id (now64 e) s")
  case (Inl err)
  then show ?thesis using assms by (simp add: verify_and_update_spending_def exec_simps)
next
  case (Inr key)
  let ?st = "limit_row e account key_id token s"
  show ?thesis
  proof (cases "enforce_limits key")
    case False
    then show ?thesis using Inr assms by (simp add: verify_and_update_spending_def exec_simps)
  next
    case True
    have st: "spending_limits s (spending_limit_key e account key_id) token = ?st" by (simp add: limit_row_def)
    show ?thesis
      using Inr True assms
      by (cases "period ?st = 0"; cases "now64 e < period_end ?st")
        (auto simp: verify_and_update_spending_def exec_simps st Let_def row_spend_def row_effective_def
          row_remaining_def set_limit_def set_remaining_def emit_kc_def with_row_def row_same_period_end not_less)
  qed
qed

section \<open>Spending in a window\<close>

text \<open>The instants of the accounting window that contains \<open>t\<close>.\<close>

definition in_window :: "tempo_hardfork \<Rightarrow> spending_limit_state \<Rightarrow> u64 \<Rightarrow> u64 \<Rightarrow> bool" where
  "in_window h st t t' \<longleftrightarrow> period st = 0 \<or> (t \<le> t' \<and> t' < snd (row_effective h st t))"

lemma row_effective_in_window:
  assumes "in_window h st t t'" shows "row_effective h st t' = row_effective h st t"
proof (cases "period st = 0 \<or> t < period_end st")
  case True
  then show ?thesis using assms by (auto simp: in_window_def row_effective_def split: if_splits)
next
  case False
  then have "t \<le> t'" "t' < compute_next_period_end st t" "period_end st \<le> t"
    using assms by (auto simp: in_window_def row_effective_def split: if_splits)
  moreover from this have "\<not> t < period_end st" "\<not> t' < period_end st" by auto
  ultimately show ?thesis
    using next_period_end_stable[of st t t'] False by (simp add: row_effective_def)
qed

text \<open>
  What a key spends of a token by a sequence of attempts at given times; an attempt that
  fails is reverted.
\<close>

fun spend_all :: "address \<Rightarrow> address \<Rightarrow> address \<Rightarrow> env \<Rightarrow> (u256 \<times> u256) list \<Rightarrow> account_keychain \<Rightarrow> nat" where
  "spend_all account key_id token e [] s = 0"
| "spend_all account key_id token e ((t, amount) # xs) s =
     (case verify_and_update_spending account key_id token amount (e\<lparr>timestamp := t\<rparr>) s of
        Inl _ \<Rightarrow> spend_all account key_id token e xs s
      | Inr (_, s', _) \<Rightarrow> unat amount + spend_all account key_id token e xs s')"

lemma spending_limit_key_timestamp [simp]:
  "spending_limit_key (e\<lparr>timestamp := t\<rparr>) account key_id = spending_limit_key e account key_id"
  by (simp add: spending_limit_key_def)

lemma with_row_timestamp [simp]: "with_row (e\<lparr>timestamp := t\<rparr>) = with_row e" "limit_row (e\<lparr>timestamp := t\<rparr>) = limit_row e"
  by (simp_all add: with_row_def limit_row_def fun_eq_iff)

lemma spend_all_bounded:
  assumes "is_t3 (spec e)" "key_id \<noteq> 0" "enforce_limits (keys s account key_id)"
    and "\<And>t amount. (t, amount) \<in> set xs \<Longrightarrow>
      row_effective (spec e) (limit_row e account key_id token s) (now64 (e\<lparr>timestamp := t\<rparr>)) = (rem, pe)"
    and "period (limit_row e account key_id token s) \<noteq> 0 \<Longrightarrow>
      (\<And>t amount. (t, amount) \<in> set xs \<Longrightarrow> now64 (e\<lparr>timestamp := t\<rparr>) < pe)"
  shows "spend_all account key_id token e xs s \<le> unat rem"
  using assms(3-5)
proof (induction xs arbitrary: s rem)
  case Nil
  then show ?case by simp
next
  case (Cons x xs)
  obtain t amount where x: "x = (t, amount)" by fastforce
  let ?e = "e\<lparr>timestamp := t\<rparr>" and ?st = "limit_row e account key_id token s"
  have t3: "is_t3 (spec ?e)" using assms(1) by simp
  note eq = verify_and_update_spending_eq[OF t3 assms(2), of account token amount s]
  have eff: "row_effective (spec e) ?st (now64 ?e) = (rem, pe)" using Cons.prems(2)[of t amount] x by simp
  show ?case
  proof (cases "verify_and_update_spending account key_id token amount ?e s")
    case (Inl err)
    then show ?thesis using Cons.IH[of s rem] Cons.prems x by auto
  next
    case (Inr res)
    obtain key where key: "load_active_key account key_id (now64 ?e) s = Inr key"
      using Inr eq by (cases "load_active_key account key_id (now64 ?e) s") auto
    then have "key = keys s account key_id" by (auto simp: load_active_key_def Let_def split: if_splits)
    then obtain st' l where sp: "row_spend (spec e) ?st (now64 ?e) amount = Some st'"
      and res: "res = ((), with_row e account key_id token st' s, l)"
      using Inr eq key Cons.prems(1) by (auto split: option.splits)
    note rs = row_spend_Some[OF sp active_key_not_max[OF key]]
    have le: "amount \<le> rem" using rs(1) eff by simp
    have "spend_all account key_id token e xs (with_row e account key_id token st' s) \<le> unat (rem - amount)"
    proof (rule Cons.IH)
      show "enforce_limits (keys (with_row e account key_id token st' s) account key_id)"
        using Cons.prems(1) by simp
      fix t' amount' assume mem: "(t', amount') \<in> set xs"
      have "period ?st = 0 \<or> now64 (e\<lparr>timestamp := t'\<rparr>) < snd (row_effective (spec e) ?st (now64 ?e))"
        using Cons.prems(3)[of t' amount'] mem eff x by auto
      from rs(2)[OF this] show "row_effective (spec e) (limit_row e account key_id token (with_row e account key_id token st' s))
          (now64 (e\<lparr>timestamp := t'\<rparr>)) = (rem - amount, pe)" using eff by simp
      assume "period (limit_row e account key_id token (with_row e account key_id token st' s)) \<noteq> 0"
      then show "now64 (e\<lparr>timestamp := t'\<rparr>) < pe" using Cons.prems(3)[of t' amount'] mem x rs(3) by auto
    qed
    with le have "unat amount + spend_all account key_id token e xs (with_row e account key_id token st' s) \<le> unat rem"
      by (simp add: unat_sub word_le_nat_alt)
    then show ?thesis using x Inr res by simp
  qed
qed

section \<open>Refunds\<close>

definition row_refund :: "tempo_hardfork \<Rightarrow> spending_limit_state \<Rightarrow> u256 \<Rightarrow> spending_limit_state" where
  "row_refund h st amount =
     (let refunded = (if is_t7 h \<and> period st \<noteq> 0 \<and> remaining st = ZERO_PERIODIC_REMAINING_SENTINEL
                      then amount else saturating_add (remaining st) amount) in
      st\<lparr>remaining := (if limit_max st = 0 then refunded else min refunded (ucast (limit_max st)))\<rparr>)"

lemma refund_spending_limit_eq:
  assumes "is_t3 (spec e)"
  shows "refund_spending_limit account token amount e s =
    Inr ((), (case load_active_key account (transaction_key s) (now64 e) s of
        Inl _ \<Rightarrow> s
      | Inr key \<Rightarrow>
          if transaction_key s = 0 \<or> account \<noteq> tx_origin s \<or> \<not> enforce_limits key then s
          else with_row e account (transaction_key s) token
                 (row_refund (spec e) (limit_row e account (transaction_key s) token s) amount) s), [])"
proof (cases "load_active_key account (transaction_key s) (now64 e) s")
  case (Inl err)
  then have "\<not> is_system_error err" by (auto simp: load_active_key_def Let_def split: if_splits)
  with Inl show ?thesis by (auto simp: refund_spending_limit_def exec_simps)
next
  case (Inr key)
  then show ?thesis
    using assms
    by (auto simp: refund_spending_limit_def exec_simps Let_def with_row_def limit_row_def row_refund_def set_limit_def)
qed

lemma row_spend_refund:
  assumes "row_spend h st t amount = Some st'" "t \<noteq> - 1" "r \<le> amount"
    and "limit_max st = 0 \<or> fst (row_effective h st t) \<le> ucast (limit_max st)"
  shows "row_effective h (row_refund h st' r) t =
    (fst (row_effective h st t) - amount + r, snd (row_effective h st t))"
proof -
  obtain rem pe where eff: "row_effective h st t = (rem, pe)" by fastforce
  note sp = row_spend_Some[OF assms(1,2)]
  have le: "unat amount \<le> unat rem" "unat r \<le> unat amount"
    using sp(1) eff assms(3) by (simp_all add: word_le_nat_alt)
  have un: "unat (rem - amount + r) = unat rem - unat amount + unat r"
    using le unat_bound[of rem] by (simp add: unat_word_ariths unat_sub word_le_nat_alt)
  have "unat (rem - amount) + unat r < 2 ^ 256"
    using le unat_bound[of rem] by (simp add: unat_sub word_le_nat_alt)
  then have sat: "saturating_add (rem - amount) r = rem - amount + r"
    by (simp add: saturating_add_def)
  have mn: "(if limit_max st' = 0 then rem - amount + r else min (rem - amount + r) (ucast (limit_max st'))) = rem - amount + r"
    using assms(4) eff le un sp(4) by (auto simp: min_def word_le_nat_alt)
  have t': "period st = 0 \<or> t < pe" using sp(5) eff by auto
  have eff': "row_effective h st' t = (rem - amount, pe)" using sp(2)[of t] t' eff by simp
  show ?thesis
  proof (cases "period st = 0")
    case True
    then have "row_effective h st' t = (remaining st', 0)" using sp(3) by (simp add: row_effective_def)
    with eff' True show ?thesis using sp(3) eff mn sat
      by (auto simp: row_effective_def row_refund_def Let_def)
  next
    case False
    have "period_end st' = pe"
      using assms(1) eff False by (auto simp: row_spend_def Let_def split: if_splits)
    then have now: "t < period_end st'" using t' False by simp
    have remd: "row_remaining h st' = rem - amount" using eff' now False sp(3) by (simp add: row_effective_def)
    have "rem - amount = 0" if "is_t7 h" "remaining st' = ZERO_PERIODIC_REMAINING_SENTINEL"
      using remd that False sp(3) by (auto simp: row_remaining_def)
    then have ref: "remaining (row_refund h st' r) = rem - amount + r"
      using mn sat remd False sp(3) by (auto simp: row_refund_def Let_def row_remaining_def split: if_splits)
    have "rem - amount + r \<noteq> ZERO_PERIODIC_REMAINING_SENTINEL" if "is_t7 h"
    proof -
      have "rem \<noteq> - 1"
        using eff False row_remaining_not_sentinel[OF that False] ucast_128_not_sentinel
        by (auto simp: row_effective_def ZERO_PERIODIC_REMAINING_SENTINEL_def split: if_splits)
      then have "unat (rem - amount + r) < 2 ^ 256 - 1" using unat_less_max[of rem] un le by simp
      then show ?thesis using unat_max_word[where ?'a = 256] by (auto simp: ZERO_PERIODIC_REMAINING_SENTINEL_def)
    qed
    then show ?thesis
      using ref False sp(3) now eff \<open>period_end st' = pe\<close>
      by (auto simp: row_effective_def row_remaining_def row_refund_def Let_def)
  qed
qed

section \<open>Reported limits\<close>

text \<open>An active key with limits: refused beyond the reported limit, charged exactly up to it.\<close>

lemma verify_spending_limited:
  assumes "is_t3 (spec e)" and "key_id \<noteq> 0"
    and "load_active_key account key_id (now64 e) s = Inr key" and "enforce_limits key"
  shows "fst (get_remaining_limit_with_period account key_id token e s) < amount \<Longrightarrow>
      verify_and_update_spending account key_id token amount e s = Inl (KeychainErr SpendingLimitExceeded)"
    and "amount \<le> fst (get_remaining_limit_with_period account key_id token e s) \<Longrightarrow>
      \<exists>st' l. verify_and_update_spending account key_id token amount e s = Inr ((), with_row e account key_id token st' s, l) \<and>
        get_remaining_limit_with_period account key_id token e (with_row e account key_id token st' s) =
          (fst (get_remaining_limit_with_period account key_id token e s) - amount,
           snd (get_remaining_limit_with_period account key_id token e s))"
proof -
  let ?st = "limit_row e account key_id token s"
  have eff: "get_remaining_limit_with_period account key_id token e s' = row_effective (spec e) (limit_row e account key_id token s') (now64 e)"
    if "load_active_key account key_id (now64 e) s' = Inr key" for s'
    using effective_limit_state_row[OF assms(1,2) that] by (simp add: get_remaining_limit_with_period_def)
  have spend: "row_spend (spec e) ?st (now64 e) amount = None \<longleftrightarrow> fst (get_remaining_limit_with_period account key_id token e s) < amount"
    by (auto simp: eff[OF assms(3)] row_spend_def Let_def split: prod.splits)
  show "verify_and_update_spending account key_id token amount e s = Inl (KeychainErr SpendingLimitExceeded)"
    if "fst (get_remaining_limit_with_period account key_id token e s) < amount"
    using that spend assms by (simp add: verify_and_update_spending_eq)
  assume "amount \<le> fst (get_remaining_limit_with_period account key_id token e s)"
  then obtain st' where some: "row_spend (spec e) ?st (now64 e) amount = Some st'" using spend by (auto simp: not_le)
  note sp = row_spend_Some[OF some active_key_not_max[OF assms(3)]]
  have "period ?st = 0 \<or> now64 e < snd (row_effective (spec e) ?st (now64 e))" using sp(5) by blast
  from sp(2)[OF this] show "\<exists>st' l. verify_and_update_spending account key_id token amount e s = Inr ((), with_row e account key_id token st' s, l) \<and>
        get_remaining_limit_with_period account key_id token e (with_row e account key_id token st' s) =
          (fst (get_remaining_limit_with_period account key_id token e s) - amount,
           snd (get_remaining_limit_with_period account key_id token e s))"
    using some assms eff[of s] eff[of "with_row e account key_id token st' s"]
    by (intro exI[of _ st']) (simp add: verify_and_update_spending_eq)
qed

lemma with_row_frame:
  "key_scopes (with_row e a k token st s) = key_scopes s" "transaction_key (with_row e a k token st s) = transaction_key s"
  "tx_origin (with_row e a k token st s) = tx_origin s"
  "(k', t) \<noteq> (spending_limit_key e a k, token) \<Longrightarrow> spending_limits (with_row e a k token st s) k' t = spending_limits s k' t"
  by (auto simp: with_row_def Let_def)

section \<open>Properties\<close>

text \<open>Claim C5: spending is exactly metered by the limit that is reported. From T3 on, for an
  active key with limits, \<open>verify_and_update_spending\<close> fails, with the limit error, exactly when
  the amount exceeds the effective remaining limit that \<open>get_remaining_limit_with_period\<close> reports,
  period rollover and the stored zero sentinel included; when it succeeds the reported limit
  drops by exactly the amount, with the same period end, and no key and no other row changes.\<close>

theorem spending_follows_limit:
  assumes "is_t3 (spec e)" and "key_id \<noteq> 0"
    and "load_active_key account key_id (now64 e) s = Inr key" and "enforce_limits key"
  shows "case verify_and_update_spending account key_id token amount e s of
      Inl err \<Rightarrow> err = KeychainErr SpendingLimitExceeded \<and>
        fst (get_remaining_limit_with_period account key_id token e s) < amount
    | Inr (_, s', _) \<Rightarrow>
        amount \<le> fst (get_remaining_limit_with_period account key_id token e s) \<and>
        get_remaining_limit_with_period account key_id token e s' =
          (fst (get_remaining_limit_with_period account key_id token e s) - amount,
           snd (get_remaining_limit_with_period account key_id token e s)) \<and>
        keys s' = keys s \<and> key_scopes s' = key_scopes s \<and>
        (\<forall>k t. (k, t) \<noteq> (spending_limit_key e account key_id, token) \<longrightarrow> spending_limits s' k t = spending_limits s k t)"
proof (cases "fst (get_remaining_limit_with_period account key_id token e s) < amount")
  case True
  with verify_spending_limited(1)[OF assms True] show ?thesis by simp
next
  case False
  then have le: "amount \<le> fst (get_remaining_limit_with_period account key_id token e s)" by simp
  from verify_spending_limited(2)[OF assms le] le show ?thesis by (auto simp: with_row_frame)
qed

definition spend_demo :: account_keychain where
  "spend_demo = \<lparr>keys = (\<lambda>_ _. \<lparr>key_signature_type = StoredP256, expiry = 1000, enforce_limits = True,
       is_revoked = False, is_admin = False\<rparr>),
     spending_limits = (\<lambda>_ _. \<lparr>remaining = 50, limit_max = 100, period = 60, period_end = 160\<rparr>),
     key_scopes = (\<lambda>_. \<lparr>is_scoped = False, targets = storage_of [],
       target_scopes = (\<lambda>_. \<lparr>selectors = storage_of [], selector_scopes = (\<lambda>_. storage_of [])\<rparr>)\<rparr>),
     key_authorization_witnesses = (\<lambda>_ _. False), transaction_key = 2, tx_origin = 1\<rparr>"

lemma spend_demo_active:
  "unat t < 1000 \<Longrightarrow> load_active_key 1 2 (now64 (demo_env T8 t)) spend_demo =
     Inr \<lparr>key_signature_type = StoredP256, expiry = 1000, enforce_limits = True, is_revoked = False, is_admin = False\<rparr>"
proof -
  assume t: "unat t < 1000"
  then have "unat (ucast t :: u64) < 1000" by (simp add: unsigned_ucast_eq take_bit_nat_eq_self)
  then have "\<not> (1000 :: u64) \<le> ucast t" by (simp add: word_le_nat_alt)
  with t show ?thesis by (simp add: load_active_key_def spend_demo_def now64_demo)
qed

lemma spend_demo_limit: "get_remaining_limit_with_period 1 2 3 (demo_env T8 100) spend_demo = (50, 160)"
  by (simp add: get_remaining_limit_with_period_def effective_limit_state_def effective_limit_state_with_key_def
      fork_eval now64_demo spend_demo_def Let_def ZERO_PERIODIC_REMAINING_SENTINEL_def)

theorem spending_follows_limit_witness:
  "\<exists>s' l. verify_and_update_spending 1 2 3 20 (demo_env T8 100) spend_demo = Inr ((), s', l) \<and>
     get_remaining_limit_with_period 1 2 3 (demo_env T8 100) s' = (30, 160)"
  using spending_follows_limit[OF _ _ spend_demo_active, of 100 3 20] spend_demo_limit
  by (auto simp: fork_eval split: sum.splits)

text \<open>Claim C2: no window is overspent. Whatever amounts an access key with limits tries to
  spend, in any order and at any times inside one accounting window (or at any times at all for a
  limit without period), what succeeds sums to at most the limit that was left at the beginning
  of the sequence.\<close>

theorem window_spending_bounded:
  assumes "is_t3 (spec e)" and "key_id \<noteq> 0" and "enforce_limits (keys s account key_id)"
    and "load_active_key account key_id t0 s = Inr key"
    and "list_all (\<lambda>(t, amount). in_window (spec e) (limit_row e account key_id token s) t0 (now64 (e\<lparr>timestamp := t\<rparr>))) xs"
  shows "spend_all account key_id token e xs s \<le> unat (effective_remaining_limit account key_id token t0 e s)"
proof -
  let ?st = "limit_row e account key_id token s"
  obtain rem pe where eff: "row_effective (spec e) ?st t0 = (rem, pe)" by fastforce
  have win: "in_window (spec e) ?st t0 (now64 (e\<lparr>timestamp := t\<rparr>))" if "(t, amount) \<in> set xs" for t amount
    using assms(5) that by (auto simp: list_all_iff)
  have "spend_all account key_id token e xs s \<le> unat rem"
  proof (rule spend_all_bounded[OF assms(1-3)])
    show "row_effective (spec e) ?st (now64 (e\<lparr>timestamp := t\<rparr>)) = (rem, pe)" if "(t, amount) \<in> set xs" for t amount
      using row_effective_in_window[OF win[OF that]] eff by simp
    show "now64 (e\<lparr>timestamp := t\<rparr>) < pe" if "period ?st \<noteq> 0" "(t, amount) \<in> set xs" for t amount
      using win[OF that(2)] that(1) eff by (simp add: in_window_def)
  qed
  then show ?thesis
    using effective_limit_state_row[OF assms(1,2,4)] eff by (simp add: effective_remaining_limit_def)
qed

theorem window_spending_bounded_witness:
  "spend_all 1 2 3 (demo_env T8 100) [(110, 30), (120, 40), (130, 20)] spend_demo \<le> 50"
proof -
  have key: "load_active_key 1 2 100 spend_demo = Inr (keys spend_demo 1 2)"
    by (simp add: load_active_key_def spend_demo_def Let_def)
  have now: "now64 ((demo_env T8 100)\<lparr>timestamp := t\<rparr>) = now64 (demo_env T8 t)" for t
    by (simp add: now64_def demo_env_def)
  have eff: "effective_remaining_limit 1 2 3 100 (demo_env T8 100) spend_demo = 50"
    by (simp add: effective_remaining_limit_def effective_limit_state_def effective_limit_state_with_key_def
        fork_eval spend_demo_def Let_def ZERO_PERIODIC_REMAINING_SENTINEL_def)
  have "spend_all 1 2 3 (demo_env T8 100) [(110, 30), (120, 40), (130, 20)] spend_demo
      \<le> unat (effective_remaining_limit 1 2 3 100 (demo_env T8 100) spend_demo)"
    by (rule window_spending_bounded[OF _ _ _ key])
      (simp_all add: now now64_demo fork_eval in_window_def limit_row_def spend_demo_def row_effective_def)
  then show ?thesis unfolding eff by simp
qed

text \<open>Claim C7: a fee refund gives back what was taken. If a transaction signed by an access key
  spends an amount and at most that amount is refunded in the same block, the refund succeeds and
  the reported limit is what it was before, minus the net amount, in the same window. The reported
  limit is assumed to respect the configured maximum, as every row written from T3 on does.\<close>

theorem spend_then_refund:
  assumes "is_t3 (spec e)" and "transaction_key s \<noteq> 0" and "tx_origin s = account"
    and "load_active_key account (transaction_key s) (now64 e) s = Inr key" and "enforce_limits key"
    and "verify_and_update_spending account (transaction_key s) token amount e s = Inr (u, s', l)"
    and "refund \<le> amount"
    and "limit_max (limit_row e account (transaction_key s) token s) = 0 \<or>
      fst (get_remaining_limit_with_period account (transaction_key s) token e s)
        \<le> ucast (limit_max (limit_row e account (transaction_key s) token s))"
  shows "\<exists>s''. refund_spending_limit account token refund e s' = Inr ((), s'', []) \<and>
    get_remaining_limit_with_period account (transaction_key s) token e s'' =
      (fst (get_remaining_limit_with_period account (transaction_key s) token e s) - amount + refund,
       snd (get_remaining_limit_with_period account (transaction_key s) token e s))"
proof -
  let ?k = "transaction_key s"
  let ?st = "limit_row e account ?k token s"
  have eff: "get_remaining_limit_with_period account ?k token e x = row_effective (spec e) (limit_row e account ?k token x) (now64 e)"
    if "load_active_key account ?k (now64 e) x = Inr key" for x
    using effective_limit_state_row[OF assms(1,2) that] by (simp add: get_remaining_limit_with_period_def)
  obtain st' where sp: "row_spend (spec e) ?st (now64 e) amount = Some st'" and s': "s' = with_row e account ?k token st' s"
    using assms(1,2,4-6) by (auto simp: verify_and_update_spending_eq split: option.splits)
  have tx: "transaction_key s' = ?k" "tx_origin s' = account"
    using assms(3) by (simp_all add: s' with_row_def Let_def)
  have ref: "refund_spending_limit account token refund e s' =
      Inr ((), with_row e account ?k token (row_refund (spec e) st' refund) s', [])"
    using assms(2,4,5) tx by (simp add: refund_spending_limit_eq[OF assms(1)] s')
  have "row_effective (spec e) (row_refund (spec e) st' refund) (now64 e) =
      (fst (row_effective (spec e) ?st (now64 e)) - amount + refund, snd (row_effective (spec e) ?st (now64 e)))"
    using row_spend_refund[OF sp active_key_not_max[OF assms(4)] assms(7)] assms(8) eff[OF assms(4)] by simp
  then show ?thesis using ref eff[OF assms(4)] eff[of "with_row e account ?k token (row_refund (spec e) st' refund) s'"] assms(4)
    by (simp add: s')
qed

theorem spend_then_refund_witness:
  "\<exists>s' l s''. verify_and_update_spending 1 2 3 50 (demo_env T8 100) spend_demo = Inr ((), s', l) \<and>
     refund_spending_limit 1 3 20 (demo_env T8 100) s' = Inr ((), s'', []) \<and>
     get_remaining_limit_with_period 1 2 3 (demo_env T8 100) s'' = (20, 160)"
proof -
  have tx: "transaction_key spend_demo = 2" "tx_origin spend_demo = 1" by (simp_all add: spend_demo_def)
  have t3: "is_t3 (spec (demo_env T8 100))" by (simp add: fork_eval)
  have act: "load_active_key 1 2 (now64 (demo_env T8 100)) spend_demo = Inr (keys spend_demo 1 2)"
    by (simp add: spend_demo_active) (simp add: spend_demo_def)
  have en: "enforce_limits (keys spend_demo 1 2)" by (simp add: spend_demo_def)
  have row: "limit_row (demo_env T8 100) 1 2 3 spend_demo = \<lparr>remaining = 50, limit_max = 100, period = 60, period_end = 160\<rparr>"
    by (simp add: limit_row_def spend_demo_def)
  have "row_spend T8 (limit_row (demo_env T8 100) 1 2 3 spend_demo) 100 50 \<noteq> None"
    unfolding row by (simp add: row_spend_def row_effective_def row_remaining_def ZERO_PERIODIC_REMAINING_SENTINEL_def)
  then obtain s' l where run: "verify_and_update_spending 1 2 3 50 (demo_env T8 100) spend_demo = Inr ((), s', l)"
    using act en t3 by (auto simp: verify_and_update_spending_eq now64_demo)
  then show ?thesis
    using spend_then_refund[where s = spend_demo and e = "demo_env T8 100" and refund = 20, unfolded tx, OF t3 _ _ act en run]
    by (auto simp: spend_demo_limit row word_le_nat_alt)
qed

end
