(* ===== verification/TIP20_Ledger.thy ===== *)
theory TIP20_Ledger
  imports Tempo_Types
begin

text \<open>
  The part of a TIP-20 token that only touches its own storage
  (\<open>precompiles/src/tip20/mod.rs\<close>, \<open>rewards.rs\<close>, \<open>roles.rs\<close>): balances, allowances, supply,
  roles, metadata and the opt-in reward accounting. Every operation takes the token's own
  address \<open>self\<close> where the code reads \<open>self.address\<close>.

  The invariant of this storage is in theory \<open>TIP20_Accounting\<close>.
\<close>

section \<open>Storage\<close>

definition U128_MAX :: u256 where
  "U128_MAX = 0xffffffffffffffffffffffffffffffff"

definition ACC_PRECISION :: u256 where
  "ACC_PRECISION = 1000000000000000000"

definition DEFAULT_ADMIN_ROLE :: b256 where "DEFAULT_ADMIN_ROLE = 0"
definition UNGRANTABLE_ROLE :: b256 where "UNGRANTABLE_ROLE = - 1"
definition PAUSE_ROLE :: b256 where
  "PAUSE_ROLE = 0x139c2898040ef16910dc9f44dc697df79363da767d8bc92f2e310312b816e46d"
definition UNPAUSE_ROLE :: b256 where
  "UNPAUSE_ROLE = 0x265b220c5a8891efdd9e1b1b7fa72f257bd5169f8d87e319cf3dad6ff52b94ae"
definition ISSUER_ROLE :: b256 where
  "ISSUER_ROLE = 0x114e74f6ea3bd819998f78687bfcb11b140da08e9b7d222fa9c1f1ba1f2aa122"
definition BURN_BLOCKED_ROLE :: b256 where
  "BURN_BLOCKED_ROLE = 0x7408fdc0d31c7bcb349eab611f5d1168acd4303574993f8cdc98b1cd18c41cae"

definition PERMIT_TYPEHASH :: b256 where
  "PERMIT_TYPEHASH = 0x6e71edae12b1b97f4d1f60370fef10105fa2faae0126114a169c64845d6126c9"
definition EIP712_DOMAIN_TYPEHASH :: b256 where
  "EIP712_DOMAIN_TYPEHASH = 0x8b73c3c69bb8fe3d512ecc4cf759cc79239f7b179b0ffacaa9a75d522b39400f"
definition VERSION_HASH :: b256 where
  "VERSION_HASH = 0xc89efdaa54c0f20c7adf612882df0950f5a951637e0307cdcb4c672f298b8bc6"

definition USD_CURRENCY :: string where "USD_CURRENCY = ''USD''"

record user_reward_info =
  reward_recipient :: address
  reward_per_token :: u256
  reward_balance :: u256

record tip20_token =
  roles :: "address \<Rightarrow> b256 \<Rightarrow> bool"
  role_admins :: "b256 \<Rightarrow> b256"
  tok_name :: string
  tok_symbol :: string
  currency :: string
  logo_uri :: string
  quote_token :: address
  next_quote_token :: address
  legacy_transfer_policy_id :: u64
  total_supply :: u256
  balances :: "address \<Rightarrow> u256"
  allowances :: "address \<Rightarrow> address \<Rightarrow> u256"
  permit_nonces :: "address \<Rightarrow> u256"
  paused :: bool
  supply_cap :: u256
  global_reward_per_token :: u256
  opted_in_supply :: u128
  reward_infos :: "address \<Rightarrow> user_reward_info"

record recipient =
  target :: address
  virtual_addr :: "address option"

definition direct :: "address \<Rightarrow> recipient" where
  "direct a = \<lparr>target = a, virtual_addr = None\<rparr>"

definition original_address :: "recipient \<Rightarrow> address" where
  "original_address to = (case virtual_addr to of Some v \<Rightarrow> v | None \<Rightarrow> target to)"

definition recipient_validate :: "recipient \<Rightarrow> tempo_error + unit" where
  "recipient_validate to =
     rensure (\<not> (target to = ADDRESS_ZERO \<or> is_tip20_prefix (target to))) (TIP20Err InvalidRecipient)"

definition build_transfer_event :: "recipient \<Rightarrow> address \<Rightarrow> u256 \<Rightarrow> tip20_event" where
  "build_transfer_event to from amount = Transfer from (original_address to) amount"

definition build_virtual_transfer_event :: "recipient \<Rightarrow> u256 \<Rightarrow> tip20_event option" where
  "build_virtual_transfer_event to amount =
     map_option (\<lambda>v. Transfer v (target to) amount) (virtual_addr to)"

definition emit20 :: "address \<Rightarrow> tip20_event \<Rightarrow> (tip20_token, unit) op" where
  "emit20 self ev = emit (self, TIP20Event ev)"

definition emit_hop :: "address \<Rightarrow> recipient \<Rightarrow> u256 \<Rightarrow> (tip20_token, unit) op" where
  "emit_hop self to amount =
     (case build_virtual_transfer_event to amount of None \<Rightarrow> ret () | Some hop \<Rightarrow> emit20 self hop)"

section \<open>Roles\<close>

definition emit_role :: "address \<Rightarrow> roles_auth_event \<Rightarrow> (tip20_token, unit) op" where
  "emit_role self ev = emit (self, RolesAuthEvent ev)"

definition check_role :: "address \<Rightarrow> b256 \<Rightarrow> (tip20_token, unit) op" where
  "check_role account role =
     bind (gets (\<lambda>t. roles t account role)) (\<lambda>has.
     ensure has (RolesAuthErr RoleUnauthorized))"

definition set_role :: "address \<Rightarrow> b256 \<Rightarrow> bool \<Rightarrow> (tip20_token, unit) op" where
  "set_role account role b =
     modify (\<lambda>t. t\<lparr>roles := (roles t)(account := (roles t account)(role := b))\<rparr>)"

definition grant_role_internal :: "address \<Rightarrow> b256 \<Rightarrow> (tip20_token, unit) op" where
  "grant_role_internal account role = set_role account role True"

definition revoke_role_internal :: "address \<Rightarrow> b256 \<Rightarrow> (tip20_token, unit) op" where
  "revoke_role_internal account role = set_role account role False"

definition set_role_admin_internal :: "b256 \<Rightarrow> b256 \<Rightarrow> (tip20_token, unit) op" where
  "set_role_admin_internal role admin_role =
     modify (\<lambda>t. t\<lparr>role_admins := (role_admins t)(role := admin_role)\<rparr>)"

definition initialize_roles :: "(tip20_token, unit) op" where
  "initialize_roles = set_role_admin_internal UNGRANTABLE_ROLE UNGRANTABLE_ROLE"

definition grant_default_admin :: "address \<Rightarrow> address \<Rightarrow> address \<Rightarrow> (tip20_token, unit) op" where
  "grant_default_admin self msg_sender admin =
     bind (grant_role_internal admin DEFAULT_ADMIN_ROLE) (\<lambda>_.
     emit_role self (RoleMembershipUpdated DEFAULT_ADMIN_ROLE admin msg_sender True))"

definition grant_role :: "address \<Rightarrow> address \<Rightarrow> b256 \<Rightarrow> address \<Rightarrow> (tip20_token, unit) op" where
  "grant_role self msg_sender role account =
     bind (gets (\<lambda>t. role_admins t role)) (\<lambda>admin_role.
     bind (check_role msg_sender admin_role) (\<lambda>_.
     bind (grant_role_internal account role) (\<lambda>_.
     emit_role self (RoleMembershipUpdated role account msg_sender True))))"

definition revoke_role :: "address \<Rightarrow> address \<Rightarrow> b256 \<Rightarrow> address \<Rightarrow> (tip20_token, unit) op" where
  "revoke_role self msg_sender role account =
     bind (gets (\<lambda>t. role_admins t role)) (\<lambda>admin_role.
     bind (check_role msg_sender admin_role) (\<lambda>_.
     bind (revoke_role_internal account role) (\<lambda>_.
     emit_role self (RoleMembershipUpdated role account msg_sender False))))"

definition renounce_role :: "address \<Rightarrow> address \<Rightarrow> b256 \<Rightarrow> (tip20_token, unit) op" where
  "renounce_role self msg_sender role =
     bind (check_role msg_sender role) (\<lambda>_.
     bind (revoke_role_internal msg_sender role) (\<lambda>_.
     emit_role self (RoleMembershipUpdated role msg_sender msg_sender False)))"

definition set_role_admin :: "address \<Rightarrow> address \<Rightarrow> b256 \<Rightarrow> b256 \<Rightarrow> (tip20_token, unit) op" where
  "set_role_admin self msg_sender role admin_role =
     bind (gets (\<lambda>t. role_admins t role)) (\<lambda>current_admin_role.
     bind (check_role msg_sender current_admin_role) (\<lambda>_.
     bind (set_role_admin_internal role admin_role) (\<lambda>_.
     emit_role self (RoleAdminUpdated role admin_role msg_sender))))"

section \<open>Balances and allowances\<close>

definition check_not_paused :: "(tip20_token, unit) op" where
  "check_not_paused = bind (gets paused) (\<lambda>p. ensure (\<not> p) (TIP20Err ContractPaused))"

definition set_balance :: "address \<Rightarrow> u256 \<Rightarrow> (tip20_token, unit) op" where
  "set_balance account amount = modify (\<lambda>t. t\<lparr>balances := (balances t)(account := amount)\<rparr>)"

definition set_allowance :: "address \<Rightarrow> address \<Rightarrow> u256 \<Rightarrow> (tip20_token, unit) op" where
  "set_allowance owner spender amount =
     modify (\<lambda>t. t\<lparr>allowances := (allowances t)(owner := (allowances t owner)(spender := amount))\<rparr>)"

definition set_total_supply :: "u256 \<Rightarrow> (tip20_token, unit) op" where
  "set_total_supply amount = modify (\<lambda>t. t\<lparr>total_supply := amount\<rparr>)"

definition increment_balance :: "address \<Rightarrow> u256 \<Rightarrow> (tip20_token, unit) op" where
  "increment_balance account amount =
     bind (map_err (\<lambda>err. if err = under_overflow then TIP20Err SupplyCapExceeded else err)
             (query (\<lambda>_ t. sinc (balances t account) amount))) (\<lambda>new.
     set_balance account new)"

definition decrement_balance :: "address \<Rightarrow> address \<Rightarrow> u256 \<Rightarrow> (tip20_token, unit) op" where
  "decrement_balance self account amount =
     bind (map_err (\<lambda>err. case err of
                       StorageDeltaUnderflow current \<Rightarrow> TIP20Err (InsufficientBalance current amount self)
                     | _ \<Rightarrow> err)
             (query (\<lambda>_ t. sdec (balances t account) amount))) (\<lambda>new.
     set_balance account new)"

definition consume_allowance :: "address \<Rightarrow> address \<Rightarrow> u256 \<Rightarrow> (tip20_token, unit) op" where
  "consume_allowance owner spender amount =
     bind (gets (\<lambda>t. allowances t owner spender)) (\<lambda>allowed.
     bind (ensure (\<not> amount > allowed) (TIP20Err InsufficientAllowance)) (\<lambda>_.
     if allowed \<noteq> - 1
     then bind (ok_or (checked_sub allowed amount) (TIP20Err InsufficientAllowance)) (\<lambda>new_allowance.
          set_allowance owner spender new_allowance)
     else ret ()))"

section \<open>Rewards\<close>

definition set_reward_info :: "address \<Rightarrow> user_reward_info \<Rightarrow> (tip20_token, unit) op" where
  "set_reward_info a info = modify (\<lambda>t. t\<lparr>reward_infos := (reward_infos t)(a := info)\<rparr>)"

text \<open>
  The opted-in supply is kept as \<open>u128\<close>; its updates widen to 256 bits, add or subtract with
  a check, and narrow again with a check.
\<close>

definition set_opted_in :: "u256 option \<Rightarrow> (tip20_token, unit) op" where
  "set_opted_in v =
     bind (ok_or v under_overflow) (\<lambda>w.
     bind (ok_or (try_into w) under_overflow) (\<lambda>n.
     modify (\<lambda>t. t\<lparr>opted_in_supply := n\<rparr>)))"

definition add_opted_in :: "u256 \<Rightarrow> (tip20_token, unit) op" where
  "add_opted_in amount =
     bind (gets opted_in_supply) (\<lambda>o_i. set_opted_in (checked_add (ucast o_i) amount))"

definition sub_opted_in :: "u256 \<Rightarrow> (tip20_token, unit) op" where
  "sub_opted_in amount =
     bind (gets opted_in_supply) (\<lambda>o_i. set_opted_in (checked_sub (ucast o_i) amount))"

definition accrued :: "u256 \<Rightarrow> u256 \<Rightarrow> u256 option" where
  "accrued balance delta =
     (case checked_mul balance delta of None \<Rightarrow> None | Some v \<Rightarrow> checked_div v ACC_PRECISION)"

definition credit_delegate :: "address \<Rightarrow> user_reward_info \<Rightarrow> u256 \<Rightarrow> (tip20_token, user_reward_info) op" where
  "credit_delegate holder info delta =
     (let cached_delegate = reward_recipient info in
      bind (gets (\<lambda>t. balances t holder)) (\<lambda>holder_balance.
      bind (ok_or (accrued holder_balance delta) under_overflow) (\<lambda>reward.
      if cached_delegate = holder
      then bind (ok_or (checked_add (reward_balance info) reward) under_overflow) (\<lambda>b.
           ret (info\<lparr>reward_balance := b\<rparr>))
      else bind (gets (\<lambda>t. reward_infos t cached_delegate)) (\<lambda>delegate_info.
           bind (ok_or (checked_add (reward_balance delegate_info) reward) under_overflow) (\<lambda>b.
           bind (set_reward_info cached_delegate (delegate_info\<lparr>reward_balance := b\<rparr>)) (\<lambda>_.
           ret info))))))"

definition update_rewards :: "address \<Rightarrow> (tip20_token, address) op" where
  "update_rewards holder =
     bind (ask spec) (\<lambda>h.
     if is_t8 h then ret ADDRESS_ZERO
     else
       bind (gets (\<lambda>t. reward_infos t holder)) (\<lambda>info.
       bind (gets global_reward_per_token) (\<lambda>global.
       bind (ok_or (checked_sub global (reward_per_token info)) under_overflow) (\<lambda>delta.
       bind (whenM (delta \<noteq> 0)
         (bind (if reward_recipient info \<noteq> ADDRESS_ZERO then credit_delegate holder info delta
                else ret info) (\<lambda>info'.
          set_reward_info holder (info'\<lparr>reward_per_token := global\<rparr>)))) (\<lambda>_.
       ret (reward_recipient info))))))"

definition handle_rewards_on_transfer :: "address \<Rightarrow> address \<Rightarrow> u256 \<Rightarrow> (tip20_token, unit) op" where
  "handle_rewards_on_transfer from to amount =
     bind (update_rewards from) (\<lambda>from_delegate.
     bind (update_rewards to) (\<lambda>to_delegate.
     if from_delegate \<noteq> ADDRESS_ZERO
     then whenM (to_delegate = ADDRESS_ZERO) (sub_opted_in amount)
     else whenM (to_delegate \<noteq> ADDRESS_ZERO) (add_opted_in amount)))"

definition handle_rewards_on_mint :: "address \<Rightarrow> u256 \<Rightarrow> (tip20_token, unit) op" where
  "handle_rewards_on_mint to amount =
     bind (update_rewards to) (\<lambda>to_delegate.
     whenM (to_delegate \<noteq> ADDRESS_ZERO) (add_opted_in amount))"

definition get_pending_rewards :: "address \<Rightarrow> env \<Rightarrow> tip20_token \<Rightarrow> tempo_error + u128" where
  "get_pending_rewards account e t =
     (let info = reward_infos t account; pending = reward_balance info in
      if is_t8 (spec e) then rok_or (try_into pending) under_overflow
      else
        rbind (if reward_recipient info = account \<and> balances t account > 0
               then rbind (rok_or (checked_sub (global_reward_per_token t) (reward_per_token info)) under_overflow) (\<lambda>delta.
                    if delta > 0
                    then rbind (rok_or (accrued (balances t account) delta) under_overflow) (\<lambda>acc.
                         rok_or (checked_add pending acc) under_overflow)
                    else Inr pending)
               else Inr pending) (\<lambda>total.
        rok_or (try_into total) under_overflow))"

section \<open>Core transfers\<close>

definition transfer_core :: "address \<Rightarrow> address \<Rightarrow> recipient \<Rightarrow> u256 \<Rightarrow> (tip20_token, unit) op" where
  "transfer_core self from to amount =
     bind (ask spec) (\<lambda>h.
     bind (if \<not> is_t8 h
           then bind (gets (\<lambda>t. balances t from)) (\<lambda>from_balance.
                bind (ensure (\<not> amount > from_balance)
                        (TIP20Err (InsufficientBalance from_balance amount self))) (\<lambda>_.
                ret (Some from_balance)))
           else ret None) (\<lambda>from_balance.
     bind (handle_rewards_on_transfer from (target to) amount) (\<lambda>_.
     bind (case from_balance of
             Some b \<Rightarrow> bind (ok_or (checked_sub b amount) under_overflow) (\<lambda>new. set_balance from new)
           | None \<Rightarrow> decrement_balance self from amount) (\<lambda>_.
     bind (whenM (target to \<noteq> ADDRESS_ZERO) (increment_balance (target to) amount)) (\<lambda>_.
     emit20 self (build_transfer_event to from amount))))))"

definition mint_core :: "address \<Rightarrow> recipient \<Rightarrow> u256 \<Rightarrow> u256 \<Rightarrow> (tip20_token, unit) op" where
  "mint_core self to supply amount =
     bind (ok_or (checked_add supply amount) under_overflow) (\<lambda>new_supply.
     bind (gets supply_cap) (\<lambda>cap.
     bind (ensure (\<not> new_supply > cap) (TIP20Err SupplyCapExceeded)) (\<lambda>_.
     bind (handle_rewards_on_mint (target to) amount) (\<lambda>_.
     bind (set_total_supply new_supply) (\<lambda>_.
     bind (increment_balance (target to) amount) (\<lambda>_.
     emit20 self (build_transfer_event to ADDRESS_ZERO amount)))))))"

definition reduce_supply :: "address \<Rightarrow> u256 \<Rightarrow> (tip20_token, unit) op" where
  "reduce_supply self amount =
     bind (gets total_supply) (\<lambda>supply.
     bind (ok_or (checked_sub supply amount) (TIP20Err (InsufficientBalance supply amount self))) (\<lambda>new_supply.
     set_total_supply new_supply))"

definition burn_core :: "address \<Rightarrow> address \<Rightarrow> u256 \<Rightarrow> (tip20_token, unit) op" where
  "burn_core self msg_sender amount =
     bind (ask spec) (\<lambda>h.
     bind (whenM (is_t3 h) check_not_paused) (\<lambda>_.
     bind (check_role msg_sender ISSUER_ROLE) (\<lambda>_.
     bind (transfer_core self msg_sender (direct ADDRESS_ZERO) amount) (\<lambda>_.
     reduce_supply self amount))))"

definition burn :: "address \<Rightarrow> address \<Rightarrow> u256 \<Rightarrow> (tip20_token, unit) op" where
  "burn self msg_sender amount =
     bind (burn_core self msg_sender amount) (\<lambda>_. emit20 self (Burn msg_sender amount))"

definition burn_with_memo :: "address \<Rightarrow> address \<Rightarrow> u256 \<Rightarrow> b256 \<Rightarrow> (tip20_token, unit) op" where
  "burn_with_memo self msg_sender amount memo =
     bind (burn_core self msg_sender amount) (\<lambda>_.
     bind (emit20 self (TransferWithMemo msg_sender ADDRESS_ZERO amount memo)) (\<lambda>_.
     emit20 self (Burn msg_sender amount)))"

section \<open>Reward pool and fee movements\<close>

text \<open>
  The parts of \<open>distribute_reward\<close>, \<open>set_reward_recipient\<close>, \<open>claim_rewards\<close>,
  \<open>transfer_fee_pre_tx\<close> and \<open>transfer_fee_post_tx\<close> after the checks that involve other
  precompiles.
\<close>

definition distribute_core :: "address \<Rightarrow> address \<Rightarrow> u256 \<Rightarrow> (tip20_token, unit) op" where
  "distribute_core self msg_sender amount =
     bind (transfer_core self msg_sender (direct self) amount) (\<lambda>_.
     bind (gets opted_in_supply) (\<lambda>o_i.
     bind (ensure (o_i \<noteq> 0) (TIP20Err NoOptedInSupply)) (\<lambda>_.
     bind (ok_or (case checked_mul amount ACC_PRECISION of None \<Rightarrow> None | Some v \<Rightarrow> checked_div v (ucast o_i))
             under_overflow) (\<lambda>delta_rpt.
     bind (gets global_reward_per_token) (\<lambda>current_rpt.
     bind (ok_or (checked_add current_rpt delta_rpt) under_overflow) (\<lambda>new_rpt.
     bind (modify (\<lambda>t. t\<lparr>global_reward_per_token := new_rpt\<rparr>)) (\<lambda>_.
     emit20 self (RewardDistributed msg_sender amount))))))))"

definition set_recipient_core :: "address \<Rightarrow> address \<Rightarrow> address \<Rightarrow> (tip20_token, unit) op" where
  "set_recipient_core self msg_sender recipient =
     bind (update_rewards msg_sender) (\<lambda>from_delegate.
     bind (gets (\<lambda>t. balances t msg_sender)) (\<lambda>holder_balance.
     bind (if from_delegate \<noteq> ADDRESS_ZERO
           then whenM (recipient = ADDRESS_ZERO) (sub_opted_in holder_balance)
           else whenM (recipient \<noteq> ADDRESS_ZERO) (add_opted_in holder_balance)) (\<lambda>_.
     bind (gets (\<lambda>t. reward_infos t msg_sender)) (\<lambda>info.
     bind (set_reward_info msg_sender (info\<lparr>reward_recipient := recipient\<rparr>)) (\<lambda>_.
     emit20 self (RewardRecipientSet msg_sender recipient))))))"

definition claim_core :: "address \<Rightarrow> address \<Rightarrow> (tip20_token, u256) op" where
  "claim_core self msg_sender =
     bind (update_rewards msg_sender) (\<lambda>delegate.
     bind (gets (\<lambda>t. reward_infos t msg_sender)) (\<lambda>info.
     let amount = reward_balance info in
     bind (gets (\<lambda>t. balances t self)) (\<lambda>contract_balance.
     let max_amount = min amount contract_balance in
     bind (ok_or (checked_sub amount max_amount) under_overflow) (\<lambda>rest.
     bind (set_reward_info msg_sender (info\<lparr>reward_balance := rest\<rparr>)) (\<lambda>_.
     bind (whenM (max_amount > 0)
       (bind (ok_or (checked_sub contract_balance max_amount) under_overflow) (\<lambda>new_contract_balance.
        bind (set_balance self new_contract_balance) (\<lambda>_.
        bind (gets (\<lambda>t. balances t msg_sender)) (\<lambda>b.
        bind (ok_or (checked_add b max_amount) under_overflow) (\<lambda>recipient_balance.
        bind (set_balance msg_sender recipient_balance) (\<lambda>_.
        bind (whenM (delegate \<noteq> ADDRESS_ZERO) (add_opted_in max_amount)) (\<lambda>_.
        emit20 self (Transfer self msg_sender max_amount))))))))) (\<lambda>_.
     ret max_amount))))))"

definition fee_pre_core :: "address \<Rightarrow> address \<Rightarrow> u256 \<Rightarrow> (tip20_token, unit) op" where
  "fee_pre_core self from amount =
     bind (update_rewards from) (\<lambda>delegate.
     bind (whenM (delegate \<noteq> ADDRESS_ZERO) (sub_opted_in amount)) (\<lambda>_.
     bind (decrement_balance self from amount) (\<lambda>_.
     increment_balance TIP_FEE_MANAGER_ADDRESS amount)))"

definition fee_post_core :: "address \<Rightarrow> address \<Rightarrow> u256 \<Rightarrow> (tip20_token, unit) op" where
  "fee_post_core self to refund =
     bind (update_rewards to) (\<lambda>delegate.
     bind (whenM (delegate \<noteq> ADDRESS_ZERO) (add_opted_in refund)) (\<lambda>_.
     bind (decrement_balance self TIP_FEE_MANAGER_ADDRESS refund) (\<lambda>_.
     increment_balance to refund)))"

section \<open>Administration\<close>

definition set_supply_cap :: "address \<Rightarrow> address \<Rightarrow> u256 \<Rightarrow> (tip20_token, unit) op" where
  "set_supply_cap self msg_sender new_cap =
     bind (check_role msg_sender DEFAULT_ADMIN_ROLE) (\<lambda>_.
     bind (gets total_supply) (\<lambda>supply.
     bind (ensure (\<not> new_cap < supply) (TIP20Err InvalidSupplyCap)) (\<lambda>_.
     bind (ensure (\<not> new_cap > U128_MAX) (TIP20Err SupplyCapExceeded)) (\<lambda>_.
     bind (modify (\<lambda>t. t\<lparr>supply_cap := new_cap\<rparr>)) (\<lambda>_.
     emit20 self (SupplyCapUpdate msg_sender new_cap))))))"

definition pause :: "address \<Rightarrow> address \<Rightarrow> (tip20_token, unit) op" where
  "pause self msg_sender =
     bind (check_role msg_sender PAUSE_ROLE) (\<lambda>_.
     bind (modify (\<lambda>t. t\<lparr>paused := True\<rparr>)) (\<lambda>_.
     emit20 self (PauseStateUpdate msg_sender True)))"

definition unpause :: "address \<Rightarrow> address \<Rightarrow> (tip20_token, unit) op" where
  "unpause self msg_sender =
     bind (check_role msg_sender UNPAUSE_ROLE) (\<lambda>_.
     bind (modify (\<lambda>t. t\<lparr>paused := False\<rparr>)) (\<lambda>_.
     emit20 self (PauseStateUpdate msg_sender False)))"

text \<open>Logo URIs (TIP-1026). A Rust string is its UTF-8 bytes, one character per byte.\<close>

definition MAX_LOGO_URI_BYTES :: nat where "MAX_LOGO_URI_BYTES = 256"

definition ALLOWED_LOGO_URI_SCHEMES :: "string list" where
  "ALLOWED_LOGO_URI_SCHEMES = [''https'', ''http'', ''ipfs'', ''data'']"

definition is_ascii_upper :: "char \<Rightarrow> bool" where
  "is_ascii_upper c \<longleftrightarrow> 65 \<le> (of_char c :: nat) \<and> (of_char c :: nat) \<le> 90"

definition is_ascii_alphabetic :: "char \<Rightarrow> bool" where
  "is_ascii_alphabetic c \<longleftrightarrow> is_ascii_upper c \<or> 97 \<le> (of_char c :: nat) \<and> (of_char c :: nat) \<le> 122"

definition is_ascii_alphanumeric :: "char \<Rightarrow> bool" where
  "is_ascii_alphanumeric c \<longleftrightarrow> is_ascii_alphabetic c \<or> 48 \<le> (of_char c :: nat) \<and> (of_char c :: nat) \<le> 57"

definition to_ascii_lower :: "char \<Rightarrow> char" where
  "to_ascii_lower c = (if is_ascii_upper c then char_of ((of_char c :: nat) + 32) else c)"

definition eq_ignore_ascii_case :: "string \<Rightarrow> string \<Rightarrow> bool" where
  "eq_ignore_ascii_case s t \<longleftrightarrow> map to_ascii_lower s = map to_ascii_lower t"

definition is_allowed_logo_uri :: "string \<Rightarrow> bool" where
  "is_allowed_logo_uri uri =
     (if CHR '':'' \<notin> set uri then False
      else let scheme = takeWhile (\<lambda>c. c \<noteq> CHR '':'') uri in
        case scheme of
          [] \<Rightarrow> False
        | first # bytes \<Rightarrow>
            if \<not> is_ascii_alphabetic first then False
            else if \<not> list_all (\<lambda>b. is_ascii_alphanumeric b \<or> b \<in> {CHR ''+'', CHR ''-'', CHR ''.''}) bytes then False
            else list_ex (eq_ignore_ascii_case scheme) ALLOWED_LOGO_URI_SCHEMES)"

definition validate_logo_uri :: "string \<Rightarrow> tempo_error + unit" where
  "validate_logo_uri uri =
     (if length uri > MAX_LOGO_URI_BYTES then Inl (TIP20Err LogoURITooLong)
      else if uri \<noteq> [] \<and> \<not> is_allowed_logo_uri uri then Inl (TIP20Err InvalidLogoURI)
      else Inr ())"

definition write_logo_uri :: "address \<Rightarrow> address \<Rightarrow> string \<Rightarrow> (tip20_token, unit) op" where
  "write_logo_uri self updater uri =
     bind (query (\<lambda>_ _. validate_logo_uri uri)) (\<lambda>_.
     bind (modify (\<lambda>t. t\<lparr>logo_uri := uri\<rparr>)) (\<lambda>_.
     emit20 self (LogoURIUpdated updater uri)))"

definition set_logo_uri :: "address \<Rightarrow> address \<Rightarrow> string \<Rightarrow> (tip20_token, unit) op" where
  "set_logo_uri self msg_sender uri =
     bind (check_role msg_sender DEFAULT_ADMIN_ROLE) (\<lambda>_. write_logo_uri self msg_sender uri)"

section \<open>Permit\<close>

definition string_bytes :: "string \<Rightarrow> u8 list" where
  "string_bytes s = map of_char s"

definition domain_separator :: "address \<Rightarrow> env \<Rightarrow> tip20_token \<Rightarrow> b256" where
  "domain_separator self e t =
     keccak256 e (abi_word EIP712_DOMAIN_TYPEHASH @ abi_word (keccak256 e (string_bytes (tok_name t))) @
       abi_word VERSION_HASH @ abi_word (ucast (chain_id e)) @ abi_address self)"

definition permit_digest :: "address \<Rightarrow> address \<Rightarrow> address \<Rightarrow> u256 \<Rightarrow> u256 \<Rightarrow> u256 \<Rightarrow> env \<Rightarrow> tip20_token \<Rightarrow> b256" where
  "permit_digest self owner spender value nonce deadline e t =
     (let struct_hash = keccak256 e (abi_word PERMIT_TYPEHASH @ abi_address owner @ abi_address spender @
                          abi_word value @ abi_word nonce @ abi_word deadline) in
      keccak256 e ([0x19, 0x01] @ abi_word (domain_separator self e t) @ abi_word struct_hash))"

definition permit ::
  "address \<Rightarrow> address \<Rightarrow> address \<Rightarrow> u256 \<Rightarrow> u256 \<Rightarrow> u8 \<Rightarrow> b256 \<Rightarrow> b256 \<Rightarrow> (tip20_token, unit) op" where
  "permit self owner spender value deadline v r s =
     bind (ask id) (\<lambda>e.
     bind (ensure (\<not> timestamp e > deadline) (TIP20Err PermitExpired)) (\<lambda>_.
     bind (gets (\<lambda>t. permit_nonces t owner)) (\<lambda>nonce.
     bind (gets (permit_digest self owner spender value nonce deadline e)) (\<lambda>digest.
     bind (ok_or (recover_signer e digest v r s) (TIP20Err InvalidSignature)) (\<lambda>recovered.
     bind (ensure (recovered = owner) (TIP20Err InvalidSignature)) (\<lambda>_.
     bind (ok_or (checked_add nonce 1) under_overflow) (\<lambda>next.
     bind (modify (\<lambda>t. t\<lparr>permit_nonces := (permit_nonces t)(owner := next)\<rparr>)) (\<lambda>_.
     bind (set_allowance owner spender value) (\<lambda>_.
     emit20 self (Approval owner spender value))))))))))"

end
