(* ===== verification/TIP20_Accounting.thy ===== *)
theory TIP20_Accounting
  imports TIP20_Ledger
begin

text \<open>
  The accounting invariant of a TIP-20 token. \<open>ledger_inv\<close> ties the balances to the total
  supply and the supply to its cap, the opted-in supply to the balances of the opted-in
  holders, and the rewards owed, settled and pending, to the token's own balance. Every
  operation of \<open>TIP20_Ledger\<close> keeps it.

  The reward part is stated for the hardforks before T8; from T8 on the hooks are disabled and
  only settled rewards are claimable, which is what \<open>settled_ok\<close> bounds.
\<close>

section \<open>The ledger invariant\<close>

abbreviation precision :: nat where "precision \<equiv> unat ACC_PRECISION"

lemma precision_pos: "0 < precision"
  by (simp add: ACC_PRECISION_def)

abbreviation recipient_of :: "tip20_token \<Rightarrow> address \<Rightarrow> address" where
  "recipient_of t a \<equiv> reward_recipient (reward_infos t a)"

abbreviation snapshot :: "tip20_token \<Rightarrow> address \<Rightarrow> u256" where
  "snapshot t a \<equiv> reward_per_token (reward_infos t a)"

definition opted_amount :: "user_reward_info \<Rightarrow> u256 \<Rightarrow> nat" where
  "opted_amount info b = (if reward_recipient info \<noteq> 0 then unat b else 0)"

text \<open>What one account is owed, in units of \<open>1 / ACC_PRECISION\<close>: settled and still pending.\<close>

definition owed_amount :: "u256 \<Rightarrow> u256 \<Rightarrow> user_reward_info \<Rightarrow> nat" where
  "owed_amount g b info =
     precision * unat (reward_balance info) + opted_amount info b * (unat g - unat (reward_per_token info))"

definition opted_sum :: "tip20_token \<Rightarrow> nat" where
  "opted_sum t = (\<Sum>a \<in> UNIV. opted_amount (reward_infos t a) (balances t a))"

definition owed_sum :: "tip20_token \<Rightarrow> nat" where
  "owed_sum t = (\<Sum>a \<in> UNIV. owed_amount (global_reward_per_token t) (balances t a) (reward_infos t a))"

definition settled_sum :: "tip20_token \<Rightarrow> nat" where
  "settled_sum t = (\<Sum>a \<in> UNIV. unat (reward_balance (reward_infos t a)))"

definition supply_ok :: "tip20_token \<Rightarrow> bool" where
  "supply_ok t \<longleftrightarrow> total_of (balances t) = unat (total_supply t) \<and>
     total_supply t \<le> supply_cap t \<and> supply_cap t \<le> U128_MAX"

text \<open>No reward recipient for the accounts that never call the token, no allowance on its own funds.\<close>

definition system_ok :: "address \<Rightarrow> tip20_token \<Rightarrow> bool" where
  "system_ok self t \<longleftrightarrow> recipient_of t 0 = 0 \<and> recipient_of t TIP_FEE_MANAGER_ADDRESS = 0 \<and>
     recipient_of t self = 0 \<and> (\<forall>spender. allowances t self spender = 0)"

definition rewards_ok :: "address \<Rightarrow> tip20_token \<Rightarrow> bool" where
  "rewards_ok self t \<longleftrightarrow> (\<forall>a. snapshot t a \<le> global_reward_per_token t) \<and>
     unat (opted_in_supply t) = opted_sum t \<and> owed_sum t \<le> precision * unat (balances t self)"

definition settled_ok :: "address \<Rightarrow> tip20_token \<Rightarrow> bool" where
  "settled_ok self t \<longleftrightarrow> settled_sum t \<le> unat (balances t self)"

definition rewards_inv :: "tempo_hardfork \<Rightarrow> address \<Rightarrow> tip20_token \<Rightarrow> bool" where
  "rewards_inv h self t \<longleftrightarrow> system_ok self t \<and> settled_ok self t \<and> (\<not> is_t8 h \<longrightarrow> rewards_ok self t)"

definition ledger_inv :: "tempo_hardfork \<Rightarrow> address \<Rightarrow> tip20_token \<Rightarrow> bool" where
  "ledger_inv h self t \<longleftrightarrow> supply_ok t \<and> rewards_inv h self t"

lemma settled_le_owed: "precision * settled_sum t \<le> owed_sum t"
  unfolding settled_sum_def owed_sum_def owed_amount_def
  by (simp add: sum_distrib_left sum_mono)

lemma rewards_settled: "rewards_ok self t \<Longrightarrow> settled_ok self t"
  using settled_le_owed[of t] precision_pos unfolding rewards_ok_def settled_ok_def
  by (meson le_trans mult_le_cancel1)

text \<open>Changing one balance.\<close>

abbreviation with_balance :: "address \<Rightarrow> u256 \<Rightarrow> tip20_token \<Rightarrow> tip20_token" where
  "with_balance a v t \<equiv> t\<lparr>balances := (balances t)(a := v)\<rparr>"

definition fresh :: "address \<Rightarrow> tip20_token \<Rightarrow> bool" where
  "fresh a t \<longleftrightarrow> recipient_of t a = 0 \<or> snapshot t a = global_reward_per_token t"

lemma opted_sum_balance:
  "opted_sum (with_balance a v t) + opted_amount (reward_infos t a) (balances t a) =
   opted_sum t + opted_amount (reward_infos t a) v"
  using sum_fun_upd[of "\<lambda>k. opted_amount (reward_infos t k)" "balances t" a v]
  by (simp add: opted_sum_def)

lemma owed_sum_balance: "fresh a t \<Longrightarrow> owed_sum (with_balance a v t) = owed_sum t"
  using sum_fun_upd[of "\<lambda>k b. owed_amount (global_reward_per_token t) b (reward_infos t k)" "balances t" a v]
  by (auto simp: owed_sum_def owed_amount_def fresh_def opted_amount_def)

lemma settled_sum_balance [simp]: "settled_sum (with_balance a v t) = settled_sum t"
  by (simp add: settled_sum_def)

lemma opted_sum_cong:
  "balances t' = balances t \<Longrightarrow> (\<And>a. recipient_of t' a = recipient_of t a) \<Longrightarrow> opted_sum t' = opted_sum t"
  by (simp add: opted_sum_def opted_amount_def)

lemma sums_unaffected [simp]:
  "opted_sum (t\<lparr>opted_in_supply := n\<rparr>) = opted_sum t" "owed_sum (t\<lparr>opted_in_supply := n\<rparr>) = owed_sum t"
  "opted_sum (t\<lparr>total_supply := s\<rparr>) = opted_sum t" "owed_sum (t\<lparr>total_supply := s\<rparr>) = owed_sum t"
  "opted_sum (t\<lparr>global_reward_per_token := s\<rparr>) = opted_sum t"
  by (simp_all add: opted_sum_def owed_sum_def)

section \<open>Settling a holder\<close>

lemma accrued_bound: "accrued b d = Some r \<Longrightarrow> precision * unat r \<le> unat b * unat d"
  by (auto simp: accrued_def checked_simps split: option.splits)

definition with_info :: "address \<Rightarrow> user_reward_info \<Rightarrow> tip20_token \<Rightarrow> tip20_token" where
  "with_info a info t = t\<lparr>reward_infos := (reward_infos t)(a := info)\<rparr>"

lemma with_info_simps [simp]:
  "balances (with_info a i t) = balances t" "global_reward_per_token (with_info a i t) = global_reward_per_token t"
  "reward_infos (with_info a i t) = (reward_infos t)(a := i)"
  by (simp_all add: with_info_def)

lemma owed_sum_info:
  "owed_sum (with_info a i t) + owed_amount (global_reward_per_token t) (balances t a) (reward_infos t a) =
   owed_sum t + owed_amount (global_reward_per_token t) (balances t a) i"
  using sum_fun_upd[of "\<lambda>k. owed_amount (global_reward_per_token t) (balances t k)" "reward_infos t" a i]
  by (simp add: owed_sum_def)

lemma opted_sum_info:
  "reward_recipient i = recipient_of t a \<Longrightarrow> opted_sum (with_info a i t) = opted_sum t"
  using sum_fun_upd[of "\<lambda>k. \<lambda>j. opted_amount j (balances t k)" "reward_infos t" a i]
  by (simp add: opted_sum_def opted_amount_def)

text \<open>
  \<open>settles holder t t'\<close>: what \<open>update_rewards\<close> does before T8. Only reward records change;
  nobody's recipient does; the holder's snapshot is current; and the total owed does not grow.
\<close>

definition settles :: "address \<Rightarrow> tip20_token \<Rightarrow> tip20_token \<Rightarrow> bool" where
  "settles holder t t' \<longleftrightarrow>
     t' = t\<lparr>reward_infos := reward_infos t'\<rparr> \<and> (\<forall>a. recipient_of t' a = recipient_of t a) \<and>
     snapshot t' holder = global_reward_per_token t \<and>
     (\<forall>a. a \<noteq> holder \<longrightarrow> snapshot t' a = snapshot t a) \<and> owed_sum t' \<le> owed_sum t"

lemma update_rewards_settles:
  assumes run: "update_rewards holder e t = Inr (d, t', l)" and t8: "\<not> is_t8 (spec e)"
    and snap: "\<forall>a. snapshot t a \<le> global_reward_per_token t"
  shows "settles holder t t'" and "d = recipient_of t holder"
proof -
  let ?g = "global_reward_per_token t" and ?info = "reward_infos t holder"
  obtain delta where sub: "checked_sub ?g (reward_per_token ?info) = Some delta"
    and d: "d = recipient_of t holder"
    and w: "whenM (delta \<noteq> 0)
       (bind (if recipient_of t holder \<noteq> 0 then credit_delegate holder ?info delta else ret ?info) (\<lambda>info'.
        set_reward_info holder (info'\<lparr>reward_per_token := ?g\<rparr>))) e t = Inr ((), t', l)"
    using run t8 by (auto simp: update_rewards_def bind_eq_Inr ok_or_eq_Inr)
  have delta: "unat ?g = unat delta + unat (reward_per_token ?info)"
    using sub by (simp add: checked_simps)
  have rest: "if delta \<noteq> 0
      then \<exists>info' t1 l1. (if recipient_of t holder \<noteq> 0 then credit_delegate holder ?info delta
               else ret ?info) e t = Inr (info', t1, l1) \<and>
             t' = with_info holder (info'\<lparr>reward_per_token := ?g\<rparr>) t1
      else t' = t"
    using w by (auto simp: run_simps set_reward_info_def with_info_def split: if_splits)
  show "d = recipient_of t holder" by (rule d)
  have "settles holder t t'" if "delta = 0"
    using rest that delta by (simp add: settles_def word_unat_eq_iff)
  moreover have "settles holder t t'" if nz: "delta \<noteq> 0" "recipient_of t holder = 0"
  proof -
    have t': "t' = with_info holder (?info\<lparr>reward_per_token := ?g\<rparr>) t" using rest nz by simp
    show ?thesis
      using owed_sum_info[of holder "?info\<lparr>reward_per_token := ?g\<rparr>" t] nz(2)
      by (auto simp: settles_def t' with_info_def owed_amount_def opted_amount_def)
  qed
  moreover have "settles holder t t'"
    if nz: "delta \<noteq> 0" "recipient_of t holder \<noteq> 0" "recipient_of t holder = holder"
  proof -
    obtain r b where r: "accrued (balances t holder) delta = Some r"
      and b: "unat b = unat (reward_balance ?info) + unat r"
      and t': "t' = with_info holder (?info\<lparr>reward_balance := b, reward_per_token := ?g\<rparr>) t"
      using rest nz by (auto simp: credit_delegate_def run_simps checked_simps Let_def)
    have "owed_sum t' \<le> owed_sum t"
      using owed_sum_info[of holder "?info\<lparr>reward_balance := b, reward_per_token := ?g\<rparr>" t]
        accrued_bound[OF r] nz delta b
      by (simp add: t' owed_amount_def opted_amount_def algebra_simps)
    then show ?thesis using nz(3) by (auto simp: settles_def t' with_info_def)
  qed
  moreover have "settles holder t t'"
    if nz: "delta \<noteq> 0" "recipient_of t holder \<noteq> 0" "recipient_of t holder \<noteq> holder"
  proof -
    let ?d = "recipient_of t holder"
    obtain r b where r: "accrued (balances t holder) delta = Some r"
      and b: "unat b = unat (reward_balance (reward_infos t ?d)) + unat r"
      and t': "t' = with_info holder (?info\<lparr>reward_per_token := ?g\<rparr>)
                 (with_info ?d (reward_infos t ?d\<lparr>reward_balance := b\<rparr>) t)"
      using rest nz
      by (auto simp: credit_delegate_def run_simps checked_simps Let_def set_reward_info_def with_info_def)
    have "owed_sum t' \<le> owed_sum t"
      using owed_sum_info[of ?d "reward_infos t ?d\<lparr>reward_balance := b\<rparr>" t]
        owed_sum_info[of holder "?info\<lparr>reward_per_token := ?g\<rparr>"
          "with_info ?d (reward_infos t ?d\<lparr>reward_balance := b\<rparr>) t"]
        accrued_bound[OF r] nz delta b
      by (simp add: t' owed_amount_def opted_amount_def algebra_simps)
    then show ?thesis using nz(3) by (auto simp: settles_def t' with_info_def)
  qed
  ultimately show "settles holder t t'" by blast
qed

lemma update_rewards_t8: "is_t8 (spec e) \<Longrightarrow> update_rewards a e t = Inr (ADDRESS_ZERO, t, [])"
  by (simp add: update_rewards_def exec_simps)

lemma credit_delegate_log: "credit_delegate a info delta e t = Inr (i, t', l) \<Longrightarrow> l = []"
  by (auto simp: credit_delegate_def run_simps Let_def set_reward_info_def split: if_splits)

lemma update_rewards_log: "update_rewards a e t = Inr (d, t', l) \<Longrightarrow> l = []"
  by (auto simp: update_rewards_def run_simps set_reward_info_def split: if_splits dest!: credit_delegate_log)

lemma settles_eqs:
  assumes "settles a t t'"
  shows "balances t' = balances t" "global_reward_per_token t' = global_reward_per_token t"
    "opted_in_supply t' = opted_in_supply t" "total_supply t' = total_supply t"
    "supply_cap t' = supply_cap t" "allowances t' = allowances t"
proof -
  have eq: "t' = t\<lparr>reward_infos := reward_infos t'\<rparr>" using assms by (simp add: settles_def)
  show "balances t' = balances t" by (subst eq) simp
  show "global_reward_per_token t' = global_reward_per_token t" by (subst eq) simp
  show "opted_in_supply t' = opted_in_supply t" by (subst eq) simp
  show "total_supply t' = total_supply t" by (subst eq) simp
  show "supply_cap t' = supply_cap t" by (subst eq) simp
  show "allowances t' = allowances t" by (subst eq) simp
qed

lemma settlesD:
  assumes "settles a t t'"
  shows "recipient_of t' b = recipient_of t b" "snapshot t' a = global_reward_per_token t"
    "b \<noteq> a \<Longrightarrow> snapshot t' b = snapshot t b" "owed_sum t' \<le> owed_sum t"
  using assms unfolding settles_def by blast+

lemmas settles_recipient = settlesD(1)

lemma settles_opted: "settles a t t' \<Longrightarrow> opted_sum t' = opted_sum t"
  by (simp add: opted_sum_def settles_eqs opted_amount_def settles_recipient)

lemma settles_fresh: "settles a t t' \<Longrightarrow> fresh a t'"
  by (simp add: fresh_def settles_eqs settlesD)

lemma settles_keeps_fresh: "settles a t t' \<Longrightarrow> fresh b t \<Longrightarrow> fresh b t'"
  by (cases "b = a") (simp_all add: settles_fresh, simp add: fresh_def settles_eqs settlesD)

lemma settles_snapshot:
  "settles a t t' \<Longrightarrow> \<forall>b. snapshot t b \<le> global_reward_per_token t \<Longrightarrow> snapshot t' c \<le> global_reward_per_token t'"
  by (cases "c = a") (simp_all add: settles_eqs settlesD)

lemma settles_rewards_ok:
  assumes "settles a t t'" "rewards_ok self t"
  shows "rewards_ok self t'"
proof -
  have "\<forall>b. snapshot t b \<le> global_reward_per_token t" using assms(2) by (simp add: rewards_ok_def)
  from settles_snapshot[OF assms(1) this] settlesD(4)[OF assms(1)] assms(2) show ?thesis
    by (auto simp: rewards_ok_def settles_opted[OF assms(1)] settles_eqs[OF assms(1)])
qed

lemma settles_supply_ok: "settles a t t' \<Longrightarrow> supply_ok t' = supply_ok t"
  by (simp add: supply_ok_def settles_eqs)

lemma settles_system_ok: "settles a t t' \<Longrightarrow> system_ok self t' = system_ok self t"
  by (simp add: system_ok_def settles_eqs settles_recipient)

section \<open>Moving balances\<close>

definition moved :: "address \<Rightarrow> address \<Rightarrow> u256 \<Rightarrow> (address \<Rightarrow> u256) \<Rightarrow> address \<Rightarrow> u256" where
  "moved from to amount b =
     (let b1 = b(from := b from - amount) in if to = 0 then b1 else b1(to := b1 to + amount))"

text \<open>
  The opted-in supply after a movement of \<open>amount\<close> out of an account with recipient \<open>d1\<close> into
  one with recipient \<open>d2\<close>.
\<close>

definition opted_moved :: "address \<Rightarrow> address \<Rightarrow> u256 \<Rightarrow> u128 \<Rightarrow> u128 \<Rightarrow> bool" where
  "opted_moved d1 d2 amount o1 o2 \<longleftrightarrow>
     unat o2 + (if d1 \<noteq> 0 then unat amount else 0) = unat o1 + (if d2 \<noteq> 0 then unat amount else 0)"

lemma add_opted_in_Inr:
  "add_opted_in amount e t = Inr (u, t', l) \<Longrightarrow>
     \<exists>n. t' = t\<lparr>opted_in_supply := n\<rparr> \<and> unat n = unat (opted_in_supply t) + unat amount \<and> l = []"
  by (auto simp: add_opted_in_def set_opted_in_def run_simps checked_simps unat_ucast_up)

lemma sub_opted_in_Inr:
  "sub_opted_in amount e t = Inr (u, t', l) \<Longrightarrow>
     \<exists>n. t' = t\<lparr>opted_in_supply := n\<rparr> \<and> unat n + unat amount = unat (opted_in_supply t) \<and> l = []"
  by (auto simp: sub_opted_in_def set_opted_in_def run_simps checked_simps unat_ucast_up)

lemma shift_opted_Inr:
  assumes "(if d1 \<noteq> ADDRESS_ZERO then whenM (d2 = ADDRESS_ZERO) (sub_opted_in amount)
     else whenM (d2 \<noteq> ADDRESS_ZERO) (add_opted_in amount)) e t = Inr ((), t', l)"
  shows "\<exists>n. t' = t\<lparr>opted_in_supply := n\<rparr> \<and> opted_moved d1 d2 amount (opted_in_supply t) n \<and> l = []"
proof (cases "d1 = 0 \<longleftrightarrow> d2 = 0")
  case True
  then have "t' = t \<and> l = []" using assms by (simp add: whenM_eq_Inr split: if_splits)
  with True show ?thesis by (intro exI[of _ "opted_in_supply t"]) (simp add: opted_moved_def)
next
  case False
  then have "(if d1 \<noteq> 0 then sub_opted_in amount else add_opted_in amount) e t = Inr ((), t', l)"
    using assms by (simp add: whenM_eq_Inr split: if_splits)
  with False show ?thesis
    using sub_opted_in_Inr[of amount e t "()" t' l] add_opted_in_Inr[of amount e t "()" t' l]
    by (cases "d1 = 0") (simp_all add: opted_moved_def)
qed

lemma handle_rewards_on_transfer_Inr:
  assumes run: "handle_rewards_on_transfer from to amount e t = Inr (u, t', l)"
    and t8: "\<not> is_t8 (spec e)" and snap: "\<forall>a. snapshot t a \<le> global_reward_per_token t"
  obtains t1 t2 n where "settles from t t1" "settles to t1 t2" "t' = t2\<lparr>opted_in_supply := n\<rparr>"
    "opted_moved (recipient_of t from) (recipient_of t to) amount (opted_in_supply t) n" "l = []"
proof -
  obtain d1 t1 d2 t2 l1 l2 l3 where u1: "update_rewards from e t = Inr (d1, t1, l1)"
    and u2: "update_rewards to e t1 = Inr (d2, t2, l2)"
    and rest: "(if d1 \<noteq> ADDRESS_ZERO then whenM (d2 = ADDRESS_ZERO) (sub_opted_in amount)
       else whenM (d2 \<noteq> ADDRESS_ZERO) (add_opted_in amount)) e t2 = Inr ((), t', l3)"
    and l: "l = l1 @ l2 @ l3"
    using run by (auto simp: handle_rewards_on_transfer_def bind_eq_Inr)
  note s1 = update_rewards_settles[OF u1 t8 snap]
  have "\<forall>a. snapshot t1 a \<le> global_reward_per_token t1" using settles_snapshot[OF s1(1) snap] by blast
  note s2 = update_rewards_settles[OF u2 t8 this]
  have d2: "d2 = recipient_of t to" using s2(2) settles_recipient[OF s1(1)] by simp
  from shift_opted_Inr[OF rest]
  show thesis
    using that[OF s1(1) s2(1)] s1(2) d2 settles_eqs(3)[OF s1(1)] settles_eqs(3)[OF s2(1)] l
      update_rewards_log[OF u1] update_rewards_log[OF u2] by auto
qed

lemma handle_rewards_on_transfer_t8:
  "is_t8 (spec e) \<Longrightarrow> handle_rewards_on_transfer from to amount e t = Inr ((), t, [])"
  by (simp add: handle_rewards_on_transfer_def exec_simps bind_andthen update_rewards_t8)

lemma increment_balance_Inr:
  "increment_balance a v e t = Inr (u, t', l) \<longleftrightarrow>
     unat (balances t a) + unat v < 2 ^ 256 \<and> t' = with_balance a (balances t a + v) t \<and> l = []"
proof -
  have "unat new = unat (balances t a) + unat v \<longleftrightarrow>
      unat (balances t a) + unat v < 2 ^ 256 \<and> new = balances t a + v" for new
    using checked_add_Some[of "balances t a" v new, symmetric] by (simp add: checked_add_def) blast
  then show ?thesis
    by (auto simp: increment_balance_def run_simps set_balance_def)
qed

lemma decrement_balance_Inr:
  "decrement_balance self a v e t = Inr (u, t', l) \<longleftrightarrow>
     v \<le> balances t a \<and> t' = with_balance a (balances t a - v) t \<and> l = []"
proof -
  have "unat (balances t a) = unat new + unat v \<longleftrightarrow> v \<le> balances t a \<and> new = balances t a - v" for new
    using checked_sub_Some[of "balances t a" v new, symmetric] by (simp add: checked_sub_def) blast
  then show ?thesis
    by (auto simp: decrement_balance_def run_simps set_balance_def)
qed

lemma transfer_core_Inr:
  assumes run: "transfer_core self from to amount e t = Inr (u, t', l)"
    and keeps: "\<And>t1 l1. handle_rewards_on_transfer from (target to) amount e t = Inr ((), t1, l1) \<Longrightarrow>
      balances t1 = balances t \<and> l1 = []"
  obtains t1 where "handle_rewards_on_transfer from (target to) amount e t = Inr ((), t1, [])"
    "amount \<le> balances t from"
    "target to \<noteq> 0 \<longrightarrow> unat (((balances t)(from := balances t from - amount)) (target to)) + unat amount < 2 ^ 256"
    "t' = t1\<lparr>balances := moved from (target to) amount (balances t)\<rparr>"
    "l = [(self, TIP20Event (build_transfer_event to from amount))]"
proof -
  obtain fb t1 t2 t3 l1 l2 l3 where fb: "fb = (if is_t8 (spec e) then None else Some (balances t from))"
    and h: "handle_rewards_on_transfer from (target to) amount e t = Inr ((), t1, l1)"
    and dec: "(case fb of
             Some b \<Rightarrow> bind (ok_or (checked_sub b amount) under_overflow) (\<lambda>new. set_balance from new)
           | None \<Rightarrow> decrement_balance self from amount) e t1 = Inr ((), t2, l2)"
    and inc: "whenM (target to \<noteq> ADDRESS_ZERO) (increment_balance (target to) amount) e t2 = Inr ((), t3, l3)"
    and fin: "t' = t3" "l = l1 @ l2 @ l3 @ [(self, TIP20Event (build_transfer_event to from amount))]"
    using run by (auto simp: transfer_core_def bind_eq_Inr ensure_eq_Inr emit20_def split: if_splits)
  have k: "balances t1 = balances t" "l1 = []" using keeps[OF h] by auto
  have d: "amount \<le> balances t from \<and> t2 = with_balance from (balances t from - amount) t1 \<and> l2 = []"
  proof (cases "is_t8 (spec e)")
    case True
    then show ?thesis using dec fb k(1) by (simp add: decrement_balance_Inr)
  next
    case False
    have "checked_sub (balances t from) amount = Some new \<longleftrightarrow>
        amount \<le> balances t from \<and> new = balances t from - amount" for new
      by (auto simp: checked_sub_def)
    with False show ?thesis using dec fb k(1) by (auto simp: run_simps set_balance_def)
  qed
  have "t3 = t1\<lparr>balances := moved from (target to) amount (balances t)\<rparr> \<and> l3 = [] \<and>
      (target to \<noteq> 0 \<longrightarrow> unat (((balances t)(from := balances t from - amount)) (target to)) + unat amount < 2 ^ 256)"
    using inc d k(1) by (simp add: whenM_eq_Inr increment_balance_Inr moved_def Let_def split: if_splits)
  with that h d fin k(2) show thesis by simp
qed

lemma moved_total:
  assumes "amount \<le> b from" "to \<noteq> 0 \<longrightarrow> unat ((b(from := b from - amount)) to) + unat amount < 2 ^ 256"
  shows "total_of (moved from to amount b) + (if to = 0 then unat amount else 0) = total_of b"
proof -
  let ?b1 = "b(from := b from - amount)"
  have "unat (b from - amount) + unat amount = unat (b from)"
    using assms(1) by (simp add: unat_sub word_le_nat_alt)
  with total_upd[of b "from" "b from - amount"] have b1: "total_of ?b1 + unat amount = total_of b" by linarith
  have "to \<noteq> 0 \<Longrightarrow> unat (?b1 to + amount) = unat (?b1 to) + unat amount"
    using assms(2) by (simp add: unat_word_ariths)
  with total_upd[of ?b1 to "?b1 to + amount"]
  have b2: "to \<noteq> 0 \<Longrightarrow> total_of (?b1(to := ?b1 to + amount)) = total_of ?b1 + unat amount" by linarith
  show ?thesis
    using b1 b2 by (cases "to = 0") (simp_all add: moved_def Let_def del: fun_upd_apply)
qed

lemma moved_ge:
  assumes "amount \<le> b from" "to \<noteq> 0 \<longrightarrow> unat ((b(from := b from - amount)) to) + unat amount < 2 ^ 256"
    and "from = a \<longrightarrow> amount = 0"
  shows "unat (b a) \<le> unat (moved from to amount b a)"
  using assms by (auto simp: moved_def Let_def unat_word_ariths split: if_splits)

lemma moved_opted_sum:
  assumes "amount \<le> balances t from"
    "to \<noteq> 0 \<longrightarrow> unat (((balances t)(from := balances t from - amount)) to) + unat amount < 2 ^ 256"
    and z: "recipient_of t 0 = 0"
  shows "opted_sum (t\<lparr>balances := moved from to amount (balances t)\<rparr>) + (if recipient_of t from \<noteq> 0 then unat amount else 0)
    = opted_sum t + (if recipient_of t to \<noteq> 0 then unat amount else 0)"
proof -
  let ?b1 = "(balances t)(from := balances t from - amount)"
  let ?t1 = "with_balance from (balances t from - amount) t"
  have "unat (balances t from - amount) + unat amount = unat (balances t from)"
    using assms(1) by (simp add: unat_sub word_le_nat_alt)
  with opted_sum_balance[of t "from" "balances t from - amount"]
  have t1: "opted_sum ?t1 + (if recipient_of t from \<noteq> 0 then unat amount else 0) = opted_sum t"
    by (simp add: opted_amount_def split: if_splits)
  have "to \<noteq> 0 \<Longrightarrow> unat (?b1 to + amount) = unat (?b1 to) + unat amount"
    using assms(2) by (simp add: unat_word_ariths)
  with opted_sum_balance[of ?t1 to "?b1 to + amount"]
  have t2: "to \<noteq> 0 \<Longrightarrow> opted_sum (with_balance to (?b1 to + amount) ?t1) =
      opted_sum ?t1 + (if recipient_of t to \<noteq> 0 then unat amount else 0)"
    by (simp add: opted_amount_def split: if_splits)
  show ?thesis
    using t1 t2 z by (cases "to = 0") (simp_all add: moved_def Let_def)
qed

lemma moved_owed_sum:
  assumes "fresh from t" "fresh to t"
  shows "owed_sum (t\<lparr>balances := moved from to amount (balances t)\<rparr>) = owed_sum t"
proof -
  let ?b1 = "(balances t)(from := balances t from - amount)"
  let ?t1 = "with_balance from (balances t from - amount) t"
  have "fresh to ?t1" using assms(2) by (simp add: fresh_def)
  from owed_sum_balance[OF this, of "?b1 to + amount"] owed_sum_balance[OF assms(1), of "balances t from - amount"]
  show ?thesis by (simp add: moved_def Let_def)
qed

lemma rewards_inv_snapshot:
  "rewards_inv h self t \<Longrightarrow> \<not> is_t8 h \<Longrightarrow> \<forall>a. snapshot t a \<le> global_reward_per_token t"
  by (simp add: rewards_inv_def rewards_ok_def)

lemma rewards_invI:
  assumes "system_ok self t" "is_t8 h \<Longrightarrow> settled_ok self t" "\<not> is_t8 h \<Longrightarrow> rewards_ok self t"
  shows "rewards_inv h self t"
  using assms rewards_settled[of self t] by (auto simp: rewards_inv_def)

text \<open>
  \<open>prepared\<close>: the state after the reward hooks of a movement ran, just before the balances
  change. The opted-in supply already counts the movement.
\<close>

definition prepared :: "address \<Rightarrow> address \<Rightarrow> u256 \<Rightarrow> tip20_token \<Rightarrow> tip20_token \<Rightarrow> bool" where
  "prepared from to amount t t1 \<longleftrightarrow>
     (\<forall>a. recipient_of t1 a = recipient_of t a) \<and>
     (\<forall>a. snapshot t1 a \<le> global_reward_per_token t) \<and> fresh from t1 \<and> fresh to t1 \<and>
     owed_sum t1 \<le> owed_sum t \<and>
     opted_moved (recipient_of t from) (recipient_of t to) amount (opted_in_supply t) (opted_in_supply t1)"

lemma settles_same: "settles a t t' \<Longrightarrow> t' = t\<lparr>reward_infos := reward_infos t'\<rparr>"
  by (simp only: settles_def)

lemma handle_rewards_prepares:
  assumes run: "handle_rewards_on_transfer from to amount e t = Inr (u, t1, l)"
    and inv: "rewards_inv (spec e) self t"
  shows "l = []" and "t1 = t\<lparr>opted_in_supply := opted_in_supply t1, reward_infos := reward_infos t1\<rparr>"
    and "is_t8 (spec e) \<Longrightarrow> t1 = t" and "\<not> is_t8 (spec e) \<Longrightarrow> prepared from to amount t t1"
proof -
  have "l = [] \<and> t1 = t\<lparr>opted_in_supply := opted_in_supply t1, reward_infos := reward_infos t1\<rparr> \<and>
      prepared from to amount t t1" if t8: "\<not> is_t8 (spec e)"
  proof -
    note snap = rewards_inv_snapshot[OF inv t8]
    obtain t2 t3 n where s: "settles from t t2" "settles to t2 t3" and t1: "t1 = t3\<lparr>opted_in_supply := n\<rparr>"
      and n: "opted_moved (recipient_of t from) (recipient_of t to) amount (opted_in_supply t) n" and l: "l = []"
      using handle_rewards_on_transfer_Inr[OF run t8 snap] .
    have same: "t1 = t\<lparr>opted_in_supply := n, reward_infos := reward_infos t3\<rparr>"
      unfolding t1 by (subst settles_same[OF s(2)], subst settles_same[OF s(1)]) simp
    have snap2: "\<forall>b. snapshot t2 b \<le> global_reward_per_token t2" using settles_snapshot[OF s(1) snap] by blast
    have "prepared from to amount t t1"
      using settles_snapshot[OF s(2) snap2] settles_keeps_fresh[OF s(2) settles_fresh[OF s(1)]]
        settles_fresh[OF s(2)] settlesD(4)[OF s(1)] settlesD(4)[OF s(2)] n
      by (simp add: prepared_def t1 fresh_def settles_eqs[OF s(2)] settles_eqs[OF s(1)]
          settlesD(1)[OF s(2)] settlesD(1)[OF s(1)])
    with same l show ?thesis by (simp add: t1)
  qed
  moreover have "l = [] \<and> t1 = t" if "is_t8 (spec e)"
    using run that by (simp add: handle_rewards_on_transfer_t8)
  ultimately show "l = []" and "t1 = t\<lparr>opted_in_supply := opted_in_supply t1, reward_infos := reward_infos t1\<rparr>"
    and "is_t8 (spec e) \<Longrightarrow> t1 = t" and "\<not> is_t8 (spec e) \<Longrightarrow> prepared from to amount t t1"
    by (cases "is_t8 (spec e)"; simp)+
qed

text \<open>
  Moving the balances of a prepared state keeps the reward accounting. Debiting the token's
  own account is excluded, except for nothing.
\<close>

lemma prepared_moved:
  assumes prep: "prepared from to amount t t1" and ok: "rewards_ok self t" and sys: "system_ok self t"
    and same: "t1 = t\<lparr>opted_in_supply := opted_in_supply t1, reward_infos := reward_infos t1\<rparr>"
    and le: "amount \<le> balances t from"
    and fits: "to \<noteq> 0 \<longrightarrow> unat (((balances t)(from := balances t from - amount)) to) + unat amount < 2 ^ 256"
    and own: "from = self \<longrightarrow> amount = 0"
  shows "rewards_ok self (t1\<lparr>balances := moved from to amount (balances t)\<rparr>)" (is "rewards_ok self ?t'")
proof -
  have eqs: "balances t1 = balances t" "global_reward_per_token t1 = global_reward_per_token t"
    by (subst same, simp)+
  have rec: "\<And>a. recipient_of t1 a = recipient_of t a" using prep by (simp add: prepared_def)
  have osum: "opted_sum t1 = opted_sum t" by (simp add: opted_sum_def opted_amount_def eqs rec)
  have "opted_sum ?t' + (if recipient_of t from \<noteq> 0 then unat amount else 0)
      = opted_sum t1 + (if recipient_of t to \<noteq> 0 then unat amount else 0)"
    using moved_opted_sum[of amount t1 "from" to] le fits sys by (simp add: eqs rec system_ok_def)
  moreover have "owed_sum ?t' = owed_sum t1"
    using moved_owed_sum[of "from" t1 to amount] prep by (simp add: prepared_def eqs)
  moreover have "owed_sum t1 \<le> precision * unat (moved from to amount (balances t) self)"
    using prep ok mult_le_mono2[OF moved_ge[OF le fits own], of precision]
    unfolding prepared_def rewards_ok_def by linarith
  ultimately show ?thesis
    using prep ok by (simp add: rewards_ok_def prepared_def eqs osum opted_moved_def)
qed

lemma transfer_core_spec:
  assumes run: "transfer_core self from to amount e t = Inr (u, t', l)"
    and inv: "rewards_inv (spec e) self t" and own: "from = self \<longrightarrow> amount = 0"
  shows "rewards_inv (spec e) self t'" "amount \<le> balances t from"
    "balances t' = moved from (target to) amount (balances t)"
    "target to \<noteq> 0 \<longrightarrow> unat (((balances t)(from := balances t from - amount)) (target to)) + unat amount < 2 ^ 256"
    "t' = t\<lparr>balances := balances t', opted_in_supply := opted_in_supply t', reward_infos := reward_infos t'\<rparr>"
    "l = [(self, TIP20Event (build_transfer_event to from amount))]"
    "\<not> is_t8 (spec e) \<Longrightarrow> owed_sum t' \<le> owed_sum t"
proof -
  have keeps: "balances t1 = balances t \<and> l1 = []"
    if "handle_rewards_on_transfer from (target to) amount e t = Inr ((), t1, l1)" for t1 l1
    using handle_rewards_prepares(1)[OF that inv] by (subst handle_rewards_prepares(2)[OF that inv]) simp
  obtain t1 where h: "handle_rewards_on_transfer from (target to) amount e t = Inr ((), t1, [])"
    and le: "amount \<le> balances t from"
    and fits: "target to \<noteq> 0 \<longrightarrow> unat (((balances t)(from := balances t from - amount)) (target to)) + unat amount < 2 ^ 256"
    and t': "t' = t1\<lparr>balances := moved from (target to) amount (balances t)\<rparr>"
    and l: "l = [(self, TIP20Event (build_transfer_event to from amount))]"
    using transfer_core_Inr[OF run keeps] by blast
  note prep = handle_rewards_prepares[OF h inv]
  show "amount \<le> balances t from" "l = [(self, TIP20Event (build_transfer_event to from amount))]"
    "balances t' = moved from (target to) amount (balances t)"
    and "target to \<noteq> 0 \<longrightarrow> unat (((balances t)(from := balances t from - amount)) (target to)) + unat amount < 2 ^ 256"
    using le l t' fits by simp_all
  show "t' = t\<lparr>balances := balances t', opted_in_supply := opted_in_supply t', reward_infos := reward_infos t'\<rparr>"
    unfolding t' by (subst prep(2)) simp
  show "owed_sum t' \<le> owed_sum t" if "\<not> is_t8 (spec e)"
    using moved_owed_sum[of "from" t1 "target to" amount] prep(4)[OF that] keeps[OF h] by (simp add: prepared_def t')
  have sys: "system_ok self t" using inv by (simp add: rewards_inv_def)
  show "rewards_inv (spec e) self t'"
  proof (rule rewards_invI)
    have "allowances t1 = allowances t" by (subst prep(2)) simp
    then show "system_ok self t'"
      using sys prep(3,4) by (cases "is_t8 (spec e)") (simp_all add: system_ok_def t' prepared_def)
    show "settled_ok self t'" if "is_t8 (spec e)"
      using moved_ge[OF le fits own] prep(3)[OF that] inv
      by (simp add: settled_ok_def t' rewards_inv_def settled_sum_def)
    show "rewards_ok self t'" if "\<not> is_t8 (spec e)"
      using prepared_moved[OF prep(4)[OF that] _ sys prep(2) le fits own] inv that
      by (simp add: t' rewards_inv_def)
  qed
qed

section \<open>Every operation keeps the ledger invariant\<close>

lemma ledger_inv_parts: "ledger_inv h self t \<longleftrightarrow> supply_ok t \<and> rewards_inv h self t"
  by (simp add: ledger_inv_def)

lemma transfer_core_inv:
  assumes run: "transfer_core self from to amount e t = Inr (u, t', l)"
    and inv: "ledger_inv (spec e) self t" and own: "from = self \<longrightarrow> amount = 0" and to: "target to \<noteq> 0"
  shows "ledger_inv (spec e) self t'"
proof -
  have r: "rewards_inv (spec e) self t" and s: "supply_ok t" using inv by (simp_all add: ledger_inv_def)
  note sp = transfer_core_spec[OF run r own]
  have "total_supply t' = total_supply t" "supply_cap t' = supply_cap t" by (subst sp(5), simp)+
  then have "supply_ok t'"
    using s moved_total[OF sp(2,4)] to by (simp add: supply_ok_def sp(3))
  with sp(1) show ?thesis by (simp add: ledger_inv_def)
qed

text \<open>A burn: the core transfer to the zero address, then the supply reduction.\<close>

lemma burn_core_pair_inv:
  assumes run: "transfer_core self from (direct ADDRESS_ZERO) amount e t = Inr (u, t1, l)"
    and red: "reduce_supply self amount e t1 = Inr (u', t', l')"
    and inv: "ledger_inv (spec e) self t" and own: "from = self \<longrightarrow> amount = 0"
  shows "ledger_inv (spec e) self t'" and "unat (total_supply t') + unat amount = unat (total_supply t)"
    and "balances t' = (balances t)(from := balances t from - amount)" and "amount \<le> balances t from"
proof -
  have r: "rewards_inv (spec e) self t" and s: "supply_ok t" using inv by (simp_all add: ledger_inv_def)
  note sp = transfer_core_spec[OF run r own]
  have eqs: "total_supply t1 = total_supply t" "supply_cap t1 = supply_cap t" by (subst sp(5), simp)+
  obtain v where v: "t' = t1\<lparr>total_supply := v\<rparr>" "unat (total_supply t) = unat v + unat amount"
    using red eqs by (auto simp: reduce_supply_def set_total_supply_def run_simps checked_simps)
  have "supply_ok t'"
    using s moved_total[OF sp(2,4)] v eqs sp(3)
    by (simp add: supply_ok_def direct_def word_le_nat_alt)
  moreover have "rewards_inv (spec e) self t'"
    using sp(1) by (simp add: v rewards_inv_def system_ok_def settled_ok_def settled_sum_def rewards_ok_def)
  ultimately show "ledger_inv (spec e) self t'" by (simp add: ledger_inv_def)
  show "unat (total_supply t') + unat amount = unat (total_supply t)" using v by simp
  show "balances t' = (balances t)(from := balances t from - amount)" "amount \<le> balances t from"
    using sp(2,3) v by (simp_all add: direct_def moved_def)
qed

text \<open>
  The hook of a one-sided movement (mint, fee payment, fee refund): settle the account, then
  adjust the opted-in supply if it is opted in.
\<close>

definition settle_hook :: "address \<Rightarrow> (tip20_token, unit) op \<Rightarrow> (tip20_token, unit) op" where
  "settle_hook a m = bind (update_rewards a) (\<lambda>d. whenM (d \<noteq> ADDRESS_ZERO) m)"

definition adjusts :: "(u128 \<Rightarrow> u128 \<Rightarrow> bool) \<Rightarrow> (tip20_token, unit) op \<Rightarrow> bool" where
  "adjusts R m \<longleftrightarrow> (\<forall>e t u t' l. m e t = Inr (u, t', l) \<longrightarrow>
     t' = t\<lparr>opted_in_supply := opted_in_supply t'\<rparr> \<and> R (opted_in_supply t) (opted_in_supply t') \<and> l = [])"

lemma adjusts_add: "adjusts (\<lambda>x y. unat y = unat x + unat amount) (add_opted_in amount)"
  unfolding adjusts_def using add_opted_in_Inr by fastforce

lemma adjusts_sub: "adjusts (\<lambda>x y. unat y + unat amount = unat x) (sub_opted_in amount)"
  unfolding adjusts_def using sub_opted_in_Inr by fastforce

lemma settle_hook_t8: "is_t8 (spec e) \<Longrightarrow> settle_hook a m e t = Inr ((), t, [])"
  by (simp add: settle_hook_def bind_andthen update_rewards_t8 exec_simps)

lemma settle_hook_Inr:
  assumes run: "settle_hook a m e t = Inr (u, t1, l)" and inv: "rewards_inv (spec e) self t"
    and m: "adjusts R m" and t8: "\<not> is_t8 (spec e)"
  obtains t2 n where "settles a t t2" "t1 = t2\<lparr>opted_in_supply := n\<rparr>" "l = []"
    "if recipient_of t a = 0 then n = opted_in_supply t else R (opted_in_supply t) n"
proof -
  obtain d t2 l2 l3 where up: "update_rewards a e t = Inr (d, t2, l2)"
    and w: "whenM (d \<noteq> ADDRESS_ZERO) m e t2 = Inr ((), t1, l3)" and l: "l = l2 @ l3"
    using run by (auto simp: settle_hook_def bind_eq_Inr)
  note s = update_rewards_settles[OF up t8 rewards_inv_snapshot[OF inv t8]]
  have l2: "l2 = []" by (rule update_rewards_log[OF up])
  show thesis
  proof (cases "d = 0")
    case True
    then have "t1 = t2" "l3 = []" using w by (simp_all add: whenM_eq_Inr)
    then show thesis using that[OF s(1), of "opted_in_supply t2"] True s l l2 settles_eqs(3)[OF s(1)] by simp
  next
    case False
    then have "m e t2 = Inr ((), t1, l3)" using w by (simp add: whenM_eq_Inr)
    from m[unfolded adjusts_def, rule_format, OF this]
    have "t1 = t2\<lparr>opted_in_supply := opted_in_supply t1\<rparr>" "R (opted_in_supply t2) (opted_in_supply t1)" "l3 = []"
      by blast+
    then show thesis
      using that[OF s(1), of "opted_in_supply t1"] False s(2) l l2 settles_eqs(3)[OF s(1)] by simp
  qed
qed

lemma settle_hook_same:
  assumes run: "settle_hook a m e t = Inr (u, t1, l)" and inv: "rewards_inv (spec e) self t" and m: "adjusts R m"
  shows "t1 = t\<lparr>opted_in_supply := opted_in_supply t1, reward_infos := reward_infos t1\<rparr>" and "l = []"
proof -
  have "t1 = t\<lparr>opted_in_supply := opted_in_supply t1, reward_infos := reward_infos t1\<rparr> \<and> l = []"
  proof (cases "is_t8 (spec e)")
    case False
    from run inv m False obtain t2 n where s: "settles a t t2" and t1: "t1 = t2\<lparr>opted_in_supply := n\<rparr>" and "l = []"
      by (rule settle_hook_Inr)
    then show ?thesis unfolding t1 by (subst settles_same[OF s]) simp
  qed (use run in \<open>simp add: settle_hook_t8\<close>)
  then show "t1 = t\<lparr>opted_in_supply := opted_in_supply t1, reward_infos := reward_infos t1\<rparr>" and "l = []" by auto
qed

lemma settle_hook_recipient:
  assumes run: "settle_hook a m e t = Inr (u, t1, l)" and inv: "rewards_inv (spec e) self t" and m: "adjusts R m"
  shows "recipient_of t1 b = recipient_of t b"
proof (cases "is_t8 (spec e)")
  case False
  from run inv m False obtain t2 n where s: "settles a t t2" and t1: "t1 = t2\<lparr>opted_in_supply := n\<rparr>"
    by (rule settle_hook_Inr)
  then show ?thesis by (simp add: settlesD(1)[OF s])
qed (use run in \<open>simp add: settle_hook_t8\<close>)

lemma settles_prepared:
  assumes s: "settles a t t2" and inv: "rewards_inv h self t" "\<not> is_t8 h"
    and ends: "from = a \<and> recipient_of t to = 0 \<or> to = a \<and> recipient_of t from = 0"
    and n: "opted_moved (recipient_of t from) (recipient_of t to) amount (opted_in_supply t) n"
  shows "prepared from to amount t (t2\<lparr>opted_in_supply := n\<rparr>)"
  using settles_snapshot[OF s rewards_inv_snapshot[OF inv]] settles_fresh[OF s] settlesD(4)[OF s] n ends
  by (auto simp: prepared_def fresh_def settles_eqs[OF s] settlesD(1)[OF s])

lemma credit_hook_prepared:
  assumes "settle_hook a (add_opted_in amount) e t = Inr (u, t1, l)" "rewards_inv (spec e) self t"
    "\<not> is_t8 (spec e)" "recipient_of t b = 0"
  shows "prepared b a amount t t1"
proof -
  from assms(1,2) adjusts_add assms(3) obtain t2 n where s: "settles a t t2" and t1: "t1 = t2\<lparr>opted_in_supply := n\<rparr>"
    and n: "if recipient_of t a = 0 then n = opted_in_supply t else unat n = unat (opted_in_supply t) + unat amount"
    by (rule settle_hook_Inr)
  show ?thesis
    unfolding t1 using assms(4) n
    by (intro settles_prepared[OF s assms(2,3)]) (auto simp: opted_moved_def split: if_splits)
qed

lemma debit_hook_prepared:
  assumes "settle_hook a (sub_opted_in amount) e t = Inr (u, t1, l)" "rewards_inv (spec e) self t"
    "\<not> is_t8 (spec e)" "recipient_of t b = 0"
  shows "prepared a b amount t t1"
proof -
  from assms(1,2) adjusts_sub assms(3) obtain t2 n where s: "settles a t t2" and t1: "t1 = t2\<lparr>opted_in_supply := n\<rparr>"
    and n: "if recipient_of t a = 0 then n = opted_in_supply t else unat n + unat amount = unat (opted_in_supply t)"
    by (rule settle_hook_Inr)
  show ?thesis
    unfolding t1 using assms(4) n
    by (intro settles_prepared[OF s assms(2,3)]) (auto simp: opted_moved_def split: if_splits)
qed

text \<open>Minting.\<close>

lemma mint_core_Inr:
  assumes run: "mint_core self to (total_supply t) amount e t = Inr (u, t', l)"
    and inv: "rewards_inv (spec e) self t"
  obtains t1 v where "settle_hook (target to) (add_opted_in amount) e t = Inr ((), t1, [])"
    "unat v = unat (total_supply t) + unat amount" "v \<le> supply_cap t"
    "unat (balances t (target to)) + unat amount < 2 ^ 256"
    "t' = t1\<lparr>total_supply := v, balances := (balances t)(target to := balances t (target to) + amount)\<rparr>"
    "l = [(self, TIP20Event (build_transfer_event to ADDRESS_ZERO amount))]"
proof -
  obtain v t1 l1 t2 l2 where v: "unat v = unat (total_supply t) + unat amount" "v \<le> supply_cap t"
    and h: "settle_hook (target to) (add_opted_in amount) e t = Inr ((), t1, l1)"
    and inc: "increment_balance (target to) amount e (t1\<lparr>total_supply := v\<rparr>) = Inr ((), t2, l2)"
    and fin: "t' = t2" "l = l1 @ l2 @ [(self, TIP20Event (build_transfer_event to ADDRESS_ZERO amount))]"
    using run
    by (auto simp: mint_core_def bind_eq_Inr ensure_eq_Inr ok_or_eq_Inr checked_simps set_total_supply_def
        emit20_def handle_rewards_on_mint_def settle_hook_def[symmetric])
  note same = settle_hook_same[OF h inv adjusts_add]
  have "balances t1 = balances t" by (subst same(1)) simp
  with inc that[OF _ v] h same(2) fin show thesis by (simp add: increment_balance_Inr)
qed

lemma credited_opted_sum:
  assumes "unat (balances t a) + unat amount < 2 ^ 256"
  shows "opted_sum (with_balance a (balances t a + amount) t) = opted_sum t + (if recipient_of t a \<noteq> 0 then unat amount else 0)"
proof -
  have "unat (balances t a + amount) = unat (balances t a) + unat amount"
    using assms by (simp add: unat_word_ariths)
  with opted_sum_balance[of t a "balances t a + amount"] show ?thesis
    by (simp add: opted_amount_def split: if_splits)
qed

lemma mint_core_inv:
  assumes run: "mint_core self to (total_supply t) amount e t = Inr (u, t', l)"
    and inv: "ledger_inv (spec e) self t"
  shows "ledger_inv (spec e) self t'"
proof -
  have r: "rewards_inv (spec e) self t" and s: "supply_ok t" using inv by (simp_all add: ledger_inv_def)
  let ?a = "target to"
  from run r obtain t1 v where h: "settle_hook ?a (add_opted_in amount) e t = Inr ((), t1, [])"
    and v: "unat v = unat (total_supply t) + unat amount" "v \<le> supply_cap t"
    and fits: "unat (balances t ?a) + unat amount < 2 ^ 256"
    and t': "t' = t1\<lparr>total_supply := v, balances := (balances t)(?a := balances t ?a + amount)\<rparr>"
    and l: "l = [(self, TIP20Event (build_transfer_event to ADDRESS_ZERO amount))]"
    by (rule mint_core_Inr)
  note same = settle_hook_same(1)[OF h r adjusts_add]
  have eqs: "balances t1 = balances t" "supply_cap t1 = supply_cap t" "allowances t1 = allowances t"
    "global_reward_per_token t1 = global_reward_per_token t" by (subst same, simp)+
  have add: "unat (balances t ?a + amount) = unat (balances t ?a) + unat amount"
    using fits by (simp add: unat_word_ariths)
  have "supply_ok t'"
    using s v total_upd[of "balances t" ?a "balances t ?a + amount"] by (simp add: supply_ok_def t' eqs add)
  moreover have "rewards_inv (spec e) self t'"
  proof (rule rewards_invI)
    have ge: "unat (balances t self) \<le> unat (balances t' self)" by (simp add: t' add)
    show "settled_ok self t'" if "is_t8 (spec e)"
    proof -
      have "t1 = t" using h that by (simp add: settle_hook_t8)
      then have "settled_sum t' = settled_sum t" by (simp add: t' settled_sum_def)
      with r ge show ?thesis by (simp add: rewards_inv_def settled_ok_def)
    qed
    show "system_ok self t'"
      using r by (simp add: system_ok_def t' eqs rewards_inv_def settle_hook_recipient[OF h r adjusts_add])
    show "rewards_ok self t'" if t8: "\<not> is_t8 (spec e)"
    proof -
      have z: "recipient_of t 0 = 0" and ok: "rewards_ok self t" using r t8 by (simp_all add: rewards_inv_def system_ok_def)
      have p: "prepared 0 ?a amount t t1" by (rule credit_hook_prepared[OF h r t8 z])
      have rec: "\<And>b. recipient_of t1 b = recipient_of t b" using p by (simp add: prepared_def)
      have "opted_sum t1 = opted_sum t" by (simp add: opted_sum_def opted_amount_def eqs rec)
      then have "opted_sum t' = opted_sum t + (if recipient_of t ?a \<noteq> 0 then unat amount else 0)"
        using credited_opted_sum[of t1 ?a amount] fits by (simp add: t' eqs rec opted_sum_def)
      moreover have "owed_sum t' = owed_sum t1"
        using owed_sum_balance[of ?a t1 "balances t ?a + amount"] p by (simp add: prepared_def t' eqs owed_sum_def)
      moreover have "owed_sum t1 \<le> precision * unat (balances t' self)"
        using p ok mult_le_mono2[OF ge, of precision] unfolding prepared_def rewards_ok_def by linarith
      ultimately show ?thesis
        using p ok z by (simp add: rewards_ok_def prepared_def opted_moved_def t' eqs)
    qed
  qed
  ultimately show ?thesis by (simp add: ledger_inv_def)
qed

text \<open>Paying a fee and refunding it.\<close>

lemma hook_moved_inv:
  assumes inv: "ledger_inv h self t"
    and same: "t1 = t\<lparr>opted_in_supply := opted_in_supply t1, reward_infos := reward_infos t1\<rparr>"
    and rec: "\<And>a. recipient_of t1 a = recipient_of t a" and t8: "is_t8 h \<Longrightarrow> t1 = t"
    and prep: "\<not> is_t8 h \<Longrightarrow> prepared from to amount t t1"
    and le: "amount \<le> balances t from" and to: "to \<noteq> 0"
    and fits: "unat (((balances t)(from := balances t from - amount)) to) + unat amount < 2 ^ 256"
    and own: "from = self \<longrightarrow> amount = 0"
  shows "ledger_inv h self (t1\<lparr>balances := moved from to amount (balances t)\<rparr>)" (is "ledger_inv h self ?t'")
proof -
  have r: "rewards_inv h self t" and s: "supply_ok t" using inv by (simp_all add: ledger_inv_def)
  have sys: "system_ok self t" using r by (simp add: rewards_inv_def)
  have fits': "to \<noteq> 0 \<longrightarrow> unat (((balances t)(from := balances t from - amount)) to) + unat amount < 2 ^ 256"
    using fits by simp
  have eqs: "total_supply t1 = total_supply t" "supply_cap t1 = supply_cap t" "allowances t1 = allowances t"
    by (subst same, simp)+
  have "supply_ok ?t'" using s moved_total[OF le fits'] to by (simp add: supply_ok_def eqs)
  moreover have "rewards_inv h self ?t'"
  proof (rule rewards_invI)
    show "system_ok self ?t'" using sys by (simp add: system_ok_def eqs rec)
    show "settled_ok self ?t'" if "is_t8 h"
      using moved_ge[OF le fits' own] t8[OF that] r by (simp add: rewards_inv_def settled_ok_def settled_sum_def)
    show "rewards_ok self ?t'" if "\<not> is_t8 h"
      using prepared_moved[OF prep[OF that] _ sys same le fits' own] r that by (simp add: rewards_inv_def)
  qed
  ultimately show ?thesis by (simp add: ledger_inv_def)
qed

lemma fee_cores_eq:
  "fee_pre_core self from amount =
     bind (settle_hook from (sub_opted_in amount)) (\<lambda>_.
     bind (decrement_balance self from amount) (\<lambda>_. increment_balance TIP_FEE_MANAGER_ADDRESS amount))"
  "fee_post_core self to amount =
     bind (settle_hook to (add_opted_in amount)) (\<lambda>_.
     bind (decrement_balance self TIP_FEE_MANAGER_ADDRESS amount) (\<lambda>_. increment_balance to amount))"
  by (simp_all add: fee_pre_core_def fee_post_core_def settle_hook_def bind_assoc)

lemma debit_credit_Inr:
  assumes "bind (decrement_balance self from amount) (\<lambda>_. increment_balance to amount) e t = Inr (u, t', l)"
    and "to \<noteq> 0"
  shows "amount \<le> balances t from" "t' = t\<lparr>balances := moved from to amount (balances t)\<rparr>" "l = []"
    "unat (((balances t)(from := balances t from - amount)) to) + unat amount < 2 ^ 256"
  using assms by (auto simp: bind_eq_Inr decrement_balance_Inr increment_balance_Inr moved_def Let_def split: if_splits)

lemma fee_manager_ne_zero [simp]: "TIP_FEE_MANAGER_ADDRESS \<noteq> 0"
  by (simp add: address_defs)

lemma fee_pre_core_inv:
  assumes run: "fee_pre_core self from amount e t = Inr (u, t', l)"
    and inv: "ledger_inv (spec e) self t" and own: "from \<noteq> self"
  shows "ledger_inv (spec e) self t'" "amount \<le> balances t from"
    "balances t' = moved from TIP_FEE_MANAGER_ADDRESS amount (balances t)" "l = []"
proof -
  have r: "rewards_inv (spec e) self t" using inv by (simp add: ledger_inv_def)
  obtain t1 l1 l2 where h: "settle_hook from (sub_opted_in amount) e t = Inr ((), t1, l1)"
    and m: "bind (decrement_balance self from amount) (\<lambda>_. increment_balance TIP_FEE_MANAGER_ADDRESS amount) e t1 = Inr (u, t', l2)"
    and l: "l = l1 @ l2"
    using run unfolding fee_cores_eq bind_eq_Inr[of "settle_hook from (sub_opted_in amount)"] by auto
  note same = settle_hook_same[OF h r adjusts_sub] and rec = settle_hook_recipient[OF h r adjusts_sub]
  have b: "balances t1 = balances t" by (subst same(1)) simp
  note m' = debit_credit_Inr[OF m fee_manager_ne_zero, unfolded b]
  have fm: "recipient_of t TIP_FEE_MANAGER_ADDRESS = 0" using r by (simp add: rewards_inv_def system_ok_def)
  show "ledger_inv (spec e) self t'"
    unfolding m'(2)
  proof (rule hook_moved_inv[OF inv same(1) rec _ _ m'(1) fee_manager_ne_zero m'(4)])
    show "t1 = t" if "is_t8 (spec e)" using h that by (simp add: settle_hook_t8)
    show "prepared from TIP_FEE_MANAGER_ADDRESS amount t t1" if "\<not> is_t8 (spec e)"
      by (rule debit_hook_prepared[OF h r that fm])
  qed (use own in simp)
  show "amount \<le> balances t from" "balances t' = moved from TIP_FEE_MANAGER_ADDRESS amount (balances t)" "l = []"
    using m' l same(2) by simp_all
qed

lemma fee_post_core_inv:
  assumes run: "fee_post_core self to amount e t = Inr (u, t', l)"
    and inv: "ledger_inv (spec e) self t" and to: "to \<noteq> 0" and own: "self \<noteq> TIP_FEE_MANAGER_ADDRESS"
  shows "ledger_inv (spec e) self t'" "amount \<le> balances t TIP_FEE_MANAGER_ADDRESS"
    "balances t' = moved TIP_FEE_MANAGER_ADDRESS to amount (balances t)" "l = []"
proof -
  have r: "rewards_inv (spec e) self t" using inv by (simp add: ledger_inv_def)
  obtain t1 l1 l2 where h: "settle_hook to (add_opted_in amount) e t = Inr ((), t1, l1)"
    and m: "bind (decrement_balance self TIP_FEE_MANAGER_ADDRESS amount) (\<lambda>_. increment_balance to amount) e t1 = Inr (u, t', l2)"
    and l: "l = l1 @ l2"
    using run unfolding fee_cores_eq bind_eq_Inr[of "settle_hook to (add_opted_in amount)"] by auto
  note same = settle_hook_same[OF h r adjusts_add] and rec = settle_hook_recipient[OF h r adjusts_add]
  have b: "balances t1 = balances t" by (subst same(1)) simp
  note m' = debit_credit_Inr[OF m to, unfolded b]
  have fm: "recipient_of t TIP_FEE_MANAGER_ADDRESS = 0" using r by (simp add: rewards_inv_def system_ok_def)
  show "ledger_inv (spec e) self t'"
    unfolding m'(2)
  proof (rule hook_moved_inv[OF inv same(1) rec _ _ m'(1) to m'(4)])
    show "t1 = t" if "is_t8 (spec e)" using h that by (simp add: settle_hook_t8)
    show "prepared TIP_FEE_MANAGER_ADDRESS to amount t t1" if "\<not> is_t8 (spec e)"
      by (rule credit_hook_prepared[OF h r that fm])
  qed (use own in simp)
  show "amount \<le> balances t TIP_FEE_MANAGER_ADDRESS" "balances t' = moved TIP_FEE_MANAGER_ADDRESS to amount (balances t)" "l = []"
    using m' l same(2) by simp_all
qed

text \<open>Claiming rewards: the claim is paid in full out of the token's own balance.\<close>

lemma settled_sum_info:
  "settled_sum (with_info a i t) + unat (reward_balance (reward_infos t a)) =
   settled_sum t + unat (reward_balance i)"
  using sum_fun_upd[of "\<lambda>_ j. unat (reward_balance j)" "reward_infos t" a i] by (simp add: settled_sum_def)

lemma settled_ge: "unat (reward_balance (reward_infos t a)) \<le> settled_sum t"
  unfolding settled_sum_def by (rule member_le_sum) auto

lemma update_rewards_keeps:
  assumes up: "update_rewards a e t = Inr (d, t1, l)" and inv: "ledger_inv (spec e) self t"
  shows "ledger_inv (spec e) self t1" "balances t1 = balances t" "recipient_of t1 b = recipient_of t b" "l = []"
    "d = (if is_t8 (spec e) then 0 else recipient_of t a)" "is_t8 (spec e) \<or> fresh a t1"
    "t1 = t\<lparr>reward_infos := reward_infos t1\<rparr>"
proof -
  have r: "rewards_inv (spec e) self t" using inv by (simp add: ledger_inv_def)
  have "ledger_inv (spec e) self t1 \<and> balances t1 = balances t \<and> recipient_of t1 b = recipient_of t b \<and>
    d = (if is_t8 (spec e) then 0 else recipient_of t a) \<and> (is_t8 (spec e) \<or> fresh a t1) \<and>
    t1 = t\<lparr>reward_infos := reward_infos t1\<rparr>"
  proof (cases "is_t8 (spec e)")
    case False
    note s = update_rewards_settles[OF up False rewards_inv_snapshot[OF r False]]
    have "rewards_inv (spec e) self t1"
      using r False settles_rewards_ok[OF s(1)] settles_system_ok[OF s(1)]
      by (intro rewards_invI) (simp_all add: rewards_inv_def)
    then show ?thesis
      using inv False s settles_eqs(1)[OF s(1)] settlesD(1)[OF s(1)] settles_fresh[OF s(1)]
        settles_same[OF s(1)] settles_supply_ok[OF s(1)] unfolding ledger_inv_def by metis
  qed (use up inv in \<open>simp add: update_rewards_t8\<close>)
  then show "ledger_inv (spec e) self t1" "balances t1 = balances t" "recipient_of t1 b = recipient_of t b"
    "d = (if is_t8 (spec e) then 0 else recipient_of t a)" "is_t8 (spec e) \<or> fresh a t1"
    "t1 = t\<lparr>reward_infos := reward_infos t1\<rparr>" by blast+
  show "l = []" by (rule update_rewards_log[OF up])
qed

text \<open>The state after a claim of \<open>m\<close> by \<open>a\<close>, from the settled state \<open>t1\<close>.\<close>

definition claimed :: "address \<Rightarrow> address \<Rightarrow> u256 \<Rightarrow> u128 \<Rightarrow> tip20_token \<Rightarrow> tip20_token" where
  "claimed self a m n t1 =
     (with_info a (reward_infos t1 a\<lparr>reward_balance := 0\<rparr>) t1)
       \<lparr>opted_in_supply := n, balances := moved self a m (balances t1)\<rparr>"

lemma claim_core_Inr:
  assumes run: "claim_core self a e t = Inr (m, t', l)" and inv: "ledger_inv (spec e) self t"
    and a: "a \<noteq> 0" "a \<noteq> self"
  obtains d t1 n where "update_rewards a e t = Inr (d, t1, [])" "m = reward_balance (reward_infos t1 a)"
    "t' = claimed self a m n t1" "m \<le> balances t self"
    "unat n = unat (opted_in_supply t1) + (if d \<noteq> 0 then unat m else 0)"
    "unat (((balances t)(self := balances t self - m)) a) + unat m < 2 ^ 256"
proof -
  obtain d t1 l1 where up: "update_rewards a e t = Inr (d, t1, l1)"
    using run by (auto simp: claim_core_def bind_eq_Inr[of "update_rewards a"])
  note k = update_rewards_keeps[OF up inv]
  let ?amount = "reward_balance (reward_infos t1 a)"
  let ?t2 = "with_info a (reward_infos t1 a\<lparr>reward_balance := 0\<rparr>) t1"
  have "settled_ok self t1" using k(1) by (simp add: ledger_inv_def rewards_inv_def)
  with settled_ge[of t1 a] have le: "?amount \<le> balances t self"
    by (simp add: settled_ok_def word_le_nat_alt k(2))
  then have min: "min ?amount (balances t self) = ?amount" by simp
  have sub: "checked_sub ?amount ?amount = Some 0" "checked_sub (balances t self) ?amount = Some (balances t self - ?amount)"
    using le by (simp_all add: checked_sub_def)
  have add: "checked_add x ?amount = Some b \<longleftrightarrow> unat x + unat ?amount < 2 ^ 256 \<and> b = x + ?amount" for x b
    by (auto simp: checked_add_def)
  note exec = claim_core_def bind_andthen[of "update_rewards a"] bind_andthen[of "add_opted_in x" for x] up exec_simps
    k(2,4) min sub Let_def set_reward_info_def set_balance_def emit20_def
  show thesis
  proof (cases "?amount = 0")
    case True
    have "checked_sub 0 0 = Some (0 :: u256)" by (simp add: checked_sub_def)
    with True have "m = ?amount" "t' = ?t2" using run by (simp_all add: exec with_info_def)
    then show thesis
      using that[of d t1 "opted_in_supply t1"] True up k(4) a(1) unat_bound[of "balances t a"]
      by (simp add: claimed_def moved_def with_info_def Let_def k(2))
  next
    case False
    let ?b = "((balances t)(self := balances t self - ?amount)) a"
    let ?t3 = "t1\<lparr>reward_infos := (reward_infos t1)(a := reward_infos t1 a\<lparr>reward_balance := 0\<rparr>),
       balances := (balances t)(self := balances t self - ?amount, a := ?b + ?amount)\<rparr>"
    have pos: "?amount > 0" "balances t self > 0"
      using False le by (simp_all add: word_neq_0_conv order_less_le_trans[of 0 ?amount])
    obtain b where b: "checked_add ?b ?amount = Some b"
      using run pos a(2) by (cases "checked_add ?b ?amount") (simp_all add: exec)
    then have fits: "unat ?b + unat ?amount < 2 ^ 256" and b': "b = ?b + ?amount" by (simp_all only: add)
    have "m = ?amount \<and> (\<exists>l. (if d \<noteq> 0 then add_opted_in ?amount e ?t3 else Inr ((), ?t3, [])) = Inr ((), t', l))"
      using run pos b a(2) b'
      by (cases "add_opted_in ?amount e ?t3") (auto simp: exec split: if_splits)
    then have m: "m = ?amount" and r: "\<exists>l. (if d \<noteq> 0 then add_opted_in m e ?t3 else Inr ((), ?t3, [])) = Inr ((), t', l)"
      by auto
    have "\<exists>n. t' = ?t3\<lparr>opted_in_supply := n\<rparr> \<and> unat n = unat (opted_in_supply t1) + (if d \<noteq> 0 then unat m else 0)"
      using r add_opted_in_Inr[of m e ?t3 "()" t']
      by (cases "d = 0") (auto intro: exI[of _ "opted_in_supply t1"])
    then obtain n where "t' = ?t3\<lparr>opted_in_supply := n\<rparr>" "unat n = unat (opted_in_supply t1) + (if d \<noteq> 0 then unat m else 0)"
      by blast
    then show thesis
      using that[of d t1 n] up k(4) m le fits a(1) by (simp add: claimed_def moved_def with_info_def Let_def k(2))
  qed
qed

lemma claimed_owed:
  assumes "fresh self t1" "fresh a t1" "reward_balance (reward_infos t1 a) = m"
  shows "owed_sum (claimed self a m n t1) + precision * unat m = owed_sum t1"
proof -
  let ?t2 = "with_info a (reward_infos t1 a\<lparr>reward_balance := 0\<rparr>) t1"
  have f: "fresh self ?t2" "fresh a ?t2" using assms by (auto simp: fresh_def with_info_def)
  have "owed_sum (claimed self a m n t1) = owed_sum ?t2"
    using moved_owed_sum[OF f, of m] by (simp add: claimed_def owed_sum_def)
  moreover have "owed_sum ?t2 + precision * unat m = owed_sum t1"
    using owed_sum_info[of a "reward_infos t1 a\<lparr>reward_balance := 0\<rparr>" t1] assms(3)
    by (simp add: owed_amount_def opted_amount_def)
  ultimately show ?thesis by simp
qed

lemma claim_core_inv:
  assumes run: "claim_core self a e t = Inr (m, t', l)" and inv: "ledger_inv (spec e) self t"
    and a: "a \<noteq> 0" "a \<noteq> self"
  shows "ledger_inv (spec e) self t'"
proof -
  from run inv a obtain d t1 n where up: "update_rewards a e t = Inr (d, t1, [])"
    and m: "m = reward_balance (reward_infos t1 a)" and t': "t' = claimed self a m n t1" and le: "m \<le> balances t self"
    and n: "unat n = unat (opted_in_supply t1) + (if d \<noteq> 0 then unat m else 0)"
    and fits: "unat (((balances t)(self := balances t self - m)) a) + unat m < 2 ^ 256"
    by (rule claim_core_Inr)
  note k = update_rewards_keeps[OF up inv]
  have r1: "rewards_inv (spec e) self t1" and s1: "supply_ok t1" using k(1) by (simp_all add: ledger_inv_def)
  have sys: "system_ok self t1" using r1 by (simp add: rewards_inv_def)
  have fits1: "a \<noteq> 0 \<longrightarrow> unat (((balances t1)(self := balances t1 self - m)) a) + unat m < 2 ^ 256"
    and le1: "m \<le> balances t1 self" using fits le by (simp_all add: k(2))
  have bal: "unat (balances t' self) + unat m = unat (balances t1 self)"
    using a le1 by (simp add: t' claimed_def moved_def Let_def unat_sub word_le_nat_alt)
  have "supply_ok t'"
    using s1 moved_total[OF le1 fits1] a(1) by (simp add: supply_ok_def t' claimed_def with_info_def)
  moreover have "rewards_inv (spec e) self t'"
  proof (rule rewards_invI)
    show "system_ok self t'" using sys by (auto simp: system_ok_def t' claimed_def with_info_def)
    have "settled_sum t' + unat m = settled_sum t1"
      using settled_sum_info[of a "reward_infos t1 a\<lparr>reward_balance := 0\<rparr>" t1]
      by (simp add: t' claimed_def m settled_sum_def)
    then show "settled_ok self t'"
      using r1 bal unfolding settled_ok_def rewards_inv_def by linarith
    show "rewards_ok self t'" if t8: "\<not> is_t8 (spec e)"
    proof -
      have ok: "rewards_ok self t1" using r1 t8 by (simp add: rewards_inv_def)
      have "fresh self t1" using sys by (simp add: fresh_def system_ok_def)
      then have "owed_sum t' + precision * unat m = owed_sum t1"
        using claimed_owed[of self t1 a m n] k(6) t8 m by (simp add: t')
      moreover have "precision * unat (balances t1 self) = precision * unat (balances t' self) + precision * unat m"
        by (simp add: bal[symmetric] distrib_left)
      ultimately have "owed_sum t' \<le> precision * unat (balances t' self)"
        using ok unfolding rewards_ok_def by linarith
      moreover have "opted_sum t' = opted_sum t1 + (if recipient_of t1 a \<noteq> 0 then unat m else 0)"
        using moved_opted_sum[of m t1 self a] le1 fits1 sys
          opted_sum_cong[of t' "t1\<lparr>balances := moved self a m (balances t1)\<rparr>"]
        by (simp add: t' claimed_def system_ok_def)
      moreover have "d = recipient_of t1 a" using k(3,5) t8 by simp
      ultimately show ?thesis
        using ok n by (auto simp: rewards_ok_def t' claimed_def)
    qed
  qed
  ultimately show ?thesis by (simp add: ledger_inv_def)
qed

text \<open>Distributing a reward: the accumulator grows by no more than what was paid in.\<close>

lemma owed_sum_global:
  assumes "\<forall>a. snapshot t a \<le> global_reward_per_token t" "unat g = unat (global_reward_per_token t) + d"
  shows "owed_sum (t\<lparr>global_reward_per_token := g\<rparr>) = owed_sum t + opted_sum t * d"
proof -
  have "owed_amount g b i = owed_amount (global_reward_per_token t) b i + opted_amount i b * d"
    if "reward_per_token i \<le> global_reward_per_token t" for b i
  proof -
    have "unat g - unat (reward_per_token i) = (unat (global_reward_per_token t) - unat (reward_per_token i)) + d"
      using that assms(2) by (simp add: word_le_nat_alt)
    then show ?thesis by (simp add: owed_amount_def distrib_left)
  qed
  with assms(1) show ?thesis
    by (simp add: owed_sum_def opted_sum_def sum.distrib sum_distrib_right)
qed

lemma distribute_core_inv:
  assumes run: "distribute_core self a amount e t = Inr (u, t', l)" and inv: "ledger_inv (spec e) self t"
    and a: "a \<noteq> self" and self: "self \<noteq> 0"
  shows "ledger_inv (spec e) self t'"
proof -
  obtain t1 l1 dl g where tr: "transfer_core self a (direct self) amount e t = Inr ((), t1, l1)"
    and c: "(case checked_mul amount ACC_PRECISION of None \<Rightarrow> None
              | Some v \<Rightarrow> checked_div v (ucast (opted_in_supply t1))) = Some dl"
    and g: "unat g = unat (global_reward_per_token t1) + unat dl" and t': "t' = t1\<lparr>global_reward_per_token := g\<rparr>"
    using run
    by (auto simp: distribute_core_def bind_eq_Inr ok_or_eq_Inr ensure_eq_Inr emit20_def checked_add_Some)
  have dl: "unat dl = unat amount * precision div unat (opted_in_supply t1)"
    using c by (cases "checked_mul amount ACC_PRECISION") (auto simp: checked_simps unat_ucast_up)
  have self': "target (direct self) \<noteq> 0" using self by (simp add: direct_def)
  have inv1: "ledger_inv (spec e) self t1" using transfer_core_inv[OF tr inv _ self'] a by simp
  have r: "rewards_inv (spec e) self t" using inv by (simp add: ledger_inv_def)
  have own: "a = self \<longrightarrow> amount = 0" using a by simp
  note sp = transfer_core_spec[OF tr r own]
  have bal: "unat (balances t1 self) = unat (balances t self) + unat amount"
    using sp(4) a self by (simp add: sp(3) direct_def moved_def Let_def unat_word_ariths)
  have "rewards_ok self t'" if t8: "\<not> is_t8 (spec e)"
  proof -
    have ok1: "rewards_ok self t1" and ok: "rewards_ok self t"
      using inv inv1 t8 by (simp_all add: ledger_inv_def rewards_inv_def)
    have "opted_sum t1 * unat dl \<le> precision * unat amount"
      using ok1 by (simp add: rewards_ok_def dl mult.commute[of precision])
    moreover have "owed_sum t' = owed_sum t1 + opted_sum t1 * unat dl"
      using owed_sum_global[of t1 g "unat dl"] ok1 g by (simp add: rewards_ok_def t')
    moreover have "precision * unat (balances t1 self) = precision * unat (balances t self) + precision * unat amount"
      by (simp add: bal distrib_left)
    ultimately have "owed_sum t' \<le> precision * unat (balances t1 self)"
      using sp(7)[OF t8] ok unfolding rewards_ok_def by linarith
    moreover have "snapshot t1 b \<le> g" for b
      using ok1 g unfolding rewards_ok_def word_le_nat_alt by (metis le_add1 le_trans)
    ultimately show ?thesis using ok1 by (simp add: rewards_ok_def t')
  qed
  then show ?thesis
    using inv1 by (simp add: ledger_inv_def rewards_inv_def t' supply_ok_def system_ok_def settled_ok_def settled_sum_def)
qed

text \<open>Changing the reward recipient.\<close>

lemma set_recipient_core_inv:
  assumes run: "set_recipient_core self a r e t = Inr (u, t', l)" and inv: "ledger_inv (spec e) self t"
    and a: "a \<noteq> 0" "a \<noteq> self" "a \<noteq> TIP_FEE_MANAGER_ADDRESS" and t8: "\<not> is_t8 (spec e)"
  shows "ledger_inv (spec e) self t'"
proof -
  obtain d t1 l1 t2 l2 where up: "update_rewards a e t = Inr (d, t1, l1)"
    and w: "(if d \<noteq> 0 then whenM (r = 0) (sub_opted_in (balances t1 a))
           else whenM (r \<noteq> 0) (add_opted_in (balances t1 a))) e t1 = Inr ((), t2, l2)"
    and t': "t' = with_info a (reward_infos t2 a\<lparr>reward_recipient := r\<rparr>) t2"
    using run by (auto simp: set_recipient_core_def bind_eq_Inr emit20_def set_reward_info_def with_info_def)
  note k = update_rewards_keeps[OF up inv]
  have d: "d = recipient_of t1 a" using k(3,5) t8 by simp
  obtain n where t2: "t2 = t1\<lparr>opted_in_supply := n\<rparr>"
    and n: "opted_moved d r (balances t1 a) (opted_in_supply t1) n"
    using shift_opted_Inr[OF w] by blast
  let ?i = "reward_infos t1 a\<lparr>reward_recipient := r\<rparr>"
  have r1: "rewards_inv (spec e) self t1" and s1: "supply_ok t1" using k(1) by (simp_all add: ledger_inv_def)
  then have ok: "rewards_ok self t1" and sys: "system_ok self t1" using t8 by (simp_all add: rewards_inv_def)
  have eq: "t' = (with_info a ?i t1)\<lparr>opted_in_supply := n\<rparr>" by (simp add: t' t2 with_info_def)
  have "rewards_inv (spec e) self t" using inv by (simp add: ledger_inv_def)
  note st = update_rewards_settles(1)[OF up t8 rewards_inv_snapshot[OF this t8]]
  have "snapshot t1 a = global_reward_per_token t1" using settlesD(2)[OF st] settles_eqs(2)[OF st] by simp
  then have "owed_sum t' = owed_sum t1"
    using owed_sum_info[of a ?i t1] by (simp add: eq owed_amount_def)
  moreover have "opted_sum t' + (if d \<noteq> 0 then unat (balances t1 a) else 0) =
      opted_sum t1 + (if r \<noteq> 0 then unat (balances t1 a) else 0)"
    using sum_fun_upd[of "\<lambda>k j. opted_amount j (balances t1 k)" "reward_infos t1" a ?i]
    by (simp add: eq opted_sum_def opted_amount_def d)
  ultimately have "rewards_ok self t'"
    using ok n by (simp add: rewards_ok_def eq with_info_def opted_moved_def)
  moreover have "system_ok self t'" using sys a by (simp add: eq system_ok_def with_info_def)
  moreover have "supply_ok t'" using s1 by (simp add: eq supply_ok_def with_info_def)
  ultimately show ?thesis using t8 by (simp add: ledger_inv_def rewards_inv_def rewards_settled)
qed

section \<open>Operations that leave the accounting alone\<close>

lemma ledger_inv_other_fields [simp]:
  "ledger_inv h self (t\<lparr>roles := f1\<rparr>) = ledger_inv h self t"
  "ledger_inv h self (t\<lparr>role_admins := f2\<rparr>) = ledger_inv h self t"
  "ledger_inv h self (t\<lparr>logo_uri := f3\<rparr>) = ledger_inv h self t"
  "ledger_inv h self (t\<lparr>quote_token := f4\<rparr>) = ledger_inv h self t"
  "ledger_inv h self (t\<lparr>next_quote_token := f4\<rparr>) = ledger_inv h self t"
  "ledger_inv h self (t\<lparr>legacy_transfer_policy_id := f5\<rparr>) = ledger_inv h self t"
  "ledger_inv h self (t\<lparr>permit_nonces := f6\<rparr>) = ledger_inv h self t"
  "ledger_inv h self (t\<lparr>paused := f7\<rparr>) = ledger_inv h self t"
  by (simp_all add: ledger_inv_def rewards_inv_def supply_ok_def system_ok_def settled_ok_def
      settled_sum_def rewards_ok_def opted_sum_def owed_sum_def)

abbreviation keeps_ledger :: "env \<Rightarrow> address \<Rightarrow> (tip20_token, 'a) op \<Rightarrow> bool" where
  "keeps_ledger e self m \<equiv> preserves e (ledger_inv (spec e) self) m"

lemma keeps_ledger_basic [valid_intros]:
  "keeps_ledger e self (check_role a role)"
  "keeps_ledger e self check_not_paused"
  "keeps_ledger e self (emit20 self' ev)"
  "keeps_ledger e self (emit_role self' ev')"
  "keeps_ledger e self (emit_hop self' to amount)"
  "keeps_ledger e self (set_role a role b)"
  "keeps_ledger e self (set_role_admin_internal role role')"
  unfolding check_role_def check_not_paused_def emit20_def emit_role_def emit_hop_def set_role_def
    set_role_admin_internal_def
  by (intro valid_intros; simp)+

lemma keeps_ledger_roles [valid_intros]:
  "keeps_ledger e self (initialize_roles)"
  "keeps_ledger e self (grant_default_admin self' sender admin)"
  "keeps_ledger e self (grant_role self' sender role a)"
  "keeps_ledger e self (revoke_role self' sender role a)"
  "keeps_ledger e self (renounce_role self' sender role)"
  "keeps_ledger e self (set_role_admin self' sender role role')"
  unfolding initialize_roles_def grant_default_admin_def grant_role_def revoke_role_def renounce_role_def
    set_role_admin_def grant_role_internal_def revoke_role_internal_def
  by (intro valid_intros)+

lemma keeps_ledger_admin [valid_intros]:
  "keeps_ledger e self (pause self' sender)"
  "keeps_ledger e self (unpause self' sender)"
  "keeps_ledger e self (set_logo_uri self' sender uri)"
  "keeps_ledger e self (write_logo_uri self' sender uri)"
  unfolding pause_def unpause_def set_logo_uri_def write_logo_uri_def
  by (intro valid_intros; simp)+

lemma keeps_ledger_supply_cap [valid_intros]: "keeps_ledger e self (set_supply_cap self' sender cap)"
  by (rule validI)
    (auto simp: set_supply_cap_def run_simps check_role_def emit20_def ledger_inv_def supply_ok_def
      rewards_inv_def system_ok_def settled_ok_def settled_sum_def rewards_ok_def opted_sum_def owed_sum_def not_less)

lemma set_allowance_inv:
  "owner \<noteq> self \<or> amount = 0 \<Longrightarrow> keeps_ledger e self (set_allowance owner spender amount)"
  by (rule validI)
    (auto simp: set_allowance_def ledger_inv_def supply_ok_def rewards_inv_def system_ok_def settled_ok_def
      settled_sum_def rewards_ok_def opted_sum_def owed_sum_def)

text \<open>Spending an allowance on the token's own funds succeeds for the amount zero only.\<close>

lemma consume_allowance_spec:
  assumes run: "consume_allowance owner spender amount e t = Inr (u, t', l)" and inv: "ledger_inv (spec e) self t"
  shows "ledger_inv (spec e) self t'" and "owner = self \<longrightarrow> amount = 0"
proof -
  have zero: "allowances t self spender = 0" using inv by (simp add: ledger_inv_def rewards_inv_def system_ok_def)
  have le: "amount \<le> allowances t owner spender"
    using run by (auto simp: consume_allowance_def run_simps not_less)
  with zero show own: "owner = self \<longrightarrow> amount = 0" by auto
  have "t' = t \<or> set_allowance owner spender (allowances t owner spender - amount) e t = Inr ((), t', [])"
    using run le by (auto simp: consume_allowance_def run_simps set_allowance_def checked_sub_def split: if_splits)
  with inv own zero set_allowance_inv[of owner self "allowances t owner spender - amount" e spender]
  show "ledger_inv (spec e) self t'" unfolding valid_def by fastforce
qed

lemma burn_core_inv:
  assumes run: "burn_core self a amount e t = Inr (u, t', l)" and inv: "ledger_inv (spec e) self t" and a: "a \<noteq> self"
  shows "ledger_inv (spec e) self t'"
proof -
  obtain t1 l1 l2 where "transfer_core self a (direct ADDRESS_ZERO) amount e t = Inr ((), t1, l1)"
    "reduce_supply self amount e t1 = Inr (u, t', l2)"
    using run
    by (auto simp: burn_core_def bind_eq_Inr whenM_eq_Inr check_not_paused_def check_role_def ensure_eq_Inr split: if_splits)
  from burn_core_pair_inv(1)[OF this inv] a show ?thesis by simp
qed

lemma permit_inv:
  assumes run: "permit self owner spender value deadline v r s e t = Inr (u, t', l)"
    and inv: "ledger_inv (spec e) self t"
    and no_key: "\<forall>d p r s. ecrecover e d p r s \<noteq> Some self"
  shows "ledger_inv (spec e) self t'"
proof -
  obtain n d where "recover_signer e d v r s = Some owner"
    and t': "t' = t\<lparr>permit_nonces := n, allowances := (allowances t)(owner := (allowances t owner)(spender := value))\<rparr>"
    using run by (auto simp: permit_def run_simps set_allowance_def emit20_def)
  with no_key have "owner \<noteq> self" by (auto simp: recover_signer_def split: if_splits option.splits)
  then have "keeps_ledger e self (set_allowance owner spender value)" by (intro set_allowance_inv) simp
  moreover have "set_allowance owner spender value e (t\<lparr>permit_nonces := n\<rparr>) = Inr ((), t', [])"
    by (simp add: set_allowance_def t')
  ultimately show ?thesis
    using inv ledger_inv_other_fields(7) unfolding valid_def by blast
qed

end
