(* ===== verification/TIP20_Supply.thy ===== *)
theory TIP20_Supply
  imports TIP20_Accounting
begin

text \<open>
  The supply side of the ledger: in every state and for every caller, a token operation keeps
  the balances summing up to the total supply, and the supply below its cap. Unlike the reward
  part of \<open>ledger_inv\<close>, this needs no assumption on the state or on who calls.
\<close>

section \<open>Reward bookkeeping changes no balance\<close>

definition only_rewards :: "tip20_token \<Rightarrow> tip20_token \<Rightarrow> bool" where
  "only_rewards t t' \<longleftrightarrow> t' = t\<lparr>opted_in_supply := opted_in_supply t', reward_infos := reward_infos t'\<rparr>"

lemma only_rewards_eqs:
  assumes "only_rewards t t'"
  shows "balances t' = balances t" "total_supply t' = total_supply t" "supply_cap t' = supply_cap t"
    "allowances t' = allowances t"
proof -
  have eq: "t' = t\<lparr>opted_in_supply := opted_in_supply t', reward_infos := reward_infos t'\<rparr>"
    using assms by (simp only: only_rewards_def)
  show "balances t' = balances t" by (subst eq) simp
  show "total_supply t' = total_supply t" by (subst eq) simp
  show "supply_cap t' = supply_cap t" by (subst eq) simp
  show "allowances t' = allowances t" by (subst eq) simp
qed

lemma only_rewards_trans: "only_rewards t t1 \<Longrightarrow> only_rewards t1 t2 \<Longrightarrow> only_rewards t t2"
  unfolding only_rewards_def
  by (cases t, cases t1, cases t2) simp

lemma only_rewards_simps [simp]:
  "only_rewards t t" "only_rewards t (t\<lparr>opted_in_supply := n\<rparr>)" "only_rewards t (t\<lparr>reward_infos := f\<rparr>)"
  "only_rewards t (with_info a i t)"
  by (simp_all add: only_rewards_def with_info_def)

definition rewards_only :: "env \<Rightarrow> (tip20_token, 'a) op \<Rightarrow> bool" where
  "rewards_only e m \<longleftrightarrow> (\<forall>t a t' l. m e t = Inr (a, t', l) \<longrightarrow> only_rewards t t' \<and> l = [])"

lemma rewards_onlyD: "rewards_only e m \<Longrightarrow> m e t = Inr (a, t', l) \<Longrightarrow> only_rewards t t' \<and> l = []"
  by (simp add: rewards_only_def)

lemma rewards_only_bind:
  "rewards_only e m \<Longrightarrow> (\<And>a. rewards_only e (f a)) \<Longrightarrow> rewards_only e (bind m f)"
  unfolding rewards_only_def
proof (intro allI impI)
  fix t b t' l
  assume m: "\<forall>t a t' l. m e t = Inr (a, t', l) \<longrightarrow> only_rewards t t' \<and> l = []"
    and f: "\<And>a. \<forall>t b t' l. f a e t = Inr (b, t', l) \<longrightarrow> only_rewards t t' \<and> l = []"
    and "bind m f e t = Inr (b, t', l)"
  then obtain a t1 l1 l2 where "m e t = Inr (a, t1, l1)" "f a e t1 = Inr (b, t', l2)" "l = l1 @ l2"
    by (auto simp: bind_eq_Inr)
  with m[rule_format, OF this(1)] f[of a, rule_format, OF this(2)] show "only_rewards t t' \<and> l = []"
    by (blast intro: only_rewards_trans)
qed

lemma rewards_only_basic:
  "rewards_only e (ret a)" "rewards_only e (gets g)" "rewards_only e (ask h)" "rewards_only e (ok_or opt err)"
  "rewards_only e (set_reward_info b i)" "rewards_only e (modify (\<lambda>t. t\<lparr>opted_in_supply := n\<rparr>))"
  by (simp_all add: rewards_only_def run_simps set_reward_info_def)

lemma rewards_only_cond:
  "(b \<Longrightarrow> rewards_only e m) \<Longrightarrow> (\<not> b \<Longrightarrow> rewards_only e m') \<Longrightarrow> rewards_only e (if b then m else m')"
  "(b \<Longrightarrow> rewards_only e w) \<Longrightarrow> rewards_only e (whenM b w)"
  by (simp_all add: whenM_def rewards_only_basic)

lemmas rewards_only_intros = rewards_only_bind rewards_only_basic rewards_only_cond

lemma rewards_only_update: "rewards_only e (update_rewards a)"
  unfolding update_rewards_def credit_delegate_def Let_def by (intro rewards_only_intros)

lemma rewards_only_opted: "rewards_only e (add_opted_in v)" "rewards_only e (sub_opted_in v)"
  unfolding add_opted_in_def sub_opted_in_def set_opted_in_def by (intro rewards_only_intros)+

lemma rewards_only_hooks:
  "rewards_only e (handle_rewards_on_transfer a b v)" "rewards_only e (handle_rewards_on_mint a v)"
  unfolding handle_rewards_on_transfer_def handle_rewards_on_mint_def
  by (intro rewards_only_intros rewards_only_update rewards_only_opted)+

section \<open>Core movements\<close>

text \<open>A core transfer moves exactly \<open>amount\<close>, whatever the state.\<close>

lemma transfer_core_moves:
  assumes run: "transfer_core self from to amount e t = Inr (u, t', l)"
  shows "amount \<le> balances t from" "balances t' = moved from (target to) amount (balances t)"
    "target to \<noteq> 0 \<longrightarrow> unat (((balances t)(from := balances t from - amount)) (target to)) + unat amount < 2 ^ 256"
    "t' = t\<lparr>balances := balances t', opted_in_supply := opted_in_supply t', reward_infos := reward_infos t'\<rparr>"
    "l = [(self, TIP20Event (build_transfer_event to from amount))]"
proof -
  have hook: "only_rewards t t1 \<and> l1 = []"
    if "handle_rewards_on_transfer from (target to) amount e t = Inr ((), t1, l1)" for t1 l1
    using rewards_onlyD[OF rewards_only_hooks(1) that] .
  then have keeps: "balances t1 = balances t \<and> l1 = []"
    if "handle_rewards_on_transfer from (target to) amount e t = Inr ((), t1, l1)" for t1 l1
    using that only_rewards_eqs(1) by blast
  obtain t1 where h: "handle_rewards_on_transfer from (target to) amount e t = Inr ((), t1, [])"
    and le: "amount \<le> balances t from"
    and fits: "target to \<noteq> 0 \<longrightarrow> unat (((balances t)(from := balances t from - amount)) (target to)) + unat amount < 2 ^ 256"
    and t': "t' = t1\<lparr>balances := moved from (target to) amount (balances t)\<rparr>"
    and l: "l = [(self, TIP20Event (build_transfer_event to from amount))]"
    using transfer_core_Inr[OF run keeps] by blast
  then show "amount \<le> balances t from" "balances t' = moved from (target to) amount (balances t)"
    "target to \<noteq> 0 \<longrightarrow> unat (((balances t)(from := balances t from - amount)) (target to)) + unat amount < 2 ^ 256"
    "l = [(self, TIP20Event (build_transfer_event to from amount))]" by simp_all
  have same: "t1 = t\<lparr>opted_in_supply := opted_in_supply t1, reward_infos := reward_infos t1\<rparr>"
    using hook[OF h] by (simp only: only_rewards_def)
  show "t' = t\<lparr>balances := balances t', opted_in_supply := opted_in_supply t', reward_infos := reward_infos t'\<rparr>"
    unfolding t' by (subst same) simp
qed

lemma transfer_core_fields:
  assumes "transfer_core self from to amount e t = Inr (u, t', l)"
  shows "total_supply t' = total_supply t" "supply_cap t' = supply_cap t" "allowances t' = allowances t"
    "quote_token t' = quote_token t" "roles t' = roles t"
  by (subst transfer_core_moves(4)[OF assms], simp)+

abbreviation keeps_supply :: "env \<Rightarrow> (tip20_token, 'a) op \<Rightarrow> bool" where
  "keeps_supply e m \<equiv> preserves e supply_ok m"

lemma transfer_core_supply: "target to \<noteq> 0 \<Longrightarrow> keeps_supply e (transfer_core self from to amount)"
proof (rule validI)
  fix t u t' l assume to: "target to \<noteq> 0" and "supply_ok t" and run: "transfer_core self from to amount e t = Inr (u, t', l)"
  then show "supply_ok t'"
    using moved_total[OF transfer_core_moves(1,3)[OF run]]
    by (simp add: supply_ok_def transfer_core_moves(2)[OF run] transfer_core_fields[OF run])
qed

lemma burn_supply:
  "keeps_supply e (bind (transfer_core self from (direct ADDRESS_ZERO) amount) (\<lambda>_. reduce_supply self amount))"
proof (rule validI)
  fix t u t' l assume ok: "supply_ok t"
    and "bind (transfer_core self from (direct ADDRESS_ZERO) amount) (\<lambda>_. reduce_supply self amount) e t = Inr (u, t', l)"
  then obtain t1 l1 v where run: "transfer_core self from (direct ADDRESS_ZERO) amount e t = Inr ((), t1, l1)"
    and v: "t' = t1\<lparr>total_supply := v\<rparr>" "unat (total_supply t1) = unat v + unat amount"
    by (auto simp: bind_eq_Inr reduce_supply_def set_total_supply_def run_simps checked_simps)
  show "supply_ok t'"
    using ok moved_total[OF transfer_core_moves(1,3)[OF run]] v transfer_core_moves(2)[OF run] transfer_core_fields[OF run]
    by (simp add: supply_ok_def direct_def word_le_nat_alt)
qed

lemma increment_total:
  "increment_balance a v e t = Inr (u, t', l) \<Longrightarrow> total_of (balances t') = total_of (balances t) + unat v"
  using total_upd[of "balances t" a "balances t a + v"] by (auto simp: increment_balance_Inr unat_word_ariths)

lemma decrement_total:
  "decrement_balance self a v e t = Inr (u, t', l) \<Longrightarrow> total_of (balances t') + unat v = total_of (balances t)"
  using total_upd[of "balances t" a "balances t a - v"]
  by (auto simp: decrement_balance_Inr unat_sub word_le_nat_alt)

lemma balance_change_fields:
  "increment_balance a v e t = Inr (u, t', l) \<Longrightarrow> total_supply t' = total_supply t \<and> supply_cap t' = supply_cap t"
  "decrement_balance self a v e t = Inr (u, t', l) \<Longrightarrow> total_supply t' = total_supply t \<and> supply_cap t' = supply_cap t"
  by (auto simp: increment_balance_Inr decrement_balance_Inr)

lemma rewards_only_supply: "rewards_only e m \<Longrightarrow> keeps_supply e m"
proof (rule validI)
  fix t a t' l assume m: "rewards_only e m" and ok: "supply_ok t" and run: "m e t = Inr (a, t', l)"
  from only_rewards_eqs[OF conjunct1[OF rewards_onlyD[OF m run]]] ok show "supply_ok t'" by (simp add: supply_ok_def)
qed

lemma debit_credit_supply:
  "keeps_supply e (bind (decrement_balance self a v) (\<lambda>_. increment_balance b v))"
proof (rule validI)
  fix t u t' l assume ok: "supply_ok t"
    and "bind (decrement_balance self a v) (\<lambda>_. increment_balance b v) e t = Inr (u, t', l)"
  then obtain t1 l1 l2 where "decrement_balance self a v e t = Inr ((), t1, l1)" "increment_balance b v e t1 = Inr ((), t', l2)"
    by (auto simp: bind_eq_Inr)
  from decrement_total[OF this(1)] increment_total[OF this(2)] balance_change_fields(2)[OF this(1)]
    balance_change_fields(1)[OF this(2)] ok
  show "supply_ok t'" by (simp add: supply_ok_def)
qed

lemma fee_cores_supply: "keeps_supply e (fee_pre_core self a v)" "keeps_supply e (fee_post_core self a v)"
  unfolding fee_cores_eq
  by (intro preserves_bind debit_credit_supply rewards_only_supply;
      (unfold settle_hook_def)?, intro rewards_only_intros rewards_only_update rewards_only_opted)+

lemma mint_core_supply: "keeps_supply e (bind (gets total_supply) (\<lambda>s. mint_core self to s amount))"
proof (rule validI)
  fix t u t' l assume ok: "supply_ok t" and "bind (gets total_supply) (\<lambda>s. mint_core self to s amount) e t = Inr (u, t', l)"
  then obtain v t1 l1 l2 where v: "unat v = unat (total_supply t) + unat amount" "v \<le> supply_cap t"
    and h: "handle_rewards_on_mint (target to) amount e t = Inr ((), t1, l1)"
    and inc: "increment_balance (target to) amount e (t1\<lparr>total_supply := v\<rparr>) = Inr ((), t', l2)"
    by (auto simp: mint_core_def bind_eq_Inr ensure_eq_Inr ok_or_eq_Inr checked_simps set_total_supply_def emit20_def)
  have "only_rewards t t1" using rewards_onlyD[OF rewards_only_hooks(2) h] by simp
  from only_rewards_eqs[OF this] increment_total[OF inc] balance_change_fields(1)[OF inc] v ok
  show "supply_ok t'" by (simp add: supply_ok_def)
qed

text \<open>Paying a claim: debit the token's own account, credit the claimer, count the opted-in part.\<close>

lemma claim_payment_supply:
  assumes ok: "supply_ok t" and cb: "balances t self = cb"
    and run: "bind (ok_or (checked_sub cb m) under_overflow) (\<lambda>n1.
        bind (set_balance self n1) (\<lambda>_.
        bind (gets (\<lambda>t. balances t a)) (\<lambda>b.
        bind (ok_or (checked_add b m) under_overflow) (\<lambda>n2.
        bind (set_balance a n2) (\<lambda>_.
        bind (whenM c (add_opted_in m)) (\<lambda>_. emit20 self ev)))))) e t = Inr (u, t', l)"
  shows "supply_ok t'"
proof -
  obtain n1 n2 l1 where n1: "unat cb = unat n1 + unat m"
    and n2: "unat n2 = unat (((balances t)(self := n1)) a) + unat m"
    and w: "whenM c (add_opted_in m) e (t\<lparr>balances := (balances t)(self := n1, a := n2)\<rparr>) = Inr ((), t', l1)"
    using run by (auto simp: bind_eq_Inr ok_or_eq_Inr set_balance_def emit20_def checked_simps)
  have "rewards_only e (whenM c (add_opted_in m))" by (intro rewards_only_intros rewards_only_opted)
  from only_rewards_eqs[OF conjunct1[OF rewards_onlyD[OF this w]]]
  have eqs: "balances t' = (balances t)(self := n1, a := n2)" "total_supply t' = total_supply t" "supply_cap t' = supply_cap t"
    by simp_all
  have "total_of (balances t') = total_of (balances t)"
    using total_upd[of "balances t" self n1] total_upd[of "(balances t)(self := n1)" a n2] n1 n2 cb
    by (simp add: eqs)
  with ok show ?thesis by (simp add: supply_ok_def eqs)
qed

lemma whenM_on: "b \<Longrightarrow> whenM b m = m"
  and whenM_off: "\<not> b \<Longrightarrow> whenM b m = ret ()"
  by (simp_all add: whenM_def)

lemma with_info_supply [simp]: "supply_ok (with_info a i t) = supply_ok t"
  by (simp add: supply_ok_def with_info_def)

lemma claim_core_supply: "keeps_supply e (claim_core self a)"
proof (rule validI)
  fix t m t' l assume ok: "supply_ok t" and run: "claim_core self a e t = Inr (m, t', l)"
  obtain d t1 l1 where up: "update_rewards a e t = Inr (d, t1, l1)"
    using run by (auto simp: claim_core_def bind_eq_Inr[of "update_rewards a"])
  have ok1: "supply_ok t1" by (rule validD[OF rewards_only_supply[OF rewards_only_update] ok up])
  let ?m = "min (reward_balance (reward_infos t1 a)) (balances t1 self)"
  obtain r i l2 where w: "whenM (?m > 0)
       (bind (ok_or (checked_sub (balances t1 self) ?m) under_overflow) (\<lambda>n1.
        bind (set_balance self n1) (\<lambda>_.
        bind (gets (\<lambda>t. balances t a)) (\<lambda>b.
        bind (ok_or (checked_add b ?m) under_overflow) (\<lambda>n2.
        bind (set_balance a n2) (\<lambda>_.
        bind (whenM (d \<noteq> ADDRESS_ZERO) (add_opted_in ?m)) (\<lambda>_.
        emit20 self (Transfer self a ?m)))))))) e (with_info a i t1) = Inr ((), t', l2)"
    using run up unfolding claim_core_def Let_def
    by (simp only: bind_eq_Inr[of "update_rewards a"] bind_eq_Inr[of "gets f" for f] bind_eq_Inr[of "ok_or x y" for x y]
        bind_eq_Inr[of "set_reward_info x y" for x y] bind_eq_Inr[of "whenM x y" for x y])
      (auto simp: set_reward_info_def with_info_def ok_or_eq_Inr)
  show "supply_ok t'"
  proof (cases "?m > 0")
    case True
    have ok2: "supply_ok (with_info a i t1)" and b2: "balances (with_info a i t1) self = balances t1 self" using ok1 by simp_all
    show ?thesis by (rule claim_payment_supply[OF ok2 b2 w[unfolded whenM_on[OF True]]])
  next
    case False
    have "t' = with_info a i t1" using w[unfolded whenM_off[OF False]] by simp
    with ok1 show ?thesis by simp
  qed
qed

section \<open>The remaining operations\<close>

lemma supply_ok_other_fields [simp]:
  "supply_ok (t\<lparr>roles := f1\<rparr>) = supply_ok t"
  "supply_ok (t\<lparr>role_admins := f2\<rparr>) = supply_ok t"
  "supply_ok (t\<lparr>logo_uri := f3\<rparr>) = supply_ok t"
  "supply_ok (t\<lparr>quote_token := f4\<rparr>) = supply_ok t"
  "supply_ok (t\<lparr>next_quote_token := f4\<rparr>) = supply_ok t"
  "supply_ok (t\<lparr>legacy_transfer_policy_id := f5\<rparr>) = supply_ok t"
  "supply_ok (t\<lparr>permit_nonces := f6\<rparr>) = supply_ok t"
  "supply_ok (t\<lparr>paused := f7\<rparr>) = supply_ok t"
  "supply_ok (t\<lparr>allowances := f8\<rparr>) = supply_ok t"
  "supply_ok (t\<lparr>global_reward_per_token := f9\<rparr>) = supply_ok t"
  by (simp_all add: supply_ok_def)

lemma keeps_supply_basic [valid_intros]:
  "keeps_supply e (check_role a role)"
  "keeps_supply e check_not_paused"
  "keeps_supply e (emit20 self' ev)"
  "keeps_supply e (emit_role self' ev')"
  "keeps_supply e (emit_hop self' to amount)"
  "keeps_supply e (set_role a role b)"
  "keeps_supply e (set_role_admin_internal role role')"
  "keeps_supply e (set_allowance owner spender amount)"
  unfolding check_role_def check_not_paused_def emit20_def emit_role_def emit_hop_def set_role_def
    set_role_admin_internal_def set_allowance_def
  by (intro valid_intros; simp)+

lemma keeps_supply_simple [valid_intros]:
  "keeps_supply e initialize_roles"
  "keeps_supply e (grant_default_admin self' sender admin)"
  "keeps_supply e (grant_role self' sender role a)"
  "keeps_supply e (revoke_role self' sender role a)"
  "keeps_supply e (renounce_role self' sender role)"
  "keeps_supply e (set_role_admin self' sender role role')"
  "keeps_supply e (pause self' sender)"
  "keeps_supply e (unpause self' sender)"
  "keeps_supply e (set_logo_uri self' sender uri)"
  "keeps_supply e (write_logo_uri self' sender uri)"
  "keeps_supply e (consume_allowance owner spender amount)"
  "keeps_supply e (permit self' owner spender amount deadline v r s)"
  unfolding initialize_roles_def grant_default_admin_def grant_role_def revoke_role_def renounce_role_def
    set_role_admin_def grant_role_internal_def revoke_role_internal_def pause_def unpause_def set_logo_uri_def
    write_logo_uri_def consume_allowance_def permit_def
  by (intro valid_intros; simp)+

lemma keeps_supply_cap [valid_intros]: "keeps_supply e (set_supply_cap self' sender cap)"
  by (rule validI) (auto simp: set_supply_cap_def run_simps check_role_def emit20_def supply_ok_def not_less)

lemma keeps_supply_reward_ops [valid_intros]:
  "keeps_supply e (set_recipient_core self a r)"
  "self \<noteq> 0 \<Longrightarrow> keeps_supply e (distribute_core self a amount)"
  unfolding set_recipient_core_def distribute_core_def
  by (intro valid_intros rewards_only_supply rewards_only_update rewards_only_intros rewards_only_opted
      transfer_core_supply; simp add: direct_def)+

lemma burn_split: "bind (transfer_core self from to amount) (\<lambda>_. bind (reduce_supply self amount) f) =
    bind (bind (transfer_core self from to amount) (\<lambda>_. reduce_supply self amount)) f"
  by (simp add: bind_assoc)

lemma keeps_supply_burn [valid_intros]:
  "keeps_supply e (burn_core self a amount)"
  "keeps_supply e (burn self a amount)"
  "keeps_supply e (burn_with_memo self a amount memo)"
  unfolding burn_core_def burn_def burn_with_memo_def
  by (intro valid_intros burn_supply)+

lemmas keeps_supply_cores [valid_intros] = transfer_core_supply fee_cores_supply claim_core_supply

end
