(* ===== verification/Address_Registry.thy ===== *)
theory Address_Registry
  imports Tempo_Types
begin

text \<open>
  The virtual-address registry (\<open>precompiles/src/address_registry/mod.rs\<close>): registration of
  a master under a 4-byte id with a proof of work, and resolution of virtual recipients.
\<close>

section \<open>State and operations\<close>

record registry_data =
  master_address :: address
  reserved :: "88 word"
  ty :: u8

type_synonym address_registry = "master_id \<Rightarrow> registry_data"

definition registry_data_master :: "registry_data \<Rightarrow> address option" where
  "registry_data_master d = (if master_address d = ADDRESS_ZERO then None else Some (master_address d))"

definition IMPLICIT_APPROVAL_LIST :: "address list" where
  "IMPLICIT_APPROVAL_LIST = [TIP_FEE_MANAGER_ADDRESS, STABLECOIN_DEX_ADDRESS, TIP20_CHANNEL_RESERVE_ADDRESS]"

definition is_implicitly_approved :: "address \<Rightarrow> tempo_hardfork \<Rightarrow> bool" where
  "is_implicitly_approved a hardfork =
     (if \<not> is_t5 hardfork then False else a \<in> set IMPLICIT_APPROVAL_LIST)"

definition registration_hash :: "env \<Rightarrow> address \<Rightarrow> b256 \<Rightarrow> b256" where
  "registration_hash e msg_sender salt = keccak256 e (be_bytes 20 msg_sender @ be_bytes 32 salt)"

definition register_virtual_master :: "address \<Rightarrow> b256 \<Rightarrow> (address_registry, master_id) op" where
  "register_virtual_master msg_sender salt =
     bind (ensure (is_valid_master msg_sender) (AddrRegistryErr InvalidMasterAddress)) (\<lambda>_.
     bind (ask (\<lambda>e. registration_hash e msg_sender salt)) (\<lambda>hash.
     bind (ensure (\<not> (ucast (drop_bit 224 hash) :: u32) \<noteq> 0) (AddrRegistryErr ProofOfWorkFailed)) (\<lambda>_.
     let master_id = ucast (drop_bit 192 hash) in
     bind (gets (\<lambda>data. registry_data_master (data master_id))) (\<lambda>taken.
     case taken of
       Some master \<Rightarrow> throw (AddrRegistryErr (MasterIdCollision master))
     | None \<Rightarrow>
         bind (modify (\<lambda>data. data(master_id := \<lparr>master_address = msg_sender, reserved = 0, ty = 0\<rparr>))) (\<lambda>_.
         bind (emit (ADDRESS_REGISTRY_ADDRESS, MasterRegistered master_id msg_sender)) (\<lambda>_.
         ret master_id))))))"

definition get_master :: "master_id \<Rightarrow> address_registry \<Rightarrow> address option" where
  "get_master master_id data = registry_data_master (data master_id)"

definition resolve_recipient :: "address \<Rightarrow> env \<Rightarrow> address_registry \<Rightarrow> tempo_error + address" where
  "resolve_recipient to e data =
     (if \<not> is_t3 (spec e) then Inr to
      else case decode_virtual to of
             None \<Rightarrow> Inr to
           | Some (master_id, _) \<Rightarrow> rok_or (get_master master_id data) (AddrRegistryErr VirtualAddressUnregistered))"

definition resolve_virtual_address :: "address \<Rightarrow> address_registry \<Rightarrow> address" where
  "resolve_virtual_address a data =
     (case decode_virtual a of
        None \<Rightarrow> ADDRESS_ZERO
      | Some (master_id, _) \<Rightarrow> (case get_master master_id data of None \<Rightarrow> ADDRESS_ZERO | Some m \<Rightarrow> m))"

section \<open>Behaviour\<close>

lemma register_virtual_master_eq:
  "register_virtual_master sender salt e data =
     (let hash = registration_hash e sender salt; i = ucast (drop_bit 192 hash) in
      if \<not> is_valid_master sender then Inl (AddrRegistryErr InvalidMasterAddress)
      else if (ucast (drop_bit 224 hash) :: u32) \<noteq> 0 then Inl (AddrRegistryErr ProofOfWorkFailed)
      else case get_master i data of
             Some m \<Rightarrow> Inl (AddrRegistryErr (MasterIdCollision m))
           | None \<Rightarrow> Inr (i, data(i := \<lparr>master_address = sender, reserved = 0, ty = 0\<rparr>),
                          [(ADDRESS_REGISTRY_ADDRESS, MasterRegistered i sender)]))"
  by (simp add: register_virtual_master_def exec_simps Let_def get_master_def split: option.split)

text \<open>Every registered master is one that may be credited directly.\<close>

definition registry_inv :: "address_registry \<Rightarrow> bool" where
  "registry_inv data \<longleftrightarrow> (\<forall>i m. get_master i data = Some m \<longrightarrow> is_valid_master m)"

inductive registry_step :: "address_registry \<Rightarrow> address_registry \<Rightarrow> bool" where
  registry_step_register:
    "register_virtual_master sender salt e data = Inr (i, data', l) \<Longrightarrow> registry_step data data'"

inductive_cases registry_stepE: "registry_step data data'"

definition registry_init :: address_registry where
  "registry_init = (\<lambda>_. \<lparr>master_address = 0, reserved = 0, ty = 0\<rparr>)"

lemma register_result:
  assumes "register_virtual_master sender salt e data = Inr (i, data', l)"
  shows "get_master i data = None" and "is_valid_master sender"
    and "data' = data(i := \<lparr>master_address = sender, reserved = 0, ty = 0\<rparr>)"
  using assms by (auto simp: register_virtual_master_eq Let_def split: if_splits option.splits)

lemma get_master_registered:
  assumes "register_virtual_master sender salt e data = Inr (i, data', l)"
  shows "get_master j data' = (if j = i then Some sender else get_master j data)"
proof -
  have "sender \<noteq> 0" using register_result(2)[OF assms] by (simp add: is_valid_master_def)
  then show ?thesis
    by (simp add: register_result(3)[OF assms] get_master_def registry_data_master_def)
qed

interpretation registry_machine: stepwise_invariant registry_step registry_inv
proof
  fix s s' assume "registry_step s s'" "registry_inv s"
  then show "registry_inv s'"
    by (elim registry_stepE)
      (auto simp: registry_inv_def get_master_registered register_result(2) split: if_splits)
qed

lemma registry_init_inv: "registry_inv registry_init"
  by (simp add: registry_inv_def registry_init_def get_master_def registry_data_master_def)

lemma get_master_stable:
  "registry_step\<^sup>*\<^sup>* s s' \<Longrightarrow> get_master i s = Some m \<Longrightarrow> get_master i s' = Some m"
proof (induction rule: rtranclp_induct)
  case (step y z)
  then show ?case
    by (elim registry_stepE) (auto simp: get_master_registered dest: register_result(1))
qed

lemma resolve_recipient_virtual:
  "is_t3 (spec e) \<Longrightarrow> get_master i data = Some m \<Longrightarrow> resolve_recipient (new_virtual i t) e data = Inr m"
  by (simp add: resolve_recipient_def decode_virtual_new_virtual)

section \<open>Properties\<close>

text \<open>Claim C10: registrations are permanent and resolve for every tag. Once a sender has
  registered under an id, from T3 on (when virtual addresses exist) every virtual address built from that id, with any user tag, resolves
  to the sender in every later state of the registry; and registering the id again is refused
  with the collision error that names the sender.\<close>

theorem registered_master_resolves:
  assumes "register_virtual_master sender salt e data = Inr (i, data', l)"
    and "registry_step\<^sup>*\<^sup>* data' data''" and "is_t3 (spec e')"
  shows "resolve_recipient (new_virtual i tag) e' data'' = Inr sender \<and>
    resolve_virtual_address (new_virtual i tag) data'' = sender \<and>
    (\<forall>other salt' e''. is_valid_master other \<longrightarrow> (ucast (drop_bit 224 (registration_hash e'' other salt')) :: u32) = 0 \<longrightarrow>
       ucast (drop_bit 192 (registration_hash e'' other salt')) = i \<longrightarrow>
       register_virtual_master other salt' e'' data'' = Inl (AddrRegistryErr (MasterIdCollision sender)))"
proof -
  have "get_master i data'' = Some sender"
    using get_master_stable[OF assms(2)] get_master_registered[OF assms(1)] by simp
  then show ?thesis
    using resolve_recipient_virtual[OF assms(3)]
    by (auto simp: resolve_virtual_address_def decode_virtual_new_virtual register_virtual_master_eq Let_def)
qed

definition pow_env :: env where
  "pow_env = (demo_env T8 0)\<lparr>keccak256 := (\<lambda>_. push_bit 192 5)\<rparr>"

theorem registered_master_resolves_witness:
  "\<exists>data'. register_virtual_master 0xABCD 1 pow_env registry_init =
       Inr (5, data', [(ADDRESS_REGISTRY_ADDRESS, MasterRegistered 5 0xABCD)]) \<and>
     resolve_recipient (new_virtual 5 99) pow_env data' = Inr 0xABCD"
proof -
  have valid: "is_valid_master 0xABCD"
    by (simp add: address_format_defs)
  have run: "register_virtual_master 0xABCD 1 pow_env registry_init =
      Inr (5, registry_init(5 := \<lparr>master_address = 0xABCD, reserved = 0, ty = 0\<rparr>),
           [(ADDRESS_REGISTRY_ADDRESS, MasterRegistered 5 0xABCD)])"
    using valid
    by (simp add: register_virtual_master_eq registration_hash_def pow_env_def demo_env_def Let_def
        registry_init_def get_master_def registry_data_master_def)
  show ?thesis
    using registered_master_resolves[OF run, of "registry_init(5 := \<lparr>master_address = 0xABCD, reserved = 0, ty = 0\<rparr>)"
        pow_env 99] run
    by (simp add: pow_env_def demo_env_def fork_eval)
qed

text \<open>Claim C11: resolution of recipients, on every fork. In a reachable registry \<open>resolve_recipient\<close> fails
  only from T3 on, only for a virtual address whose id is not registered, with the error for
  that. When it returns an address, that answer is final: resolving it again, in any registry,
  returns it unchanged, and every later state of the registry resolves the recipient to the
  same address. Before T3 the answer is the recipient itself, virtual or not. From T3 on it is the
  recipient itself when that is not virtual, and otherwise the registered master, which is not
  zero, not a TIP-20 token and not virtual.\<close>

theorem resolve_recipient_idempotent:
  assumes "registry_step\<^sup>*\<^sup>* registry_init data" and "registry_step\<^sup>*\<^sup>* data later"
  shows "case resolve_recipient to e data of
      Inl err \<Rightarrow> is_t3 (spec e) \<and> is_virtual to \<and> err = AddrRegistryErr VirtualAddressUnregistered \<and>
        (\<exists>i tag. decode_virtual to = Some (i, tag) \<and> get_master i data = None)
    | Inr m \<Rightarrow> (\<forall>data'. resolve_recipient m e data' = Inr m) \<and> resolve_recipient to e later = Inr m \<and>
        (if is_t3 (spec e) \<and> is_virtual to
         then m \<noteq> 0 \<and> \<not> is_tip20_prefix m \<and> \<not> is_virtual m \<and> (\<exists>i tag. decode_virtual to = Some (i, tag) \<and> get_master i data = Some m)
         else m = to)"
proof (cases "is_t3 (spec e) \<and> is_virtual to")
  case False
  then have "resolve_recipient to e d = Inr to" for d by (auto simp: resolve_recipient_def decode_virtual_def)
  with False show ?thesis by simp
next
  case True
  then obtain i tag where dec: "decode_virtual to = Some (i, tag)" by (auto simp: decode_virtual_def)
  have run: "resolve_recipient to e d = rok_or (get_master i d) (AddrRegistryErr VirtualAddressUnregistered)" for d
    using True dec by (simp add: resolve_recipient_def)
  show ?thesis
  proof (cases "get_master i data")
    case None
    then show ?thesis using True dec by (auto simp: run rok_or_def)
  next
    case (Some m)
    have "registry_inv data" using registry_machine.steps_inv[OF assms(1) registry_init_inv] .
    then have "is_valid_master m" using Some by (auto simp: registry_inv_def)
    then have m: "m \<noteq> 0" "\<not> is_tip20_prefix m" "\<not> is_virtual m" by (simp_all add: is_valid_master_def)
    then have "resolve_recipient m e d = Inr m" for d by (simp add: resolve_recipient_def decode_virtual_def)
    then show ?thesis using True dec m Some get_master_stable[OF assms(2) Some] by (auto simp: run rok_or_def)
  qed
qed

text \<open>A registered virtual address, resolved at T8 and, literally, before T3; an unregistered one is refused.\<close>

definition registered_demo :: address_registry where
  "registered_demo = registry_init(5 := \<lparr>master_address = 0xABCD, reserved = 0, ty = 0\<rparr>)"

theorem resolve_recipient_idempotent_witness:
  "registry_step\<^sup>*\<^sup>* registry_init registered_demo \<and> is_virtual (new_virtual 5 99) \<and>
   resolve_recipient (new_virtual 5 99) pow_env registered_demo = Inr 0xABCD \<and>
   resolve_recipient 0xABCD pow_env registered_demo = Inr 0xABCD \<and>
   resolve_recipient (new_virtual 6 99) pow_env registered_demo = Inl (AddrRegistryErr VirtualAddressUnregistered) \<and>
   resolve_recipient (new_virtual 5 99) (demo_env T2 0) registered_demo = Inr (new_virtual 5 99)"
proof -
  have valid: "is_valid_master 0xABCD" by (simp add: address_format_defs)
  have "register_virtual_master 0xABCD 1 pow_env registry_init =
      Inr (5, registered_demo, [(ADDRESS_REGISTRY_ADDRESS, MasterRegistered 5 0xABCD)])"
    using valid by (simp add: register_virtual_master_eq registration_hash_def pow_env_def demo_env_def Let_def
        registry_init_def get_master_def registry_data_master_def registered_demo_def)
  then have reach: "registry_step\<^sup>*\<^sup>* registry_init registered_demo" by (blast intro: registry_step_register)
  have virtual: "is_virtual (new_virtual i 99)" for i
    using decode_virtual_new_virtual[of i 99] by (auto simp: decode_virtual_def split: if_splits)
  have masters: "get_master 5 registered_demo = Some 0xABCD" "get_master 6 registered_demo = None"
    by (simp_all add: registered_demo_def registry_init_def get_master_def registry_data_master_def)
  have forks: "is_t3 (spec pow_env)" "\<not> is_t3 (spec (demo_env T2 0))" by (simp_all add: pow_env_def demo_env_def fork_eval)
  note ok = resolve_recipient_idempotent[OF reach rtranclp.rtrancl_refl]
  have five: "resolve_recipient (new_virtual 5 99) pow_env registered_demo = Inr 0xABCD"
    using ok[where to = "new_virtual 5 99" and e = pow_env] masters forks virtual decode_virtual_new_virtual by (auto split: sum.splits)
  moreover have "resolve_recipient 0xABCD pow_env registered_demo = Inr 0xABCD"
    using ok[where to = "new_virtual 5 99" and e = pow_env] five by simp
  moreover have "resolve_recipient (new_virtual 6 99) pow_env registered_demo = Inl (AddrRegistryErr VirtualAddressUnregistered)"
    using ok[where to = "new_virtual 6 99" and e = pow_env] masters forks virtual decode_virtual_new_virtual by (auto split: sum.splits)
  moreover have "resolve_recipient (new_virtual 5 99) (demo_env T2 0) registered_demo = Inr (new_virtual 5 99)"
    using ok[where to = "new_virtual 5 99" and e = "demo_env T2 0"] forks by (auto split: sum.splits)
  ultimately show ?thesis using reach virtual by blast
qed

end
