(* ===== verification/Receive_Guard.thy ===== *)
theory Receive_Guard
  imports Policy_Registry TIP20_Ledger
begin

text \<open>
  The storage of the receive policy guard (\<open>precompiles/src/receive_policy_guard/mod.rs\<close> and
  the receipt type in \<open>contracts/src/precompiles/receive_policy_guard.rs\<close>): blocked inbound
  amounts keyed by the hash of a claim receipt, and the receipt nonce. Claims also move token
  balances; they are in theory \<open>Guard_Claims\<close>.
\<close>

section \<open>Receipts\<close>

definition BLOCKED_RECEIPT_VERSION :: u8 where "BLOCKED_RECEIPT_VERSION = 1"

record claim_receipt =
  cr_version :: u8
  cr_token :: address
  cr_recovery_authority :: address
  cr_originator :: address
  cr_recipient :: address
  cr_blocked_at :: u64
  cr_blocked_nonce :: u64
  cr_blocked_reason :: u8
  cr_kind :: inbound_kind
  cr_memo :: b256

fun blocked_reason_u8 :: "blocked_reason \<Rightarrow> u8" where
  "blocked_reason_u8 BlockedNone = 0"
| "blocked_reason_u8 TOKEN_FILTER = 1"
| "blocked_reason_u8 RECEIVE_POLICY = 2"
| "blocked_reason_u8 BlockedInvalid = 255"

fun inbound_kind_u8 :: "inbound_kind \<Rightarrow> u8" where
  "inbound_kind_u8 InboundTransfer = 0"
| "inbound_kind_u8 InboundMint = 1"
| "inbound_kind_u8 InboundInvalid = 255"

definition claim_receipt_new ::
  "address \<Rightarrow> address \<Rightarrow> address \<Rightarrow> address \<Rightarrow> u64 \<Rightarrow> u64 \<Rightarrow> u8 \<Rightarrow> inbound_kind \<Rightarrow> b256 \<Rightarrow> claim_receipt" where
  "claim_receipt_new token recovery_auth originator recipient at nonce reason kind memo =
     \<lparr>cr_version = 1, cr_token = token, cr_recovery_authority = recovery_auth, cr_originator = originator,
      cr_recipient = recipient, cr_blocked_at = at, cr_blocked_nonce = nonce, cr_blocked_reason = reason,
      cr_kind = kind, cr_memo = memo\<rparr>"

text \<open>The ABI encoding of the receipt: ten static fields, one 32-byte word each.\<close>

definition receipt_encode :: "claim_receipt \<Rightarrow> u8 list" where
  "receipt_encode r =
     abi_word (ucast (cr_version r)) @ abi_address (cr_token r) @ abi_address (cr_recovery_authority r) @
     abi_address (cr_originator r) @ abi_address (cr_recipient r) @ abi_word (ucast (cr_blocked_at r)) @
     abi_word (ucast (cr_blocked_nonce r)) @ abi_word (ucast (cr_blocked_reason r)) @
     abi_word (ucast (inbound_kind_u8 (cr_kind r))) @ abi_word (cr_memo r)"

definition receipt_key :: "env \<Rightarrow> claim_receipt \<Rightarrow> b256" where
  "receipt_key e r = keccak256 e (receipt_encode r)"

definition blocked_event :: "claim_receipt \<Rightarrow> address \<Rightarrow> u256 \<Rightarrow> receive_guard_event" where
  "blocked_event r receiver amount =
     TransferBlocked (cr_token r) receiver (cr_blocked_nonce r) amount (cr_version r) (receipt_encode r)"

definition claimed_event :: "claim_receipt \<Rightarrow> address \<Rightarrow> address \<Rightarrow> address \<Rightarrow> u256 \<Rightarrow> receive_guard_event" where
  "claimed_event r receiver caller to amount =
     ReceiptClaimed (cr_token r) receiver (cr_blocked_nonce r) (cr_blocked_at r) (cr_version r) (cr_originator r)
       (cr_recipient r) (cr_recovery_authority r) caller to amount"

definition burned_event :: "claim_receipt \<Rightarrow> address \<Rightarrow> address \<Rightarrow> u256 \<Rightarrow> receive_guard_event" where
  "burned_event r receiver caller amount =
     ReceiptBurned (cr_token r) receiver (cr_blocked_nonce r) (cr_blocked_at r) (cr_version r) (cr_originator r)
       (cr_recipient r) (cr_recovery_authority r) caller amount"

section \<open>Recovery modes\<close>

definition recovery_from :: "claim_receipt \<Rightarrow> address \<Rightarrow> recovery_mode" where
  "recovery_from r receiver =
     (if cr_recovery_authority r = RECOVERY_ORIGINATOR then Originator
      else if cr_recovery_authority r = receiver then Receiver
      else ThirdParty)"

fun recovery_authority :: "recovery_mode \<Rightarrow> claim_receipt \<Rightarrow> address" where
  "recovery_authority Originator r = cr_originator r"
| "recovery_authority Receiver r = cr_recovery_authority r"
| "recovery_authority ThirdParty r = cr_recovery_authority r"

fun policy_subject :: "recovery_mode \<Rightarrow> address \<Rightarrow> address \<Rightarrow> address" where
  "policy_subject Originator originator receiver = originator"
| "policy_subject Receiver originator receiver = receiver"
| "policy_subject ThirdParty originator receiver = receiver"

fun is_reroute :: "recovery_mode \<Rightarrow> address \<Rightarrow> address \<Rightarrow> bool" where
  "is_reroute Originator to receiver = True"
| "is_reroute Receiver to receiver = (to \<noteq> receiver)"
| "is_reroute ThirdParty to receiver = (to \<noteq> receiver)"

fun spending_account :: "recovery_mode \<Rightarrow> address \<Rightarrow> address option" where
  "spending_account Originator authority = Some authority"
| "spending_account Receiver authority = Some authority"
| "spending_account ThirdParty authority = None"

section \<open>Blocked funds\<close>

record receive_policy_guard =
  receipt_nonce :: u64
  receipt_balances :: "b256 \<Rightarrow> u256"

definition emit_guard :: "receive_guard_event \<Rightarrow> (receive_policy_guard, unit) op" where
  "emit_guard ev = emit (RECEIVE_POLICY_GUARD_ADDRESS, ReceiveGuardEvent ev)"

definition set_receipt_balance :: "b256 \<Rightarrow> u256 \<Rightarrow> (receive_policy_guard, unit) op" where
  "set_receipt_balance key amount =
     modify (\<lambda>g. g\<lparr>receipt_balances := (receipt_balances g)(key := amount)\<rparr>)"

definition next_receipt_nonce :: "(receive_policy_guard, u64) op" where
  "next_receipt_nonce =
     bind (gets (\<lambda>g. max (receipt_nonce g) 1)) (\<lambda>nonce.
     bind (ok_or (checked_add nonce 1) under_overflow) (\<lambda>next.
     bind (modify (\<lambda>g. g\<lparr>receipt_nonce := next\<rparr>)) (\<lambda>_.
     ret nonce)))"

definition receipt_balance_of :: "claim_receipt option \<Rightarrow> env \<Rightarrow> receive_policy_guard \<Rightarrow> tempo_error + u256" where
  "receipt_balance_of receipt e g =
     rbind (rok_or receipt (ReceivePolicyGuardErr InvalidReceipt)) (\<lambda>r.
     Inr (receipt_balances g (receipt_key e r)))"

definition store_blocked ::
  "address \<Rightarrow> address \<Rightarrow> recipient \<Rightarrow> address \<Rightarrow> u256 \<Rightarrow> blocked_reason \<Rightarrow> inbound_kind \<Rightarrow> b256 \<Rightarrow>
   (receive_policy_guard, u64 \<times> u64) op" where
  "store_blocked token originator to recovery_addr amount reason kind memo =
     (let is_invalid_reason = (case reason of RECEIVE_POLICY \<Rightarrow> False | TOKEN_FILTER \<Rightarrow> False | _ \<Rightarrow> True) in
      bind (ensure (\<not> (is_invalid_reason \<or> kind = InboundInvalid)) (ReceivePolicyGuardErr InvalidReceipt)) (\<lambda>_.
      let receiver = target to; recipient = original_address to in
      bind next_receipt_nonce (\<lambda>blocked_nonce.
      bind (ask id) (\<lambda>e.
      let blocked_at = now64 e;
          receipt = claim_receipt_new token recovery_addr originator recipient blocked_at blocked_nonce
                      (blocked_reason_u8 reason) kind memo in
      bind (set_receipt_balance (receipt_key e receipt) amount) (\<lambda>_.
      bind (emit_guard (blocked_event receipt receiver amount)) (\<lambda>_.
      ret (blocked_nonce, blocked_at)))))))"

section \<open>Receipts determine their key\<close>

lemma blocked_reason_u8_inject: "blocked_reason_u8 a = blocked_reason_u8 b \<Longrightarrow> a = b"
  by (cases a; cases b; simp)

lemma inbound_kind_u8_inject [simp]: "inbound_kind_u8 a = inbound_kind_u8 b \<longleftrightarrow> a = b"
  by (cases a; cases b; simp)

lemma ucast_up_inject: "LENGTH('a) \<le> LENGTH('b) \<Longrightarrow> (ucast (a :: 'a::len word) :: 'b::len word) = ucast b \<longleftrightarrow> a = b"
  by (metis unat_ucast_up word_unat_eq_iff)

lemma receipt_encode_inject: "receipt_encode r = receipt_encode s \<longleftrightarrow> r = s"
  by (cases r; cases s) (auto simp: receipt_encode_def ucast_up_inject)

end
