(* ===== verification/Fee_AMM.thy ===== *)
theory Fee_AMM
  imports Tempo_Types
begin

text \<open>
  The storage of the fee manager and the parts of its AMM that only touch that storage
  (\<open>precompiles/src/tip_fee_manager/amm.rs\<close>, \<open>mod.rs\<close>): pools, LP supply and balances, fee
  swaps at the fixed rate, the transient liquidity reservations, collected fees. Operations
  that also move tokens are in theory \<open>Fee_Manager\<close>. The recording of storage actions for
  the parallel executor is not modelled.
\<close>

section \<open>Storage\<close>

definition M :: u256 where "M = 9970"
definition N :: u256 where "N = 9985"
definition SCALE :: u256 where "SCALE = 10000"
definition MIN_LIQUIDITY :: u256 where "MIN_LIQUIDITY = 1000"

record pool =
  reserve_user_token :: u128
  reserve_validator_token :: u128

datatype fee_route = SameToken | Direct | TwoHop address

record tip_fee_manager =
  validator_tokens :: "address \<Rightarrow> address"
  user_tokens :: "address \<Rightarrow> address"
  collected_fees :: "address \<Rightarrow> address \<Rightarrow> u256"
  pools :: "b256 \<Rightarrow> pool"
  lp_supply :: "b256 \<Rightarrow> u256"
  liquidity_balances :: "b256 \<Rightarrow> address \<Rightarrow> u256"
  pending_fee_swap_reservation :: "b256 \<Rightarrow> u128"
  two_hop_intermediate :: address

section \<open>Pool arithmetic\<close>

definition compute_amount_out :: "u256 \<Rightarrow> tempo_error + u256" where
  "compute_amount_out amount_in =
     rok_or (map_option (\<lambda>product. product div SCALE) (checked_mul amount_in M)) under_overflow"

definition apply_swap :: "pool \<Rightarrow> u256 \<Rightarrow> u256 \<Rightarrow> tempo_error + pool" where
  "apply_swap pl amount_in amount_out =
     rbind (rensure (\<not> amount_out > ucast (reserve_validator_token pl)) (FeeAMMErr InsufficientLiquidity)) (\<lambda>_.
     rbind (rok_or (try_into amount_in) under_overflow) (\<lambda>amount_in' :: u128.
     rbind (rok_or (try_into amount_out) under_overflow) (\<lambda>amount_out' :: u128.
     rbind (rok_or (checked_add (reserve_user_token pl) amount_in') under_overflow) (\<lambda>u.
     rbind (rok_or (checked_sub (reserve_validator_token pl) amount_out') under_overflow) (\<lambda>v.
     Inr (pl\<lparr>reserve_user_token := u, reserve_validator_token := v\<rparr>))))))"

definition has_enough_reserve_validator_token :: "pool \<Rightarrow> u256 \<Rightarrow> bool" where
  "has_enough_reserve_validator_token pl amount \<longleftrightarrow> ucast (reserve_validator_token pl) \<ge> amount"

definition pool_id :: "env \<Rightarrow> address \<Rightarrow> address \<Rightarrow> b256" where
  "pool_id e user_token validator_token = keccak256 e (abi_address user_token @ abi_address validator_token)"

definition get_pool :: "env \<Rightarrow> address \<Rightarrow> address \<Rightarrow> tip_fee_manager \<Rightarrow> pool" where
  "get_pool e user_token validator_token f = pools f (pool_id e user_token validator_token)"

section \<open>Operations on the fee manager's storage\<close>

definition emit_amm :: "fee_amm_event \<Rightarrow> (tip_fee_manager, unit) op" where
  "emit_amm ev = emit (TIP_FEE_MANAGER_ADDRESS, FeeAMMEvent ev)"

definition emit_fee :: "fee_manager_event \<Rightarrow> (tip_fee_manager, unit) op" where
  "emit_fee ev = emit (TIP_FEE_MANAGER_ADDRESS, FeeManagerEvent ev)"

definition set_pool :: "b256 \<Rightarrow> pool \<Rightarrow> (tip_fee_manager, unit) op" where
  "set_pool i pl = modify (\<lambda>f. f\<lparr>pools := (pools f)(i := pl)\<rparr>)"

definition set_lp_supply :: "b256 \<Rightarrow> u256 \<Rightarrow> (tip_fee_manager, unit) op" where
  "set_lp_supply i v = modify (\<lambda>f. f\<lparr>lp_supply := (lp_supply f)(i := v)\<rparr>)"

definition set_liquidity_balances :: "b256 \<Rightarrow> address \<Rightarrow> u256 \<Rightarrow> (tip_fee_manager, unit) op" where
  "set_liquidity_balances i user v =
     modify (\<lambda>f. f\<lparr>liquidity_balances := (liquidity_balances f)(i := (liquidity_balances f i)(user := v))\<rparr>)"

definition reserve_pool_liquidity :: "b256 \<Rightarrow> u128 \<Rightarrow> (tip_fee_manager, unit) op" where
  "reserve_pool_liquidity i amount =
     modify (\<lambda>f. f\<lparr>pending_fee_swap_reservation := (pending_fee_swap_reservation f)(i := amount)\<rparr>)"

definition execute_fee_swap :: "address \<Rightarrow> address \<Rightarrow> u256 \<Rightarrow> (tip_fee_manager, u256) op" where
  "execute_fee_swap user_token validator_token amount_in =
     bind (query (\<lambda>_ _. compute_amount_out amount_in)) (\<lambda>amount_out.
     bind (ask (\<lambda>e. pool_id e user_token validator_token)) (\<lambda>i.
     bind (gets (\<lambda>f. pools f i)) (\<lambda>pl.
     bind (query (\<lambda>_ _. apply_swap pl amount_in amount_out)) (\<lambda>pl'.
     bind (set_pool i pl') (\<lambda>_.
     ret amount_out)))))"

definition calculate_burn_amounts :: "pool \<Rightarrow> b256 \<Rightarrow> u256 \<Rightarrow> env \<Rightarrow> tip_fee_manager \<Rightarrow> tempo_error + u256 \<times> u256" where
  "calculate_burn_amounts pl i liquidity e f =
     (let share = (\<lambda>reserve :: u128. case checked_mul liquidity (ucast reserve) of
                     None \<Rightarrow> None | Some product \<Rightarrow> checked_div product (lp_supply f i)) in
      rbind (rok_or (share (reserve_user_token pl)) under_overflow) (\<lambda>u.
      rbind (rok_or (share (reserve_validator_token pl)) under_overflow) (\<lambda>v.
      Inr (u, v))))"

definition get_validator_token :: "address \<Rightarrow> tip_fee_manager \<Rightarrow> address" where
  "get_validator_token beneficiary f =
     (let token = validator_tokens f beneficiary in if token = ADDRESS_ZERO then DEFAULT_FEE_TOKEN else token)"

definition increment_collected_fees :: "address \<Rightarrow> address \<Rightarrow> u256 \<Rightarrow> (tip_fee_manager, unit) op" where
  "increment_collected_fees validator token amount =
     (if amount = 0 then ret ()
      else bind (query (\<lambda>_ f. sinc (collected_fees f validator token) amount)) (\<lambda>new.
           modify (\<lambda>f. f\<lparr>collected_fees := (collected_fees f)(validator := (collected_fees f validator)(token := new))\<rparr>)))"

definition reserve_fee_liquidity :: "address \<Rightarrow> address \<Rightarrow> u256 \<Rightarrow> fee_route \<Rightarrow> (tip_fee_manager, unit) op" where
  "reserve_fee_liquidity user_token validator_token max_amount route =
     (case route of
        SameToken \<Rightarrow> ret ()
      | Direct \<Rightarrow>
          bind (ask id) (\<lambda>e.
          whenM (is_t1c (spec e))
            (bind (query (\<lambda>_ _. compute_amount_out max_amount)) (\<lambda>out.
             bind (ok_or (try_into out) under_overflow) (\<lambda>amount_out.
             reserve_pool_liquidity (pool_id e user_token validator_token) amount_out))))
      | TwoHop intermediate \<Rightarrow>
          bind (ask id) (\<lambda>e.
          bind (query (\<lambda>_ _. compute_amount_out max_amount)) (\<lambda>o1.
          bind (ok_or (try_into o1) under_overflow) (\<lambda>out1 :: u128.
          bind (query (\<lambda>_ _. compute_amount_out (ucast out1))) (\<lambda>o2.
          bind (ok_or (try_into o2) under_overflow) (\<lambda>out2.
          bind (reserve_pool_liquidity (pool_id e user_token intermediate) out1) (\<lambda>_.
          bind (reserve_pool_liquidity (pool_id e intermediate validator_token) out2) (\<lambda>_.
          modify (\<lambda>f. f\<lparr>two_hop_intermediate := intermediate\<rparr>)))))))))"

text \<open>What \<open>swap_collected_fee\<close> does is the middle part of \<open>collect_fee_post_tx\<close>.\<close>

definition swap_collected_fee :: "address \<Rightarrow> address \<Rightarrow> u256 \<Rightarrow> (tip_fee_manager, u256) op" where
  "swap_collected_fee fee_token validator_token actual_spending =
     bind (gets two_hop_intermediate) (\<lambda>hop_token.
     if fee_token = validator_token then ret actual_spending
     else if hop_token = ADDRESS_ZERO
     then bind (whenM (actual_spending \<noteq> 0)
                  (discard (execute_fee_swap fee_token validator_token actual_spending))) (\<lambda>_.
          query (\<lambda>_ _. compute_amount_out actual_spending))
     else bind (whenM (actual_spending \<noteq> 0)
                  (bind (execute_fee_swap fee_token hop_token actual_spending) (\<lambda>out1.
                   discard (execute_fee_swap hop_token validator_token out1)))) (\<lambda>_.
          query (\<lambda>_ _. rbind (compute_amount_out actual_spending) compute_amount_out)))"

end
