(* ===== verification/Storage_Credits.thy ===== *)
theory Storage_Credits
  imports Tempo_Types
begin

text \<open>
  Storage credits (\<open>precompiles/src/storage_credits\<close>): clearing a storage slot of an account mints a
  credit for it, creating a slot may spend one, according to the mode the account is in during
  the transaction. The mode, the budget of direct spends and the pending refunds are packed into
  one transient word per account; the credit balance is persistent. Gas is not modelled, so a
  creation that pays with gas changes nothing here.
\<close>

unbundle bit_operations_syntax

section \<open>Data\<close>

datatype credit_mode = RefundMode | PreserveMode | DirectMode

datatype abi_mode = ModeRefund | ModePreserve | ModeDirect | ModeInvalid

record transient_state =
  cr_mode :: credit_mode
  budget :: u64
  pending_refunds :: u64

record storage_credits =
  credit_balances :: "address \<Rightarrow> u64"
  credit_words :: "address \<Rightarrow> u256"

definition credit_mode_of_u8 :: "u8 \<Rightarrow> tempo_error + credit_mode" where
  "credit_mode_of_u8 b =
     (if b = 0 then Inr RefundMode else if b = 1 then Inr PreserveMode else if b = 2 then Inr DirectMode
      else Inl (StorageCreditsErr InvalidMode))"

fun credit_mode_of_abi :: "abi_mode \<Rightarrow> tempo_error + credit_mode" where
  "credit_mode_of_abi ModeRefund = Inr RefundMode"
| "credit_mode_of_abi ModePreserve = Inr PreserveMode"
| "credit_mode_of_abi ModeDirect = Inr DirectMode"
| "credit_mode_of_abi ModeInvalid = Inl (StorageCreditsErr InvalidMode)"

fun credit_mode_u64 :: "credit_mode \<Rightarrow> u64" where
  "credit_mode_u64 RefundMode = 0"
| "credit_mode_u64 PreserveMode = 1"
| "credit_mode_u64 DirectMode = 2"

definition limb :: "nat \<Rightarrow> u256 \<Rightarrow> u64" where
  "limb i w = ucast (drop_bit (64 * i) w)"

definition from_limbs :: "u64 \<Rightarrow> u64 \<Rightarrow> u64 \<Rightarrow> u64 \<Rightarrow> u256" where
  "from_limbs a b c d = ucast a OR push_bit 64 (ucast b) OR push_bit 128 (ucast c) OR push_bit 192 (ucast d)"

definition transient_of_word :: "u256 \<Rightarrow> tempo_error + transient_state" where
  "transient_of_word w =
     rbind (credit_mode_of_u8 (ucast (limb 0 w))) (\<lambda>m.
     Inr \<lparr>cr_mode = m, budget = limb 1 w, pending_refunds = limb 3 w\<rparr>)"

definition word_of_transient :: "transient_state \<Rightarrow> u256" where
  "word_of_transient st = from_limbs (credit_mode_u64 (cr_mode st)) (budget st) 0 (pending_refunds st)"

section \<open>Operations\<close>

definition credit_balance_of :: "address \<Rightarrow> storage_credits \<Rightarrow> u64" where
  "credit_balance_of account s = credit_balances s account"

definition credit_state_of :: "address \<Rightarrow> storage_credits \<Rightarrow> tempo_error + transient_state" where
  "credit_state_of account s = transient_of_word (credit_words s account)"

definition write_credit_state_of :: "address \<Rightarrow> transient_state \<Rightarrow> (storage_credits, unit) op" where
  "write_credit_state_of account st =
     modify (\<lambda>s. s\<lparr>credit_words := (credit_words s)(account := word_of_transient st)\<rparr>)"

definition mode_of :: "address \<Rightarrow> storage_credits \<Rightarrow> tempo_error + credit_mode" where
  "mode_of account s = rbind (credit_state_of account s) (\<lambda>st. Inr (cr_mode st))"

definition budget_of :: "address \<Rightarrow> storage_credits \<Rightarrow> tempo_error + u64" where
  "budget_of account s = rbind (credit_state_of account s) (\<lambda>st. Inr (budget st))"

definition write_mode_with_budget :: "address \<Rightarrow> credit_mode \<Rightarrow> u64 \<Rightarrow> (storage_credits, unit) op" where
  "write_mode_with_budget msg_sender m b =
     bind (query (\<lambda>_. credit_state_of msg_sender)) (\<lambda>st.
     write_credit_state_of msg_sender (st\<lparr>cr_mode := m, budget := b\<rparr>))"

definition set_mode :: "address \<Rightarrow> abi_mode \<Rightarrow> (storage_credits, unit) op" where
  "set_mode msg_sender abi =
     bind (query (\<lambda>_ _. credit_mode_of_abi abi)) (\<lambda>m.
     write_mode_with_budget msg_sender m (if m = DirectMode then - 1 else 0))"

definition set_budget :: "address \<Rightarrow> u64 \<Rightarrow> (storage_credits, unit) op" where
  "set_budget msg_sender credit_budget = write_mode_with_budget msg_sender DirectMode credit_budget"

definition preserve_storage_credits :: "address \<Rightarrow> (storage_credits, unit) op" where
  "preserve_storage_credits owner =
     bind (ask spec) (\<lambda>h. whenM (is_t7 h) (set_mode owner ModePreserve))"

text \<open>
  The policy that runs after a slot of \<open>owner\<close> has been written: \<open>present_zero\<close> and \<open>new_zero\<close> say
  whether the slot was and is zero, \<open>non_creditable\<close> whether it is one of the two slots a
  transaction may clear without minting, and \<open>minting\<close> whether minting is enabled.
\<close>

definition sstore_storage_credits :: "address \<Rightarrow> bool \<Rightarrow> bool \<Rightarrow> bool \<Rightarrow> bool \<Rightarrow> (storage_credits, unit) op" where
  "sstore_storage_credits owner non_creditable minting present_zero new_zero =
     (if present_zero = new_zero then ret ()
      else if owner = STORAGE_CREDITS_ADDRESS then ret ()
      else bind (gets (credit_balance_of owner)) (\<lambda>credit.
        if \<not> present_zero \<and> new_zero then
          if non_creditable then ret ()
          else whenM minting (modify (\<lambda>s. s\<lparr>credit_balances := (credit_balances s)(owner := saturating_add credit 1)\<rparr>))
        else
          bind (query (\<lambda>_. credit_state_of owner)) (\<lambda>st.
          case cr_mode st of
            DirectMode \<Rightarrow>
              if credit > 0 \<and> budget st > 0 then
                bind (whenM (budget st \<noteq> - 1) (write_credit_state_of owner (st\<lparr>budget := budget st - 1\<rparr>))) (\<lambda>_.
                modify (\<lambda>s. s\<lparr>credit_balances := (credit_balances s)(owner := credit - 1)\<rparr>))
              else ret ()
          | PreserveMode \<Rightarrow> ret ()
          | RefundMode \<Rightarrow>
              write_credit_state_of owner (st\<lparr>pending_refunds := saturating_add (pending_refunds st) 1\<rparr>))))"

text \<open>A write by a precompile to a slot of its own (\<open>EvmPrecompileStorageProvider::sstore_inner\<close>).\<close>

definition tracked_write :: "address \<Rightarrow> bool \<Rightarrow> bool \<Rightarrow> (storage_credits, unit) op" where
  "tracked_write owner present_zero new_zero =
     bind (ask spec) (\<lambda>h. whenM (is_t7 h) (sstore_storage_credits owner False True present_zero new_zero))"

datatype credits_call = SetModeCall abi_mode | SetBudgetCall u64

fun credits_exec :: "address \<Rightarrow> credits_call \<Rightarrow> (storage_credits, unit) op" where
  "credits_exec m (SetModeCall abi) = set_mode m abi"
| "credits_exec m (SetBudgetCall b) = set_budget m b"

section \<open>The packed word\<close>

lemma limb_from_limbs:
  "limb 0 (from_limbs a b c d) = a" "limb 1 (from_limbs a b c d) = b"
  "limb 2 (from_limbs a b c d) = c" "limb 3 (from_limbs a b c d) = d"
  by (rule bit_word_eqI; auto simp: limb_def from_limbs_def bit_simps)+

lemma transient_roundtrip [simp]: "transient_of_word (word_of_transient st) = Inr st"
  by (cases st; cases "cr_mode st")
    (simp_all add: transient_of_word_def word_of_transient_def limb_from_limbs limb_from_limbs(2)[simplified One_nat_def] credit_mode_of_u8_def)

text \<open>The words that occur: zero, the transient default, and encoded states.\<close>

definition word_ok :: "u256 \<Rightarrow> bool" where
  "word_ok w \<longleftrightarrow> (\<exists>st. w = word_of_transient st)"

lemma word_ok_zero: "word_ok 0"
  unfolding word_ok_def
  by (rule exI[of _ "\<lparr>cr_mode = RefundMode, budget = 0, pending_refunds = 0\<rparr>"]) (simp add: word_of_transient_def from_limbs_def)

lemma word_ok_transient [simp]: "word_ok (word_of_transient st)"
  by (auto simp: word_ok_def)

text \<open>Every operation leaves words that decode, in every account.\<close>

definition words_ok :: "storage_credits \<Rightarrow> bool" where
  "words_ok s \<longleftrightarrow> (\<forall>a. word_ok (credit_words s a))"

lemma words_ok_write [valid_intros]: "preserves e words_ok (write_credit_state_of a st)"
  unfolding write_credit_state_of_def by (intro valid_intros) (simp add: words_ok_def)

lemma words_ok_balance [valid_intros]: "preserves e words_ok (modify (credit_balances_update f))"
  by (intro valid_intros) (simp add: words_ok_def)

lemma words_ok_ops [valid_intros]:
  "preserves e words_ok (set_budget a n)" "preserves e words_ok (set_mode a m)"
  "preserves e words_ok (preserve_storage_credits a)" "preserves e words_ok (tracked_write a b b')"
  "preserves e words_ok (credits_exec a call)"
proof -
  show mode: "preserves e words_ok (set_budget a n)" "preserves e words_ok (set_mode a m)" for a n m
    unfolding set_budget_def set_mode_def write_mode_with_budget_def by (intro valid_intros)+
  show "preserves e words_ok (preserve_storage_credits a)"
    unfolding preserve_storage_credits_def by (intro valid_intros mode)
  show "preserves e words_ok (tracked_write a b b')"
    unfolding tracked_write_def sstore_storage_credits_def
    by (intro valid_intros) (auto simp: words_ok_def split: credit_mode.splits intro!: valid_intros)
  show "preserves e words_ok (credits_exec a call)" by (cases call) (simp_all add: mode)
qed

end
