(* ===== verification/Channel_State.thy ===== *)
theory Channel_State
  imports Storage_Credits
begin

text \<open>
  The storage of the channel reserve (\<open>precompiles/src/tip20_channel_reserve/mod.rs\<close>). A channel
  exists while its deposit is not zero. The last two fields are transient: they are empty at the
  start of every transaction, and the handler then seeds the hash.
\<close>

record packed_channel_state =
  settled :: u96
  deposit :: u96
  close_requested_at :: u32
  uses_logical_receive_policy_sender :: bool

record tip20_channel_reserve =
  channel_states :: "b256 \<Rightarrow> packed_channel_state"
  channel_storage_credits :: "address \<Rightarrow> u64"
  opened_this_tx :: "b256 \<Rightarrow> bool"
  channel_open_context_hash :: b256

definition empty_channel :: packed_channel_state where
  "empty_channel = \<lparr>settled = 0, deposit = 0, close_requested_at = 0, uses_logical_receive_policy_sender = False\<rparr>"

lemma empty_channel_simps [simp]:
  "settled empty_channel = 0" "deposit empty_channel = 0" "close_requested_at empty_channel = 0"
  by (simp_all add: empty_channel_def)

end
