(* ===== verification/Chain_State.thy ===== *)
theory Chain_State
  imports Address_Registry Account_Keychain Receive_Guard Fee_AMM TIP20_Accounting Channel_State
begin

text \<open>
  The storage the precompiles share: every token, the registries, the keychain, the receive
  policy guard, the fee manager, the channel reserve and the storage credits. The sources reach another precompile by constructing its
  handle (\<open>TIP403Registry::new()\<close>, \<open>TIP20Token::from_address\<close>); here that is \<open>zoom\<close> along the
  component. \<open>deployed\<close> says which accounts have code (\<open>is_initialized\<close>, \<open>with_account_info\<close>).
\<close>

record chain =
  tokens :: "address \<Rightarrow> tip20_token"
  deployed :: "address \<Rightarrow> bool"
  tip403 :: tip403_registry
  addresses :: address_registry
  keychain :: account_keychain
  guard :: receive_policy_guard
  fees :: tip_fee_manager
  reserve :: tip20_channel_reserve
  credits :: storage_credits

definition token_put :: "address \<Rightarrow> tip20_token \<Rightarrow> chain \<Rightarrow> chain" where
  "token_put a t c = c\<lparr>tokens := (tokens c)(a := t)\<rparr>"

definition on_token :: "address \<Rightarrow> (tip20_token, 'a) op \<Rightarrow> (chain, 'a) op" where
  "on_token a m = zoom (\<lambda>c. tokens c a) (token_put a) m"

definition on_tip403 :: "(tip403_registry, 'a) op \<Rightarrow> (chain, 'a) op" where
  "on_tip403 m = zoom tip403 (\<lambda>r c. c\<lparr>tip403 := r\<rparr>) m"

definition on_addresses :: "(address_registry, 'a) op \<Rightarrow> (chain, 'a) op" where
  "on_addresses m = zoom addresses (\<lambda>r c. c\<lparr>addresses := r\<rparr>) m"

definition on_keychain :: "(account_keychain, 'a) op \<Rightarrow> (chain, 'a) op" where
  "on_keychain m = zoom keychain (\<lambda>k c. c\<lparr>keychain := k\<rparr>) m"

definition on_guard :: "(receive_policy_guard, 'a) op \<Rightarrow> (chain, 'a) op" where
  "on_guard m = zoom guard (\<lambda>g c. c\<lparr>guard := g\<rparr>) m"

definition on_fees :: "(tip_fee_manager, 'a) op \<Rightarrow> (chain, 'a) op" where
  "on_fees m = zoom fees (\<lambda>f c. c\<lparr>fees := f\<rparr>) m"

definition on_reserve :: "(tip20_channel_reserve, 'a) op \<Rightarrow> (chain, 'a) op" where
  "on_reserve m = zoom reserve (\<lambda>r c. c\<lparr>reserve := r\<rparr>) m"

definition on_credits :: "(storage_credits, 'a) op \<Rightarrow> (chain, 'a) op" where
  "on_credits m = zoom credits (\<lambda>r c. c\<lparr>credits := r\<rparr>) m"

interpretation token_lens: lens "\<lambda>c. tokens c a" "token_put a" for a
  by unfold_locales (simp_all add: token_put_def)

interpretation tip403_lens: lens tip403 "\<lambda>r c. c\<lparr>tip403 := r\<rparr>"
  by unfold_locales simp_all

interpretation addresses_lens: lens addresses "\<lambda>r c. c\<lparr>addresses := r\<rparr>"
  by unfold_locales simp_all

interpretation keychain_lens: lens keychain "\<lambda>k c. c\<lparr>keychain := k\<rparr>"
  by unfold_locales simp_all

interpretation guard_lens: lens guard "\<lambda>g c. c\<lparr>guard := g\<rparr>"
  by unfold_locales simp_all

interpretation fees_lens: lens fees "\<lambda>f c. c\<lparr>fees := f\<rparr>"
  by unfold_locales simp_all

interpretation reserve_lens: lens reserve "\<lambda>r c. c\<lparr>reserve := r\<rparr>"
  by unfold_locales simp_all

interpretation credits_lens: lens credits "\<lambda>r c. c\<lparr>credits := r\<rparr>"
  by unfold_locales simp_all

lemmas on_defs = on_token_def on_tip403_def on_addresses_def on_keychain_def on_guard_def on_fees_def on_reserve_def on_credits_def

section \<open>How component operations run on the chain\<close>

lemma on_token_eq_Inr [run_simps]:
  "on_token a m e c = Inr (x, c', l) \<longleftrightarrow>
     (\<exists>t. m e (tokens c a) = Inr (x, t, l) \<and> c' = c\<lparr>tokens := (tokens c)(a := t)\<rparr>)"
  by (auto simp: on_token_def run_simps token_put_def)

lemma on_component_eq_Inr [run_simps]:
  "on_tip403 m1 e c = Inr (x, c', l) \<longleftrightarrow> (\<exists>r. m1 e (tip403 c) = Inr (x, r, l) \<and> c' = c\<lparr>tip403 := r\<rparr>)"
  "on_addresses m2 e c = Inr (x, c', l) \<longleftrightarrow> (\<exists>r. m2 e (addresses c) = Inr (x, r, l) \<and> c' = c\<lparr>addresses := r\<rparr>)"
  "on_keychain m3 e c = Inr (x, c', l) \<longleftrightarrow> (\<exists>r. m3 e (keychain c) = Inr (x, r, l) \<and> c' = c\<lparr>keychain := r\<rparr>)"
  "on_guard m4 e c = Inr (x, c', l) \<longleftrightarrow> (\<exists>r. m4 e (guard c) = Inr (x, r, l) \<and> c' = c\<lparr>guard := r\<rparr>)"
  "on_fees m5 e c = Inr (x, c', l) \<longleftrightarrow> (\<exists>r. m5 e (fees c) = Inr (x, r, l) \<and> c' = c\<lparr>fees := r\<rparr>)"
  "on_reserve m6 e c = Inr (x, c', l) \<longleftrightarrow> (\<exists>r. m6 e (reserve c) = Inr (x, r, l) \<and> c' = c\<lparr>reserve := r\<rparr>)"
  "on_credits m7 e c = Inr (x, c', l) \<longleftrightarrow> (\<exists>r. m7 e (credits c) = Inr (x, r, l) \<and> c' = c\<lparr>credits := r\<rparr>)"
  by (auto simp: on_defs run_simps)

text \<open>Executing a component operation on the chain: its result, put back.\<close>

definition put_back :: "('c \<Rightarrow> chain \<Rightarrow> chain) \<Rightarrow> chain \<Rightarrow> tempo_error + 'a \<times> 'c \<times> log_entry list \<Rightarrow>
    tempo_error + 'a \<times> chain \<times> log_entry list" where
  "put_back p c res = (case res of Inl err \<Rightarrow> Inl err | Inr (a, x, l) \<Rightarrow> Inr (a, p x c, l))"

lemma put_back_simps [simp]:
  "put_back p c (Inl err) = Inl err" "put_back p c (Inr (a, x, l)) = Inr (a, p x c, l)"
  by (simp_all add: put_back_def)

lemma on_run [exec_simps]:
  "on_token a m0 e c = put_back (token_put a) c (m0 e (tokens c a))"
  "on_tip403 m1 e c = put_back (\<lambda>r c. c\<lparr>tip403 := r\<rparr>) c (m1 e (tip403 c))"
  "on_addresses m2 e c = put_back (\<lambda>r c. c\<lparr>addresses := r\<rparr>) c (m2 e (addresses c))"
  "on_keychain m3 e c = put_back (\<lambda>r c. c\<lparr>keychain := r\<rparr>) c (m3 e (keychain c))"
  "on_guard m4 e c = put_back (\<lambda>r c. c\<lparr>guard := r\<rparr>) c (m4 e (guard c))"
  "on_fees m5 e c = put_back (\<lambda>r c. c\<lparr>fees := r\<rparr>) c (m5 e (fees c))"
  "on_reserve m6 e c = put_back (\<lambda>r c. c\<lparr>reserve := r\<rparr>) c (m6 e (reserve c))"
  "on_credits m7 e c = put_back (\<lambda>r c. c\<lparr>credits := r\<rparr>) c (m7 e (credits c))"
  by (simp_all add: on_defs zoom_def put_back_def)

lemma bind_on [exec_simps]:
  "bind (on_token a m0) f e c = andthen (on_token a m0 e c) f e"
  "bind (on_tip403 m1) f e c = andthen (on_tip403 m1 e c) f e"
  "bind (on_addresses m2) f e c = andthen (on_addresses m2 e c) f e"
  "bind (on_keychain m3) f e c = andthen (on_keychain m3 e c) f e"
  "bind (on_guard m4) f e c = andthen (on_guard m4 e c) f e"
  "bind (on_fees m5) f e c = andthen (on_fees m5 e c) f e"
  "bind (on_reserve m6) f e c = andthen (on_reserve m6 e c) f e"
  "bind (on_credits m7) f e c = andthen (on_credits m7 e c) f e"
  by (rule bind_andthen)+

end
