(* ===== verification/TIP20_Token.thy ===== *)
theory TIP20_Token
  imports Chain_State
begin

text \<open>
  TIP-20 token methods that involve other precompiles (\<open>precompiles/src/tip20/mod.rs\<close>,
  \<open>rewards.rs\<close>, \<open>dispatch.rs\<close>): policy checks against the TIP-403 registry, virtual recipients,
  access-key spending limits, blocked inbound funds, quote tokens, and the two registry
  methods that read token storage.

  A walk along quote tokens that never ends would consume the call's gas, so it is
  \<open>OutOfGas\<close> here; theory \<open>TIP20_Quotes\<close> shows that this does not happen.
\<close>

section \<open>Token handles and policies\<close>

definition from_address :: "address \<Rightarrow> tempo_error + unit" where
  "from_address a = rensure (is_tip20_prefix a) (TIP20Err InvalidToken)"

definition is_tip20 :: "address \<Rightarrow> chain \<Rightarrow> bool" where
  "is_tip20 token c = (if \<not> is_tip20_prefix token then False else deployed c token)"

definition validate_usd_currency :: "address \<Rightarrow> chain \<Rightarrow> tempo_error + unit" where
  "validate_usd_currency token c =
     rbind (from_address token) (\<lambda>_.
     rensure (\<not> currency (tokens c token) \<noteq> USD_CURRENCY) (TIP20Err InvalidCurrency))"

definition transfer_policy_id :: "address \<Rightarrow> env \<Rightarrow> chain \<Rightarrow> u64" where
  "transfer_policy_id self e c =
     (case (if is_t9 (spec e) then registered_token_transfer_policy_id self (tip403 c) else None) of
        Some policy_id \<Rightarrow> policy_id
      | None \<Rightarrow> legacy_transfer_policy_id (tokens c self))"

definition recipient_resolve :: "address \<Rightarrow> env \<Rightarrow> chain \<Rightarrow> tempo_error + recipient" where
  "recipient_resolve a e c =
     rbind (resolve_recipient a e (addresses c)) (\<lambda>effective.
     Inr (if effective = a then direct a else \<lparr>target = effective, virtual_addr = Some a\<rparr>))"

definition is_transfer_authorized :: "address \<Rightarrow> address \<Rightarrow> address \<Rightarrow> env \<Rightarrow> chain \<Rightarrow> tempo_error + bool" where
  "is_transfer_authorized self from to e c =
     (let policy_id = transfer_policy_id self e c in
      rbind (is_authorized_as policy_id from (auth_sender (spec e)) e (tip403 c)) (\<lambda>sender_auth.
      if is_t2 (spec e) \<and> \<not> sender_auth then Inr False
      else
        rbind (is_authorized_as policy_id to (auth_recipient (spec e)) e (tip403 c)) (\<lambda>recipient_auth.
        Inr (sender_auth \<and> recipient_auth))))"

definition ensure_transfer_authorized :: "address \<Rightarrow> address \<Rightarrow> address \<Rightarrow> env \<Rightarrow> chain \<Rightarrow> tempo_error + unit" where
  "ensure_transfer_authorized self from to e c =
     rbind (is_transfer_authorized self from to e c) (\<lambda>ok. rensure ok (TIP20Err PolicyForbids))"

definition ensure_receive_policy_authorized ::
  "address \<Rightarrow> address \<Rightarrow> address \<Rightarrow> env \<Rightarrow> chain \<Rightarrow> tempo_error + unit" where
  "ensure_receive_policy_authorized self sender receiver e c =
     rbind (validate_receive_policy self sender receiver e (tip403 c)) (\<lambda>blocked.
     rensure (blocked = None) (TIP20Err PolicyForbids))"

fun authorize_all :: "u64 \<Rightarrow> (address \<times> auth_role) list \<Rightarrow> env \<Rightarrow> chain \<Rightarrow> tempo_error + unit" where
  "authorize_all policy_id [] e c = Inr ()"
| "authorize_all policy_id ((user, role) # rest) e c =
     rbind (is_authorized_as policy_id user role e (tip403 c)) (\<lambda>ok.
     if \<not> ok then Inl (TIP20Err PolicyForbids) else authorize_all policy_id rest e c)"

definition ensure_authorized_as :: "address \<Rightarrow> (address \<times> auth_role) list \<Rightarrow> env \<Rightarrow> chain \<Rightarrow> tempo_error + unit" where
  "ensure_authorized_as self user_auth e c = authorize_all (transfer_policy_id self e c) user_auth e c"

definition check_and_update_spending_limit :: "address \<Rightarrow> address \<Rightarrow> u256 \<Rightarrow> (chain, unit) op" where
  "check_and_update_spending_limit self from amount = on_keychain (authorize_transfer from self amount)"

section \<open>Inbound checks\<close>

definition validate_inbound_or_block ::
  "address \<Rightarrow> address \<Rightarrow> recipient \<Rightarrow> u256 \<Rightarrow> u256 option \<Rightarrow> b256 \<Rightarrow> (chain, bool) op" where
  "validate_inbound_or_block self originator to amount mint_total_supply memo =
     bind (ask spec) (\<lambda>h.
     if \<not> is_t6 h then ret False
     else
       bind (ensure (target to \<noteq> RECEIVE_POLICY_GUARD_ADDRESS) (ReceivePolicyGuardErr GuardAddressReserved)) (\<lambda>_.
       bind (query (\<lambda>e c. check_receive_policy self originator (target to) e (tip403 c))) (\<lambda>blocked.
       case blocked of
         None \<Rightarrow> ret False
       | Some (reason, recovery) \<Rightarrow>
           let grd = direct RECEIVE_POLICY_GUARD_ADDRESS in
           bind (case mint_total_supply of
                   Some supply \<Rightarrow>
                     bind (on_token self (mint_core self grd supply amount)) (\<lambda>_.
                     bind (on_token self (emit20 self (Mint (target grd) amount))) (\<lambda>_.
                     ret InboundMint))
                 | None \<Rightarrow>
                     bind (on_token self (transfer_core self originator grd amount)) (\<lambda>_.
                     ret InboundTransfer)) (\<lambda>kind.
           bind (on_guard (store_blocked self originator to recovery amount reason kind memo)) (\<lambda>_.
           ret True)))))"

definition validate_transfer ::
  "address \<Rightarrow> address option \<Rightarrow> address \<Rightarrow> address \<Rightarrow> u256 \<Rightarrow> b256 \<Rightarrow> (chain, recipient option) op" where
  "validate_transfer self spender from to amount memo =
     bind (query (recipient_resolve to)) (\<lambda>rcp.
     bind (on_token self check_not_paused) (\<lambda>_.
     bind (query (\<lambda>_ _. recipient_validate rcp)) (\<lambda>_.
     bind (query (ensure_transfer_authorized self from (target rcp))) (\<lambda>_.
     bind (case spender of
             Some sp \<Rightarrow> on_token self (consume_allowance from sp amount)
           | None \<Rightarrow> check_and_update_spending_limit self from amount) (\<lambda>_.
     bind (validate_inbound_or_block self from rcp amount None memo) (\<lambda>blocked.
     ret (if blocked then None else Some rcp)))))))"

definition validate_mint ::
  "address \<Rightarrow> address \<Rightarrow> address \<Rightarrow> u256 \<Rightarrow> b256 \<Rightarrow> (chain, (u256 \<times> recipient) option) op" where
  "validate_mint self msg_sender to amount memo =
     bind (query (recipient_resolve to)) (\<lambda>rcp.
     bind (on_token self (check_role msg_sender ISSUER_ROLE)) (\<lambda>_.
     bind (gets (\<lambda>c. total_supply (tokens c self))) (\<lambda>supply.
     bind (ask spec) (\<lambda>h.
     bind (whenM (is_t3 h)
       (bind (on_token self check_not_paused) (\<lambda>_. query (\<lambda>_ _. recipient_validate rcp)))) (\<lambda>_.
     bind (query (\<lambda>e c. is_authorized_as (transfer_policy_id self e c) (target rcp)
                           (auth_mint_recipient (spec e)) e (tip403 c))) (\<lambda>ok.
     bind (ensure ok (TIP20Err PolicyForbids)) (\<lambda>_.
     bind (validate_inbound_or_block self msg_sender rcp amount (Some supply) memo) (\<lambda>blocked.
     ret (if blocked then None else Some (supply, rcp))))))))))"

section \<open>Transfers\<close>

definition finish_transfer :: "address \<Rightarrow> address \<Rightarrow> recipient option \<Rightarrow> u256 \<Rightarrow> (chain, unit) op" where
  "finish_transfer self from rcp amount =
     (case rcp of
        None \<Rightarrow> ret ()
      | Some to \<Rightarrow>
          bind (on_token self (transfer_core self from to amount)) (\<lambda>_.
          on_token self (emit_hop self to amount)))"

definition finish_transfer_memo ::
  "address \<Rightarrow> address \<Rightarrow> address \<Rightarrow> recipient option \<Rightarrow> u256 \<Rightarrow> b256 \<Rightarrow> (chain, unit) op" where
  "finish_transfer_memo self from to rcp amount memo =
     (case rcp of
        None \<Rightarrow> ret ()
      | Some r \<Rightarrow>
          bind (on_token self (transfer_core self from r amount)) (\<lambda>_.
          bind (on_token self (emit20 self (TransferWithMemo from to amount memo))) (\<lambda>_.
          on_token self (emit_hop self r amount))))"

definition transfer :: "address \<Rightarrow> address \<Rightarrow> address \<Rightarrow> u256 \<Rightarrow> (chain, bool) op" where
  "transfer self msg_sender to amount =
     bind (validate_transfer self None msg_sender to amount 0) (\<lambda>rcp.
     bind (finish_transfer self msg_sender rcp amount) (\<lambda>_. ret True))"

definition transfer_from :: "address \<Rightarrow> address \<Rightarrow> address \<Rightarrow> address \<Rightarrow> u256 \<Rightarrow> (chain, bool) op" where
  "transfer_from self msg_sender from to amount =
     bind (validate_transfer self (Some msg_sender) from to amount 0) (\<lambda>rcp.
     bind (finish_transfer self from rcp amount) (\<lambda>_. ret True))"

definition transfer_from_with_memo ::
  "address \<Rightarrow> address \<Rightarrow> address \<Rightarrow> address \<Rightarrow> u256 \<Rightarrow> b256 \<Rightarrow> (chain, bool) op" where
  "transfer_from_with_memo self msg_sender from to amount memo =
     bind (validate_transfer self (Some msg_sender) from to amount memo) (\<lambda>rcp.
     bind (finish_transfer_memo self from to rcp amount memo) (\<lambda>_. ret True))"

definition transfer_with_memo :: "address \<Rightarrow> address \<Rightarrow> address \<Rightarrow> u256 \<Rightarrow> b256 \<Rightarrow> (chain, unit) op" where
  "transfer_with_memo self msg_sender to amount memo =
     bind (validate_transfer self None msg_sender to amount memo) (\<lambda>rcp.
     finish_transfer_memo self msg_sender to rcp amount memo)"

definition system_transfer_from :: "address \<Rightarrow> address \<Rightarrow> address \<Rightarrow> u256 \<Rightarrow> (chain, bool) op" where
  "system_transfer_from self caller from amount =
     bind (ask spec) (\<lambda>h.
     bind (ensure (\<not> (is_t5 h \<and> \<not> is_implicitly_approved caller h)) (TIP20Err Unauthorized)) (\<lambda>_.
     bind (validate_transfer self None from caller amount 0) (\<lambda>rcp.
     bind (finish_transfer self from rcp amount) (\<lambda>_. ret True))))"

definition channel_reserve_transfer ::
  "address \<Rightarrow> address \<Rightarrow> recipient \<Rightarrow> u256 \<Rightarrow> address \<Rightarrow> (chain, unit) op" where
  "channel_reserve_transfer self from to amount receive_policy_sender =
     bind (ensure (\<not> (from \<noteq> TIP20_CHANNEL_RESERVE_ADDRESS \<and>
                       original_address to \<noteq> TIP20_CHANNEL_RESERVE_ADDRESS)) (TIP20Err Unauthorized)) (\<lambda>_.
     bind (on_token self check_not_paused) (\<lambda>_.
     bind (query (\<lambda>_ _. recipient_validate to)) (\<lambda>_.
     bind (check_and_update_spending_limit self from amount) (\<lambda>_.
     bind (ensure (target to \<noteq> RECEIVE_POLICY_GUARD_ADDRESS) (ReceivePolicyGuardErr GuardAddressReserved)) (\<lambda>_.
     bind (query (ensure_receive_policy_authorized self receive_policy_sender (target to))) (\<lambda>_.
     bind (on_token self (transfer_core self from to amount)) (\<lambda>_.
     on_token self (emit_hop self to amount))))))))"

definition release_blocked_funds ::
  "address \<Rightarrow> address \<Rightarrow> address \<Rightarrow> address \<Rightarrow> u256 \<Rightarrow> recovery_mode \<Rightarrow> address \<Rightarrow> (chain, unit) op" where
  "release_blocked_funds self originator receiver to amount mode recovery_auth =
     bind (on_token self check_not_paused) (\<lambda>_.
     bind (query (recipient_resolve to)) (\<lambda>destination.
     bind (query (\<lambda>_ _. recipient_validate destination)) (\<lambda>_.
     bind (if is_reroute mode to receiver
           then let subject = policy_subject mode originator receiver in
                bind (query (ensure_transfer_authorized self subject (target destination))) (\<lambda>_.
                bind (query (\<lambda>e c. validate_receive_policy self subject (target destination) e (tip403 c))) (\<lambda>blocked.
                bind (ensure (blocked = None) (TIP20Err PolicyForbids)) (\<lambda>_.
                case spending_account mode recovery_auth of
                  Some a \<Rightarrow> check_and_update_spending_limit self a amount
                | None \<Rightarrow> ret ())))
           else query (\<lambda>e. ensure_authorized_as self [(target destination, auth_recipient (spec e))] e)) (\<lambda>_.
     bind (on_token self (transfer_core self RECEIVE_POLICY_GUARD_ADDRESS destination amount)) (\<lambda>_.
     on_token self (emit_hop self destination amount))))))"

section \<open>Minting, burning, allowances\<close>

definition mint :: "address \<Rightarrow> address \<Rightarrow> address \<Rightarrow> u256 \<Rightarrow> (chain, unit) op" where
  "mint self msg_sender to amount =
     bind (validate_mint self msg_sender to amount 0) (\<lambda>v.
     case v of
       None \<Rightarrow> ret ()
     | Some (supply, rcp) \<Rightarrow>
         bind (on_token self (mint_core self rcp supply amount)) (\<lambda>_.
         bind (on_token self (emit20 self (Mint to amount))) (\<lambda>_.
         on_token self (emit_hop self rcp amount))))"

definition mint_with_memo :: "address \<Rightarrow> address \<Rightarrow> address \<Rightarrow> u256 \<Rightarrow> b256 \<Rightarrow> (chain, unit) op" where
  "mint_with_memo self msg_sender to amount memo =
     bind (validate_mint self msg_sender to amount memo) (\<lambda>v.
     case v of
       None \<Rightarrow> ret ()
     | Some (supply, rcp) \<Rightarrow>
         bind (on_token self (mint_core self rcp supply amount)) (\<lambda>_.
         bind (on_token self (emit20 self (TransferWithMemo ADDRESS_ZERO to amount memo))) (\<lambda>_.
         bind (on_token self (emit20 self (Mint to amount))) (\<lambda>_.
         on_token self (emit_hop self rcp amount)))))"

definition PROTECTED :: "(tempo_hardfork \<times> address list) list" where
  "PROTECTED = [(Genesis, [TIP_FEE_MANAGER_ADDRESS, STABLECOIN_DEX_ADDRESS]),
     (T5, [TIP20_CHANNEL_RESERVE_ADDRESS]), (T6, [RECEIVE_POLICY_GUARD_ADDRESS])]"

definition is_protected :: "address \<Rightarrow> address \<Rightarrow> tempo_hardfork \<Rightarrow> bool" where
  "is_protected self owner h \<longleftrightarrow>
     list_ex (\<lambda>(hf, addrs). h \<ge> hf \<and> owner \<in> set addrs) PROTECTED \<or> (is_t5 h \<and> owner = self)"

definition burn_blocked :: "address \<Rightarrow> address \<Rightarrow> address \<Rightarrow> u256 \<Rightarrow> bool \<Rightarrow> (chain, unit) op" where
  "burn_blocked self msg_sender owner amount check_protected =
     bind (ask spec) (\<lambda>h.
     bind (whenM (is_t3 h) (on_token self check_not_paused)) (\<lambda>_.
     bind (on_token self (check_role msg_sender BURN_BLOCKED_ROLE)) (\<lambda>_.
     bind (ensure (\<not> (check_protected \<and> is_protected self owner h)) (TIP20Err ProtectedAddress)) (\<lambda>_.
     bind (query (\<lambda>e c. is_authorized_as (transfer_policy_id self e c) owner (auth_sender (spec e)) e (tip403 c))) (\<lambda>ok.
     bind (ensure (\<not> ok) (TIP20Err PolicyForbids)) (\<lambda>_.
     let burn_from = (if check_protected then owner else RECEIVE_POLICY_GUARD_ADDRESS) in
     bind (on_token self (transfer_core self burn_from (direct ADDRESS_ZERO) amount)) (\<lambda>_.
     bind (on_token self (reduce_supply self amount)) (\<lambda>_.
     on_token self (emit20 self (BurnBlocked owner amount))))))))))"

definition approve :: "address \<Rightarrow> address \<Rightarrow> address \<Rightarrow> u256 \<Rightarrow> (chain, bool) op" where
  "approve self msg_sender spender amount =
     bind (gets (\<lambda>c. allowances (tokens c self) msg_sender spender)) (\<lambda>old.
     bind (on_keychain (authorize_approve msg_sender self old amount)) (\<lambda>_.
     bind (on_token self (set_allowance msg_sender spender amount)) (\<lambda>_.
     bind (on_token self (emit20 self (Approval msg_sender spender amount))) (\<lambda>_.
     ret True))))"

section \<open>Rewards and fees\<close>

definition distribute_reward :: "address \<Rightarrow> address \<Rightarrow> u256 \<Rightarrow> (chain, unit) op" where
  "distribute_reward self msg_sender amount =
     bind (ask spec) (\<lambda>h.
     if is_t7 h then ret ()
     else
       bind (on_token self check_not_paused) (\<lambda>_.
       bind (ensure (amount \<noteq> 0) (TIP20Err InvalidAmount)) (\<lambda>_.
       bind (query (ensure_transfer_authorized self msg_sender self)) (\<lambda>_.
       bind (check_and_update_spending_limit self msg_sender amount) (\<lambda>_.
       on_token self (distribute_core self msg_sender amount))))))"

definition set_reward_recipient :: "address \<Rightarrow> address \<Rightarrow> address \<Rightarrow> (chain, unit) op" where
  "set_reward_recipient self msg_sender recipient =
     bind (ask spec) (\<lambda>h.
     if is_t7 h then ret ()
     else
       bind (on_token self check_not_paused) (\<lambda>_.
       bind (ensure (\<not> (is_t3 h \<and> is_virtual recipient)) (TIP20Err InvalidRecipient)) (\<lambda>_.
       bind (whenM (recipient \<noteq> ADDRESS_ZERO)
         (query (ensure_transfer_authorized self msg_sender recipient))) (\<lambda>_.
       on_token self (set_recipient_core self msg_sender recipient)))))"

definition claim_rewards :: "address \<Rightarrow> address \<Rightarrow> (chain, u256) op" where
  "claim_rewards self msg_sender =
     bind (on_token self check_not_paused) (\<lambda>_.
     bind (query (ensure_transfer_authorized self self msg_sender)) (\<lambda>_.
     on_token self (claim_core self msg_sender)))"

definition transfer_fee_pre_tx :: "address \<Rightarrow> address \<Rightarrow> u256 \<Rightarrow> (chain, unit) op" where
  "transfer_fee_pre_tx self from amount =
     bind (on_token self check_not_paused) (\<lambda>_.
     bind (check_and_update_spending_limit self from amount) (\<lambda>_.
     on_token self (fee_pre_core self from amount)))"

definition transfer_fee_post_tx :: "address \<Rightarrow> address \<Rightarrow> u256 \<Rightarrow> u256 \<Rightarrow> (chain, unit) op" where
  "transfer_fee_post_tx self to refund actual_spending =
     bind (on_token self (emit20 self (Transfer to TIP_FEE_MANAGER_ADDRESS actual_spending))) (\<lambda>_.
     if refund = 0 then ret ()
     else
       bind (ask spec) (\<lambda>h.
       bind (whenM (is_t1c h) (on_keychain (refund_spending_limit to self refund))) (\<lambda>_.
       on_token self (fee_post_core self to refund))))"

section \<open>Administration\<close>

definition change_transfer_policy_id :: "address \<Rightarrow> address \<Rightarrow> u64 \<Rightarrow> (chain, unit) op" where
  "change_transfer_policy_id self msg_sender new_policy_id =
     bind (on_token self (check_role msg_sender DEFAULT_ADMIN_ROLE)) (\<lambda>_.
     bind (gets (\<lambda>c. policy_exists new_policy_id (tip403 c))) (\<lambda>exists.
     bind (ensure exists (TIP20Err InvalidTransferPolicyId)) (\<lambda>_.
     bind (ask spec) (\<lambda>h.
     bind (if is_t9 h then on_tip403 (set_token_transfer_policy self new_policy_id)
           else on_token self (modify (\<lambda>t. t\<lparr>legacy_transfer_policy_id := new_policy_id\<rparr>))) (\<lambda>_.
     on_token self (emit20 self (TransferPolicyUpdate msg_sender new_policy_id)))))))"

definition set_next_quote_token :: "address \<Rightarrow> address \<Rightarrow> address \<Rightarrow> (chain, unit) op" where
  "set_next_quote_token self msg_sender new_quote =
     bind (on_token self (check_role msg_sender DEFAULT_ADMIN_ROLE)) (\<lambda>_.
     bind (ensure (self \<noteq> PATH_USD_ADDRESS) (TIP20Err InvalidQuoteToken)) (\<lambda>_.
     bind (gets (is_tip20 new_quote)) (\<lambda>ok.
     bind (ensure ok (TIP20Err InvalidQuoteToken)) (\<lambda>_.
     bind (query (\<lambda>_ c. if currency (tokens c self) = USD_CURRENCY
                          then rbind (from_address new_quote) (\<lambda>_.
                               rensure (\<not> currency (tokens c new_quote) \<noteq> USD_CURRENCY) (TIP20Err InvalidQuoteToken))
                          else Inr ())) (\<lambda>_.
     bind (on_token self (modify (\<lambda>t. t\<lparr>next_quote_token := new_quote\<rparr>))) (\<lambda>_.
     on_token self (emit20 self (NextQuoteTokenSet msg_sender new_quote))))))))"

partial_function (option) quote_walk :: "chain \<Rightarrow> address \<Rightarrow> address \<Rightarrow> (tempo_error + unit) option" where
  "quote_walk c self current =
     (if current = PATH_USD_ADDRESS then Some (Inr ())
      else if current = self then Some (Inl (TIP20Err InvalidQuoteToken))
      else case from_address current of
             Inl err \<Rightarrow> Some (Inl err)
           | Inr _ \<Rightarrow> quote_walk c self (quote_token (tokens c current)))"

declare quote_walk.simps [code]

definition check_quote_chain :: "address \<Rightarrow> address \<Rightarrow> chain \<Rightarrow> tempo_error + unit" where
  "check_quote_chain self current c =
     (case quote_walk c self current of Some r \<Rightarrow> r | None \<Rightarrow> Inl OutOfGas)"

definition complete_quote_token_update :: "address \<Rightarrow> address \<Rightarrow> (chain, unit) op" where
  "complete_quote_token_update self msg_sender =
     bind (on_token self (check_role msg_sender DEFAULT_ADMIN_ROLE)) (\<lambda>_.
     bind (gets (\<lambda>c. next_quote_token (tokens c self))) (\<lambda>next.
     bind (query (\<lambda>_. check_quote_chain self next)) (\<lambda>_.
     bind (on_token self (modify (\<lambda>t. t\<lparr>quote_token := next\<rparr>))) (\<lambda>_.
     on_token self (emit20 self (QuoteTokenUpdate msg_sender next))))))"

definition initialize ::
  "address \<Rightarrow> address \<Rightarrow> string \<Rightarrow> string \<Rightarrow> string \<Rightarrow> address \<Rightarrow> address \<Rightarrow> (chain, unit) op" where
  "initialize self msg_sender nam symb cur quote admin =
     bind (modify (\<lambda>c. c\<lparr>deployed := (deployed c)(self := True)\<rparr>)) (\<lambda>_.
     bind (on_token self (modify (\<lambda>t. t\<lparr>tok_name := nam, tok_symbol := symb, currency := cur, quote_token := quote,
             next_quote_token := quote, supply_cap := U128_MAX\<rparr>))) (\<lambda>_.
     bind (ask spec) (\<lambda>h.
     bind (if is_t9 h then on_tip403 (set_token_transfer_policy self ALLOW_ALL_POLICY_ID)
           else on_token self (modify (\<lambda>t. t\<lparr>legacy_transfer_policy_id := ALLOW_ALL_POLICY_ID\<rparr>))) (\<lambda>_.
     bind (on_token self initialize_roles) (\<lambda>_.
     on_token self (grant_default_admin self msg_sender admin))))))"

section \<open>Registry methods on token storage\<close>

definition token_transfer_policy_id :: "address \<Rightarrow> chain \<Rightarrow> tempo_error + bool \<times> u64" where
  "token_transfer_policy_id token c =
     rbind (rensure (is_tip20 token c) (TIP20Err InvalidToken)) (\<lambda>_.
     case registered_token_transfer_policy_id token (tip403 c) of
       Some policy_id \<Rightarrow> Inr (True, policy_id)
     | None \<Rightarrow> rbind (from_address token) (\<lambda>_. Inr (False, legacy_transfer_policy_id (tokens c token))))"

fun migrate_transfer_policy_ids :: "address list \<Rightarrow> (chain, u256) op" where
  "migrate_transfer_policy_ids [] = ret 0"
| "migrate_transfer_policy_ids (token # rest) =
     bind (gets (\<lambda>c. \<not> is_tip20 token c \<or> registered_token_transfer_policy_id token (tip403 c) \<noteq> None)) (\<lambda>skip.
     if skip then migrate_transfer_policy_ids rest
     else
       bind (query (\<lambda>_ _. from_address token)) (\<lambda>_.
       bind (gets (\<lambda>c. legacy_transfer_policy_id (tokens c token))) (\<lambda>policy_id.
       bind (on_tip403 (set_token_transfer_policy token policy_id)) (\<lambda>_.
       bind (on_token token (modify (\<lambda>t. t\<lparr>legacy_transfer_policy_id := 0\<rparr>))) (\<lambda>_.
       bind (migrate_transfer_policy_ids rest) (\<lambda>migrated.
       ret (migrated + 1)))))))"

end
