(* ===== verification/TIP20_Factory.thy ===== *)
theory TIP20_Factory
  imports TIP20_Token
begin

text \<open>
  The token factory (\<open>precompiles/src/tip20_factory/mod.rs\<close>): deterministic token addresses,
  the reserved range, and token creation.
\<close>

unbundle bit_operations_syntax

section \<open>Operations\<close>

definition RESERVED_SIZE :: u64 where "RESERVED_SIZE = 1024"

definition TIP20_PREFIX_BYTES :: "96 word" where "TIP20_PREFIX_BYTES = 0x20C000000000000000000000"

definition compute_tip20_address :: "env \<Rightarrow> address \<Rightarrow> b256 \<Rightarrow> address \<times> u64" where
  "compute_tip20_address e sender salt =
     (let hash = keccak256 e (abi_address sender @ abi_word salt);
          lower_bytes = (ucast (drop_bit 192 hash) :: u64) in
      (push_bit 64 (ucast TIP20_PREFIX_BYTES) OR ucast lower_bytes, lower_bytes))"

definition get_token_address :: "address \<Rightarrow> b256 \<Rightarrow> env \<Rightarrow> tempo_error + address" where
  "get_token_address sender salt e =
     (let (a, lower_bytes) = compute_tip20_address e sender salt in
      rbind (rensure (\<not> lower_bytes < RESERVED_SIZE) (TIP20FactoryErr AddressReserved)) (\<lambda>_. Inr a))"

definition emit_created ::
  "address \<Rightarrow> string \<Rightarrow> string \<Rightarrow> string \<Rightarrow> address \<Rightarrow> address \<Rightarrow> b256 \<Rightarrow> (chain, unit) op" where
  "emit_created token nam symb cur quote admin salt =
     emit (TIP20_FACTORY_ADDRESS, TokenCreated token nam symb cur quote admin salt)"

definition create_token ::
  "address \<Rightarrow> string \<Rightarrow> string \<Rightarrow> string \<Rightarrow> address \<Rightarrow> address \<Rightarrow> b256 \<Rightarrow> (chain, address) op" where
  "create_token sender nam symb cur quote admin salt =
     bind (ask (\<lambda>e. compute_tip20_address e sender salt)) (\<lambda>(token_address, lower_bytes).
     bind (gets (is_tip20 token_address)) (\<lambda>exists.
     bind (ensure (\<not> exists) (TIP20FactoryErr (TokenAlreadyExists token_address))) (\<lambda>_.
     bind (gets (is_tip20 quote)) (\<lambda>quote_ok.
     bind (ensure quote_ok (TIP20Err InvalidQuoteToken)) (\<lambda>_.
     bind (query (\<lambda>_ c. if cur = USD_CURRENCY
                          then rbind (from_address quote) (\<lambda>_.
                               rensure (\<not> currency (tokens c quote) \<noteq> USD_CURRENCY) (TIP20Err InvalidQuoteToken))
                          else Inr ())) (\<lambda>_.
     bind (ensure (\<not> lower_bytes < RESERVED_SIZE) (TIP20FactoryErr AddressReserved)) (\<lambda>_.
     bind (query (\<lambda>_ _. from_address token_address)) (\<lambda>_.
     bind (initialize token_address sender nam symb cur quote admin) (\<lambda>_.
     bind (emit_created token_address nam symb cur quote admin salt) (\<lambda>_.
     ret token_address))))))))))"

definition create_token_with_logo ::
  "address \<Rightarrow> string \<Rightarrow> string \<Rightarrow> string \<Rightarrow> address \<Rightarrow> address \<Rightarrow> b256 \<Rightarrow> string \<Rightarrow> (chain, address) op" where
  "create_token_with_logo sender nam symb cur quote admin salt logo =
     bind (whenM (logo \<noteq> []) (query (\<lambda>_ _. validate_logo_uri logo))) (\<lambda>_.
     bind (create_token sender nam symb cur quote admin salt) (\<lambda>token_address.
     bind (whenM (logo \<noteq> [])
       (bind (query (\<lambda>_ _. from_address token_address)) (\<lambda>_.
        on_token token_address (write_logo_uri token_address sender logo)))) (\<lambda>_.
     ret token_address)))"

definition create_token_reserved_address ::
  "address \<Rightarrow> string \<Rightarrow> string \<Rightarrow> string \<Rightarrow> address \<Rightarrow> address \<Rightarrow> (chain, address) op" where
  "create_token_reserved_address a nam symb cur quote admin =
     bind (ensure (is_tip20_prefix a) (TIP20Err InvalidToken)) (\<lambda>_.
     bind (gets (is_tip20 a)) (\<lambda>exists.
     bind (ensure (\<not> exists) (TIP20FactoryErr (TokenAlreadyExists a))) (\<lambda>_.
     bind (gets (is_tip20 quote)) (\<lambda>quote_ok.
     bind (whenM (quote \<noteq> ADDRESS_ZERO)
       (bind (ensure (\<not> (a = PATH_USD_ADDRESS \<or> \<not> quote_ok)) (TIP20Err InvalidQuoteToken)) (\<lambda>_.
        query (\<lambda>_ c. if cur = USD_CURRENCY
                      then rbind (from_address quote) (\<lambda>_.
                           rensure (\<not> currency (tokens c quote) \<noteq> USD_CURRENCY) (TIP20Err InvalidQuoteToken))
                      else Inr ())))) (\<lambda>_.
     let lower_bytes = (ucast a :: u64) in
     bind (ensure (\<not> lower_bytes \<ge> RESERVED_SIZE) (TIP20FactoryErr AddressNotReserved)) (\<lambda>_.
     bind (query (\<lambda>_ _. from_address a)) (\<lambda>_.
     bind (initialize a admin nam symb cur quote admin) (\<lambda>_.
     bind (emit_created a nam symb cur quote admin 0) (\<lambda>_.
     ret a)))))))))"

end
