(* ===== verification/Guard_Claims.thy ===== *)
theory Guard_Claims
  imports TIP20_Token
begin

text \<open>
  Claims on and burns of blocked funds (\<open>precompiles/src/receive_policy_guard/mod.rs\<close>). The
  receipt argument is what ABI decoding of the call's bytes gave: \<open>None\<close> when they do not
  decode.
\<close>

section \<open>Operations\<close>

definition resolve_receipt ::
  "claim_receipt option \<Rightarrow> env \<Rightarrow> chain \<Rightarrow> tempo_error + claim_receipt \<times> address \<times> recovery_mode" where
  "resolve_receipt bytes e c =
     rbind (rok_or bytes (ReceivePolicyGuardErr InvalidReceipt)) (\<lambda>receipt.
     case resolve_recipient (cr_recipient receipt) e (addresses c) of
       Inl _ \<Rightarrow> Inl (ReceivePolicyGuardErr InvalidClaimAddress)
     | Inr receiver \<Rightarrow> Inr (receipt, receiver, recovery_from receipt receiver))"

definition claim :: "address \<Rightarrow> address \<Rightarrow> claim_receipt option \<Rightarrow> (chain, unit) op" where
  "claim msg_sender to bytes =
     bind (ensure (to \<noteq> RECEIVE_POLICY_GUARD_ADDRESS) (ReceivePolicyGuardErr InvalidClaimAddress)) (\<lambda>_.
     bind (query (resolve_receipt bytes)) (\<lambda>(receipt, receiver, mode).
     let authority = recovery_authority mode receipt in
     bind (ensure (authority = msg_sender) (ReceivePolicyGuardErr UnauthorizedClaimer)) (\<lambda>_.
     bind (ask (\<lambda>e. receipt_key e receipt)) (\<lambda>key.
     bind (gets (\<lambda>c. receipt_balances (guard c) key)) (\<lambda>amount.
     bind (ensure (amount \<noteq> 0) (ReceivePolicyGuardErr InvalidReceipt)) (\<lambda>_.
     bind (on_guard (set_receipt_balance key 0)) (\<lambda>_.
     bind (query (\<lambda>_ _. from_address (cr_token receipt))) (\<lambda>_.
     bind (release_blocked_funds (cr_token receipt) (cr_originator receipt) receiver to amount mode authority) (\<lambda>_.
     on_guard (emit_guard (claimed_event receipt receiver msg_sender to amount)))))))))))"

definition burn_blocked_receipt :: "address \<Rightarrow> claim_receipt option \<Rightarrow> (chain, unit) op" where
  "burn_blocked_receipt msg_sender bytes =
     bind (query (resolve_receipt bytes)) (\<lambda>(receipt, receiver, mode).
     bind (ask (\<lambda>e. receipt_key e receipt)) (\<lambda>key.
     bind (gets (\<lambda>c. receipt_balances (guard c) key)) (\<lambda>amount.
     bind (ensure (amount \<noteq> 0) (ReceivePolicyGuardErr InvalidReceipt)) (\<lambda>_.
     let owner = policy_subject mode (cr_originator receipt) receiver in
     bind (query (\<lambda>_ _. from_address (cr_token receipt))) (\<lambda>_.
     bind (burn_blocked (cr_token receipt) msg_sender owner amount False) (\<lambda>_.
     bind (on_guard (set_receipt_balance key 0)) (\<lambda>_.
     on_guard (emit_guard (burned_event receipt receiver msg_sender amount)))))))))"

end
