(* ===== verification/Fee_Manager.thy ===== *)
theory Fee_Manager
  imports TIP20_Token
begin

text \<open>
  The fee manager (\<open>precompiles/src/tip_fee_manager/mod.rs\<close>, \<open>amm.rs\<close>): fee token preferences,
  collection of fees before and after a transaction, distribution to validators, and the AMM
  operations that move tokens. The beneficiary of the block is an argument where the code
  reads it from the block environment.
\<close>

section \<open>Fee token preferences\<close>

definition set_validator_token :: "address \<Rightarrow> address \<Rightarrow> address \<Rightarrow> (chain, unit) op" where
  "set_validator_token sender token beneficiary =
     bind (gets (is_tip20 token)) (\<lambda>ok.
     bind (ensure ok (FeeManagerErr FeeInvalidToken)) (\<lambda>_.
     bind (ensure (sender \<noteq> beneficiary) (FeeManagerErr CannotChangeWithinBlock)) (\<lambda>_.
     bind (query (\<lambda>_. validate_usd_currency token)) (\<lambda>_.
     bind (on_fees (modify (\<lambda>f. f\<lparr>validator_tokens := (validator_tokens f)(sender := token)\<rparr>))) (\<lambda>_.
     on_fees (emit_fee (ValidatorTokenSet sender token)))))))"

definition set_user_token :: "address \<Rightarrow> address \<Rightarrow> (chain, unit) op" where
  "set_user_token sender token =
     bind (gets (is_tip20 token)) (\<lambda>ok.
     bind (ensure ok (FeeManagerErr FeeInvalidToken)) (\<lambda>_.
     bind (query (\<lambda>_. validate_usd_currency token)) (\<lambda>_.
     bind (ask spec) (\<lambda>h.
     bind (gets (\<lambda>c. user_tokens (fees c) sender)) (\<lambda>current.
     if is_t3 h \<and> current = token then ret ()
     else
       bind (on_fees (modify (\<lambda>f. f\<lparr>user_tokens := (user_tokens f)(sender := token)\<rparr>))) (\<lambda>_.
       on_fees (emit_fee (UserTokenSet sender token))))))))"

section \<open>Fee collection\<close>

type_synonym pool_data = "(address \<times> address) \<times> u128"

definition plan_fee_route ::
  "address \<Rightarrow> address \<Rightarrow> u256 \<Rightarrow> env \<Rightarrow> chain \<Rightarrow>
   tempo_error + fee_route option \<times> address option \<times> pool_data list" where
  "plan_fee_route user_token validator_token max_amount e c =
     (if user_token = validator_token then Inr (Some SameToken, None, [])
      else
        rbind (compute_amount_out max_amount) (\<lambda>amount_out.
        let pool_of = (\<lambda>u v. get_pool e u v (fees c));
            datum = (\<lambda>u v. ((u, v), reserve_validator_token (pool_of u v)));
            data = [datum user_token validator_token] in
        if has_enough_reserve_validator_token (pool_of user_token validator_token) amount_out
        then Inr (Some Direct, None, data)
        else if \<not> is_t5 (spec e) then Inr (None, None, data)
        else
          rbind (from_address user_token) (\<lambda>_.
          let mid_token = quote_token (tokens c user_token) in
          if mid_token = ADDRESS_ZERO \<or> mid_token = validator_token then Inr (None, Some mid_token, data)
          else
            let data1 = data @ [datum user_token mid_token] in
            if \<not> has_enough_reserve_validator_token (pool_of user_token mid_token) amount_out
            then Inr (None, Some mid_token, data1)
            else
              rbind (compute_amount_out amount_out) (\<lambda>amount_out2.
              let data2 = data1 @ [datum mid_token validator_token] in
              if \<not> has_enough_reserve_validator_token (pool_of mid_token validator_token) amount_out2
              then Inr (None, Some mid_token, data2)
              else Inr (Some (TwoHop mid_token), Some mid_token, data2)))))"

definition collect_fee_pre_tx :: "address \<Rightarrow> address \<Rightarrow> u256 \<Rightarrow> address \<Rightarrow> bool \<Rightarrow> (chain, address) op" where
  "collect_fee_pre_tx fee_payer user_token max_amount beneficiary skip_liquidity_check =
     bind (gets (\<lambda>c. get_validator_token beneficiary (fees c))) (\<lambda>validator_token.
     bind (query (\<lambda>_ _. from_address user_token)) (\<lambda>_.
     bind (query (\<lambda>e c. if is_t8 (spec e)
                          then ensure_authorized_as user_token [(fee_payer, auth_sender (spec e))] e c
                          else ensure_transfer_authorized user_token fee_payer TIP_FEE_MANAGER_ADDRESS e c)) (\<lambda>_.
     bind (transfer_fee_pre_tx user_token fee_payer max_amount) (\<lambda>_.
     bind (whenM (\<not> skip_liquidity_check)
       (bind (query (plan_fee_route user_token validator_token max_amount)) (\<lambda>(route, _).
        bind (ok_or route (FeeAMMErr InsufficientLiquidity)) (\<lambda>rt.
        on_fees (reserve_fee_liquidity user_token validator_token max_amount rt))))) (\<lambda>_.
     ret user_token)))))"

definition collect_fee_post_tx :: "address \<Rightarrow> u256 \<Rightarrow> u256 \<Rightarrow> address \<Rightarrow> address \<Rightarrow> (chain, u256) op" where
  "collect_fee_post_tx fee_payer actual_spending refund_amount fee_token beneficiary =
     bind (query (\<lambda>_ _. from_address fee_token)) (\<lambda>_.
     bind (transfer_fee_post_tx fee_token fee_payer refund_amount actual_spending) (\<lambda>_.
     bind (gets (\<lambda>c. get_validator_token beneficiary (fees c))) (\<lambda>validator_token.
     bind (on_fees (swap_collected_fee fee_token validator_token actual_spending)) (\<lambda>amount.
     bind (on_fees (increment_collected_fees beneficiary validator_token amount)) (\<lambda>_.
     ret amount)))))"

definition distribute_fees :: "address \<Rightarrow> address \<Rightarrow> (chain, unit) op" where
  "distribute_fees validator token =
     bind (gets (\<lambda>c. collected_fees (fees c) validator token)) (\<lambda>amount.
     if amount = 0 then ret ()
     else
       bind (on_fees (modify (\<lambda>f. f\<lparr>collected_fees :=
               (collected_fees f)(validator := (collected_fees f validator)(token := 0))\<rparr>))) (\<lambda>_.
       bind (query (\<lambda>_ _. from_address token)) (\<lambda>_.
       bind (transfer token TIP_FEE_MANAGER_ADDRESS validator amount) (\<lambda>_.
       on_fees (emit_fee (FeesDistributed validator token amount))))))"

section \<open>AMM\<close>

definition rebalance_amount_in :: "u256 \<Rightarrow> u256 option" where
  "rebalance_amount_in amount_out =
     (case checked_mul amount_out N of None \<Rightarrow> None
      | Some product \<Rightarrow> (case checked_div product SCALE of None \<Rightarrow> None
      | Some result \<Rightarrow> checked_add result 1))"

definition rebalance_swap :: "address \<Rightarrow> address \<Rightarrow> address \<Rightarrow> u256 \<Rightarrow> address \<Rightarrow> (chain, u256) op" where
  "rebalance_swap msg_sender user_token validator_token amount_out to =
     bind (ensure (amount_out \<noteq> 0) (FeeAMMErr AmmInvalidAmount)) (\<lambda>_.
     bind (ask id) (\<lambda>e.
     let i = pool_id e user_token validator_token in
     bind (gets (\<lambda>c. pools (fees c) i)) (\<lambda>pl.
     bind (ok_or (rebalance_amount_in amount_out) under_overflow) (\<lambda>amount_in.
     bind (ok_or (try_into amount_in) (FeeAMMErr AmmInvalidAmount)) (\<lambda>amount_in128.
     bind (ok_or (try_into amount_out) (FeeAMMErr AmmInvalidAmount)) (\<lambda>amount_out128.
     bind (ok_or (checked_add (reserve_validator_token pl) amount_in128) (FeeAMMErr InsufficientReserves)) (\<lambda>v.
     bind (ok_or (checked_sub (reserve_user_token pl) amount_out128) (FeeAMMErr AmmInvalidAmount)) (\<lambda>u.
     bind (gets (\<lambda>c. pending_fee_swap_reservation (fees c) i)) (\<lambda>reserved.
     bind (ensure (\<not> (is_t1c (spec e) \<and> v < reserved)) (FeeAMMErr InsufficientLiquidity)) (\<lambda>_.
     bind (on_fees (set_pool i (pl\<lparr>reserve_validator_token := v, reserve_user_token := u\<rparr>))) (\<lambda>_.
     bind (query (\<lambda>_ _. from_address validator_token)) (\<lambda>_.
     bind (system_transfer_from validator_token TIP_FEE_MANAGER_ADDRESS msg_sender (ucast amount_in128)) (\<lambda>_.
     bind (query (\<lambda>_ _. from_address user_token)) (\<lambda>_.
     bind (transfer user_token TIP_FEE_MANAGER_ADDRESS to (ucast amount_out128)) (\<lambda>_.
     bind (on_fees (emit_amm (RebalanceSwap user_token validator_token msg_sender
             (ucast amount_in128) (ucast amount_out128)))) (\<lambda>_.
     ret (ucast amount_in128)))))))))))))))))"

text \<open>
  The liquidity minted for a deposit, with the LP supply it is added to: on the first deposit
  the minimum liquidity is already part of it.
\<close>

definition mint_liquidity :: "pool \<Rightarrow> u256 \<Rightarrow> u256 \<Rightarrow> tempo_error + u256 \<times> u256" where
  "mint_liquidity pl supply amount =
     (if reserve_user_token pl = 0 \<and> reserve_validator_token pl = 0
      then rbind (rok_or (checked_div amount 2) under_overflow) (\<lambda>half_amount.
           rbind (rensure (\<not> half_amount \<le> MIN_LIQUIDITY) (FeeAMMErr InsufficientLiquidity)) (\<lambda>_.
           rbind (rok_or (checked_add supply MIN_LIQUIDITY) under_overflow) (\<lambda>supply'.
           rbind (rok_or (checked_sub half_amount MIN_LIQUIDITY) (FeeAMMErr InsufficientLiquidity)) (\<lambda>liquidity.
           Inr (supply', liquidity)))))
      else
        rbind (rok_or (case checked_mul N (ucast (reserve_user_token pl)) of None \<Rightarrow> None
                       | Some product \<Rightarrow> checked_div product SCALE) (FeeAMMErr InvalidSwapCalculation)) (\<lambda>product.
        rbind (rok_or (checked_add (ucast (reserve_validator_token pl)) product) (FeeAMMErr AmmInvalidAmount)) (\<lambda>denom.
        rbind (rensure (denom \<noteq> 0) (FeeAMMErr DivisionByZero)) (\<lambda>_.
        rbind (rok_or (case checked_mul amount supply of None \<Rightarrow> None
                       | Some numerator \<Rightarrow> checked_div numerator denom) (FeeAMMErr InvalidSwapCalculation)) (\<lambda>liquidity.
        Inr (supply, liquidity))))))"

definition amm_mint :: "address \<Rightarrow> address \<Rightarrow> address \<Rightarrow> u256 \<Rightarrow> address \<Rightarrow> (chain, u256) op" where
  "amm_mint msg_sender user_token validator_token amount_validator_token to =
     bind (ensure (user_token \<noteq> validator_token) (FeeAMMErr IdenticalAddresses)) (\<lambda>_.
     bind (ensure (amount_validator_token \<noteq> 0) (FeeAMMErr AmmInvalidAmount)) (\<lambda>_.
     bind (query (\<lambda>_. validate_usd_currency user_token)) (\<lambda>_.
     bind (query (\<lambda>_. validate_usd_currency validator_token)) (\<lambda>_.
     bind (query (\<lambda>_ _. from_address user_token)) (\<lambda>_.
     bind (query (\<lambda>_ _. from_address validator_token)) (\<lambda>_.
     bind (ask id) (\<lambda>e.
     bind (whenM (is_t8 (spec e))
       (bind (query (ensure_authorized_as user_token
          [(msg_sender, auth_sender (spec e)), (TIP_FEE_MANAGER_ADDRESS, auth_recipient (spec e)),
           (to, auth_recipient (spec e))])) (\<lambda>_.
        query (ensure_authorized_as validator_token [(to, auth_recipient (spec e))])))) (\<lambda>_.
     let i = pool_id e user_token validator_token in
     bind (gets (\<lambda>c. pools (fees c) i)) (\<lambda>pl.
     bind (query (\<lambda>_ c. mint_liquidity pl (lp_supply (fees c) i) amount_validator_token)) (\<lambda>(supply, liquidity).
     bind (on_fees (set_lp_supply i supply)) (\<lambda>_.
     bind (ensure (liquidity \<noteq> 0) (FeeAMMErr InsufficientLiquidity)) (\<lambda>_.
     bind (system_transfer_from validator_token TIP_FEE_MANAGER_ADDRESS msg_sender amount_validator_token) (\<lambda>_.
     bind (ok_or (try_into amount_validator_token) (FeeAMMErr AmmInvalidAmount)) (\<lambda>validator_amount.
     bind (ok_or (checked_add (reserve_validator_token pl) validator_amount) (FeeAMMErr AmmInvalidAmount)) (\<lambda>v.
     bind (on_fees (set_pool i (pl\<lparr>reserve_validator_token := v\<rparr>))) (\<lambda>_.
     bind (ok_or (checked_add supply liquidity) under_overflow) (\<lambda>new_supply.
     bind (on_fees (set_lp_supply i new_supply)) (\<lambda>_.
     bind (gets (\<lambda>c. liquidity_balances (fees c) i to)) (\<lambda>balance.
     bind (ok_or (checked_add balance liquidity) under_overflow) (\<lambda>new_balance.
     bind (on_fees (set_liquidity_balances i to new_balance)) (\<lambda>_.
     bind (on_fees (emit_amm (AmmMint msg_sender to user_token validator_token amount_validator_token liquidity))) (\<lambda>_.
     ret liquidity))))))))))))))))))))))"

definition amm_burn :: "address \<Rightarrow> address \<Rightarrow> address \<Rightarrow> u256 \<Rightarrow> address \<Rightarrow> (chain, u256 \<times> u256) op" where
  "amm_burn msg_sender user_token validator_token liquidity to =
     bind (ensure (user_token \<noteq> validator_token) (FeeAMMErr IdenticalAddresses)) (\<lambda>_.
     bind (ensure (liquidity \<noteq> 0) (FeeAMMErr AmmInvalidAmount)) (\<lambda>_.
     bind (query (\<lambda>_. validate_usd_currency user_token)) (\<lambda>_.
     bind (query (\<lambda>_. validate_usd_currency validator_token)) (\<lambda>_.
     bind (query (\<lambda>_ _. from_address user_token)) (\<lambda>_.
     bind (query (\<lambda>_ _. from_address validator_token)) (\<lambda>_.
     bind (ask id) (\<lambda>e.
     bind (whenM (is_t8 (spec e))
       (bind (query (ensure_authorized_as user_token [(msg_sender, auth_sender (spec e))])) (\<lambda>_.
        query (ensure_authorized_as validator_token [(msg_sender, auth_sender (spec e))])))) (\<lambda>_.
     let i = pool_id e user_token validator_token in
     bind (gets (\<lambda>c. liquidity_balances (fees c) i msg_sender)) (\<lambda>balance.
     bind (ensure (\<not> balance < liquidity) (FeeAMMErr InsufficientLiquidity)) (\<lambda>_.
     bind (gets (\<lambda>c. pools (fees c) i)) (\<lambda>pl.
     bind (query (\<lambda>e c. calculate_burn_amounts pl i liquidity e (fees c))) (\<lambda>(amount_user, amount_validator).
     bind (ok_or (try_into amount_validator) (FeeAMMErr AmmInvalidAmount)) (\<lambda>validator_amount.
     bind (ok_or (checked_sub (reserve_validator_token pl) validator_amount) (FeeAMMErr InsufficientReserves)) (\<lambda>available.
     bind (gets (\<lambda>c. pending_fee_swap_reservation (fees c) i)) (\<lambda>reserved.
     bind (ensure (\<not> (is_t1c (spec e) \<and> available < reserved)) (FeeAMMErr InsufficientLiquidity)) (\<lambda>_.
     bind (ok_or (checked_sub balance liquidity) under_overflow) (\<lambda>new_balance.
     bind (on_fees (set_liquidity_balances i msg_sender new_balance)) (\<lambda>_.
     bind (gets (\<lambda>c. lp_supply (fees c) i)) (\<lambda>supply.
     bind (ok_or (checked_sub supply liquidity) under_overflow) (\<lambda>new_supply.
     bind (on_fees (set_lp_supply i new_supply)) (\<lambda>_.
     bind (ok_or (try_into amount_user) (FeeAMMErr AmmInvalidAmount)) (\<lambda>user_amount.
     bind (ok_or (checked_sub (reserve_user_token pl) user_amount) (FeeAMMErr InsufficientReserves)) (\<lambda>u.
     bind (on_fees (set_pool i (pl\<lparr>reserve_user_token := u, reserve_validator_token := available\<rparr>))) (\<lambda>_.
     bind (transfer user_token TIP_FEE_MANAGER_ADDRESS to amount_user) (\<lambda>_.
     bind (transfer validator_token TIP_FEE_MANAGER_ADDRESS to amount_validator) (\<lambda>_.
     bind (on_fees (emit_amm (AmmBurn msg_sender user_token validator_token amount_user amount_validator liquidity to))) (\<lambda>_.
     ret (amount_user, amount_validator))))))))))))))))))))))))))))"

end
