(* ===== verification/Tempo_Bytes.thy ===== *)
theory Tempo_Bytes
  imports Tempo_Types
begin

text \<open>
  Big-endian byte strings: the number a byte string stands for, the word it decodes to, and that
  decoding and \<open>be_bytes\<close> are inverse to each other at the width of the word.
\<close>

definition be_nat :: "u8 list \<Rightarrow> nat" where
  "be_nat bs = fold (\<lambda>b n. n * 256 + unat b) bs 0"

definition from_be :: "u8 list \<Rightarrow> 'a::len word" where
  "from_be bs = of_nat (be_nat bs)"

lemma be_bytes_Suc: "be_bytes (Suc n) w = be_bytes n (drop_bit 8 w) @ [ucast w]"
proof -
  have "8 * (Suc n - 1 - i) = 8 * (n - 1 - i) + 8" if "i < n" for i using that by simp
  then show ?thesis by (simp add: be_bytes_def add.commute)
qed

lemma be_nat_be_bytes: "be_nat (be_bytes n w) = unat w mod 256 ^ n" for w :: "'a::len word"
proof (induction n arbitrary: w)
  case 0
  show ?case by (simp add: be_nat_def be_bytes_def)
next
  case (Suc n)
  have "unat (ucast w :: u8) = unat w mod 256" by (simp add: unsigned_ucast_eq take_bit_eq_mod)
  moreover have "unat (drop_bit 8 w) = drop_bit 8 (unat w)"
    by (simp add: unsigned_drop_bit_eq take_bit_nat_eq_self[OF unat_bound])
  then have "unat (drop_bit 8 w) = unat w div 256" by (simp add: drop_bit_eq_div)
  ultimately have "be_nat (be_bytes (Suc n) w) = (unat w div 256 mod 256 ^ n) * 256 + unat w mod 256"
    using Suc[of "drop_bit 8 w"] by (simp add: be_bytes_Suc be_nat_def)
  also have "\<dots> = unat w mod 256 ^ Suc n" using mod_mult2_eq[of "unat w" 256 "256 ^ n"] by (simp add: mult.commute)
  finally show ?case .
qed

lemma from_be_be_bytes:
  fixes w :: "'a::len word"
  assumes "LENGTH('a) \<le> 8 * n"
  shows "from_be (be_bytes n w) = w"
proof -
  have "(2 :: nat) ^ LENGTH('a) \<le> 2 ^ (8 * n)" using assms by (rule power_increasing) simp
  then have "unat w < 256 ^ n" using less_le_trans[OF unat_bound[of w]] by (simp add: power_mult)
  then show ?thesis by (simp add: from_be_def be_nat_be_bytes)
qed

lemma from_be_words [simp]: "from_be (be_bytes 32 w) = w" "from_be (be_bytes 20 a) = a" for w :: u256 and a :: address
  by (simp_all add: from_be_be_bytes)

lemma be_nat_append: "be_nat (bs @ [b]) = be_nat bs * 256 + unat b"
  by (simp add: be_nat_def)

lemma be_nat_less: "be_nat bs < 256 ^ length bs"
proof (induction bs rule: rev_induct)
  case (snoc b bs)
  have "unat b < 256" using unat_bound[of b] by simp
  with snoc have "be_nat bs * 256 + unat b < (be_nat bs + 1) * 256" by simp
  also have "\<dots> \<le> 256 ^ length bs * 256" using snoc by (intro mult_right_mono) simp_all
  finally show ?case by (simp add: be_nat_append mult.commute)
qed (simp add: be_nat_def)

lemma be_nat_inject: "length bs = length cs \<Longrightarrow> be_nat bs = be_nat cs \<Longrightarrow> bs = cs"
proof (induction bs arbitrary: cs rule: rev_induct)
  case (snoc b bs)
  then obtain cs' c where cs: "cs = cs' @ [c]" by (cases cs rule: rev_cases) auto
  have small: "unat b < 256" "unat c < 256" using unat_bound[of b] unat_bound[of c] by simp_all
  from snoc(3) have eq: "be_nat bs * 256 + unat b = be_nat cs' * 256 + unat c" by (simp add: cs be_nat_append)
  from arg_cong[OF eq, of "\<lambda>n. n div 256"] small have "be_nat bs = be_nat cs'" by simp
  moreover from this eq have "unat b = unat c" by simp
  ultimately show ?case using snoc(1)[of cs'] snoc(2) by (simp add: cs word_unat_eq_iff)
qed simp

lemma be_bytes_from_be:
  assumes "length bs = n" and "8 * n \<le> LENGTH('a)"
  shows "be_bytes n (from_be bs :: 'a::len word) = bs"
proof (rule be_nat_inject)
  have "be_nat bs < 2 ^ (8 * n)" using be_nat_less[of bs] assms(1) by (simp add: power_mult)
  also have "\<dots> \<le> 2 ^ LENGTH('a)" using assms(2) by (rule power_increasing) simp
  finally have "unat (from_be bs :: 'a word) = be_nat bs" by (simp add: from_be_def unat_of_nat_small)
  then show "be_nat (be_bytes n (from_be bs :: 'a word)) = be_nat bs"
    using be_nat_less[of bs] assms(1) by (simp add: be_nat_be_bytes)
qed (simp add: assms(1))

lemma be_nat_abi: "be_nat (abi_word w) = unat w" "be_nat (abi_address a) = unat a"
proof -
  have "unat w < 256 ^ 32" for w :: u256 using unat_bound[of w] by simp
  then show "be_nat (abi_word w) = unat w" for w by (simp add: abi_word_def be_nat_be_bytes)
  then show "be_nat (abi_address a) = unat a" by (simp add: abi_address_def unat_ucast_up)
qed

end
