(* ===== verification/Tempo_Signatures.thy ===== *)
theory Tempo_Signatures
  imports Account_Keychain Tempo_Bytes
begin

text \<open>
  Signatures of transactions and vouchers (\<open>primitives/src/transaction/tt_signature.rs\<close>, with the
  secp256k1 signature type of \<open>alloy-core\<close>) and the signature verifier precompile
  (\<open>precompiles/src/signature_verifier\<close>): the byte formats, the recovery of the signer for each
  scheme, and keychain signatures that sign for another account. The cryptographic primitives,
  the JSON parser and the base64 encoder are fields of the environment.
\<close>

unbundle bit_operations_syntax

section \<open>Data\<close>

definition SECP256K1_SIGNATURE_LENGTH :: nat where "SECP256K1_SIGNATURE_LENGTH = 65"
definition P256_SIGNATURE_LENGTH :: nat where "P256_SIGNATURE_LENGTH = 129"
definition MAX_WEBAUTHN_SIGNATURE_LENGTH :: nat where "MAX_WEBAUTHN_SIGNATURE_LENGTH = 2048"

definition P256_ORDER :: u256 where
  "P256_ORDER = 0xFFFFFFFF00000000FFFFFFFFFFFFFFFFBCE6FAADA7179E84F3B9CAC2FC632551"

definition P256N_HALF :: u256 where
  "P256N_HALF = 0x7FFFFFFF800000007FFFFFFFFFFFFFFFDE737D56D38BCF4279DCE5617E3192A8"

definition SECP256K1N_HALF :: u256 where
  "SECP256K1N_HALF = 0x7FFFFFFFFFFFFFFFFFFFFFFFFFFFFFFF5D576E7357A4501DDFE92F46681B20A0"

definition SIGNATURE_TYPE_P256 :: u8 where "SIGNATURE_TYPE_P256 = 0x01"
definition SIGNATURE_TYPE_WEBAUTHN :: u8 where "SIGNATURE_TYPE_WEBAUTHN = 0x02"
definition SIGNATURE_TYPE_KEYCHAIN :: u8 where "SIGNATURE_TYPE_KEYCHAIN = 0x03"
definition SIGNATURE_TYPE_KEYCHAIN_V2 :: u8 where "SIGNATURE_TYPE_KEYCHAIN_V2 = 0x04"

definition MIN_AUTH_DATA_LEN :: nat where "MIN_AUTH_DATA_LEN = 37"

definition UP :: u8 where "UP = 0x01"
definition UV :: u8 where "UV = 0x04"
definition AT :: u8 where "AT = 0x40"
definition ED :: u8 where "ED = 0x80"

record secp_signature =
  secp_r :: u256
  secp_s :: u256
  y_parity :: bool

record p256_signature =
  p256_r :: b256
  p256_s :: b256
  p256_x :: b256
  p256_y :: b256
  pre_hash :: bool

record webauthn_signature =
  wa_r :: b256
  wa_s :: b256
  wa_x :: b256
  wa_y :: b256
  webauthn_data :: "u8 list"

datatype primitive_signature =
    Secp256k1Sig secp_signature
  | P256Sig p256_signature
  | WebAuthnSig webauthn_signature

datatype keychain_version = V1 | V2

text \<open>\<open>cached_key_id\<close> holds the access key once it has been recovered.\<close>

record keychain_signature =
  user_address :: address
  inner_signature :: primitive_signature
  version :: keychain_version
  cached_key_id :: "address option"

datatype tempo_signature = Primitive primitive_signature | Keychain keychain_signature

datatype keychain_version_error = LegacyPostT1C | V2BeforeActivation

section \<open>Byte formats\<close>

definition is_valid_v :: "u64 \<Rightarrow> bool" where
  "is_valid_v v \<longleftrightarrow> v = 0 \<or> v = 1 \<or> v = 27 \<or> v = 28 \<or> 35 \<le> v"

definition normalize_v :: "u64 \<Rightarrow> bool option" where
  "normalize_v v =
     (if \<not> is_valid_v v then None
      else let cmp = (if v \<le> 1 then 1 else 0) in Some (v mod 2 = cmp))"

definition from_bytes_and_parity :: "u8 list \<Rightarrow> bool \<Rightarrow> secp_signature" where
  "from_bytes_and_parity bytes parity =
     \<lparr>secp_r = from_be (take 32 bytes), secp_s = from_be (drop 32 (take 64 bytes)), y_parity = parity\<rparr>"

definition from_raw :: "u8 list \<Rightarrow> secp_signature option" where
  "from_raw bytes =
     (if length bytes \<noteq> 65 then None
      else case normalize_v (ucast (bytes ! 64)) of
             None \<Rightarrow> None
           | Some parity \<Rightarrow> Some (from_bytes_and_parity (take 64 bytes) parity))"

definition v_byte :: "secp_signature \<Rightarrow> u8" where
  "v_byte sig = 27 + (if y_parity sig then 1 else 0)"

definition as_bytes :: "secp_signature \<Rightarrow> u8 list" where
  "as_bytes sig = be_bytes 32 (secp_r sig) @ be_bytes 32 (secp_s sig) @ [v_byte sig]"

definition split_p256_signature_fields :: "u8 list \<Rightarrow> p256_signature" where
  "split_p256_signature_fields d =
     \<lparr>p256_r = from_be (take 32 d), p256_s = from_be (take 32 (drop 32 d)), p256_x = from_be (take 32 (drop 64 d)),
      p256_y = from_be (take 32 (drop 96 d)), pre_hash = (d ! 128 \<noteq> 0)\<rparr>"

definition primitive_from_bytes :: "u8 list \<Rightarrow> string + primitive_signature" where
  "primitive_from_bytes data =
     (if data = [] then Inl ''Signature data is empty''
      else if length data = SECP256K1_SIGNATURE_LENGTH then
        (case from_raw data of
           None \<Rightarrow> Inl ''Failed to parse secp256k1 signature: invalid signature values''
         | Some sig \<Rightarrow> Inr (Secp256k1Sig sig))
      else if length data < 2 then Inl ''Signature data too short: expected type identifier + signature data''
      else let type_id = hd data; sig_data = tl data; len = length sig_data in
        if type_id = SIGNATURE_TYPE_P256 then
          (if len \<noteq> P256_SIGNATURE_LENGTH then Inl ''Invalid P256 signature length''
           else Inr (P256Sig (split_p256_signature_fields sig_data)))
        else if type_id = SIGNATURE_TYPE_WEBAUTHN then
          (if \<not> (128 \<le> len \<and> len \<le> MAX_WEBAUTHN_SIGNATURE_LENGTH) then Inl ''Invalid WebAuthn signature length''
           else let fields = drop (len - 128) sig_data in
             Inr (WebAuthnSig \<lparr>wa_r = from_be (take 32 fields), wa_s = from_be (take 32 (drop 32 fields)),
               wa_x = from_be (take 32 (drop 64 fields)), wa_y = from_be (drop 96 fields),
               webauthn_data = take (len - 128) sig_data\<rparr>))
        else Inl ''Unknown signature type identifier'')"

fun primitive_to_bytes :: "primitive_signature \<Rightarrow> u8 list" where
  "primitive_to_bytes (Secp256k1Sig sig) = as_bytes sig"
| "primitive_to_bytes (P256Sig sig) =
     [SIGNATURE_TYPE_P256] @ be_bytes 32 (p256_r sig) @ be_bytes 32 (p256_s sig) @ be_bytes 32 (p256_x sig) @
     be_bytes 32 (p256_y sig) @ [if pre_hash sig then 1 else 0]"
| "primitive_to_bytes (WebAuthnSig sig) =
     [SIGNATURE_TYPE_WEBAUTHN] @ webauthn_data sig @ be_bytes 32 (wa_r sig) @ be_bytes 32 (wa_s sig) @
     be_bytes 32 (wa_x sig) @ be_bytes 32 (wa_y sig)"

fun primitive_encoded_length :: "primitive_signature \<Rightarrow> nat" where
  "primitive_encoded_length (Secp256k1Sig _) = SECP256K1_SIGNATURE_LENGTH"
| "primitive_encoded_length (P256Sig _) = 1 + P256_SIGNATURE_LENGTH"
| "primitive_encoded_length (WebAuthnSig sig) = 1 + length (webauthn_data sig) + 128"

fun primitive_signature_type :: "primitive_signature \<Rightarrow> signature_type" where
  "primitive_signature_type (Secp256k1Sig _) = Secp256k1"
| "primitive_signature_type (P256Sig _) = P256"
| "primitive_signature_type (WebAuthnSig _) = WebAuthn"

definition tempo_from_bytes :: "u8 list \<Rightarrow> string + tempo_signature" where
  "tempo_from_bytes data =
     (if data = [] then Inl ''Signature data is empty''
      else if length data > 1 \<and> length data \<noteq> SECP256K1_SIGNATURE_LENGTH \<and>
              (data ! 0 = SIGNATURE_TYPE_KEYCHAIN \<or> data ! 0 = SIGNATURE_TYPE_KEYCHAIN_V2) then
        (let vers = (if data ! 0 = SIGNATURE_TYPE_KEYCHAIN then V1 else V2);
             sig_data = drop 1 data in
         if length sig_data < 20 then Inl ''Invalid Keychain signature: too short for user_address''
         else rbind (primitive_from_bytes (drop 20 sig_data)) (\<lambda>inner.
              Inr (Keychain \<lparr>user_address = from_be (take 20 sig_data), inner_signature = inner, version = vers,
                cached_key_id = None\<rparr>)))
      else rbind (primitive_from_bytes data) (\<lambda>primitive. Inr (Primitive primitive)))"

fun tempo_to_bytes :: "tempo_signature \<Rightarrow> u8 list" where
  "tempo_to_bytes (Primitive sig) = primitive_to_bytes sig"
| "tempo_to_bytes (Keychain sig) =
     [case version sig of V1 \<Rightarrow> SIGNATURE_TYPE_KEYCHAIN | V2 \<Rightarrow> SIGNATURE_TYPE_KEYCHAIN_V2] @
     be_bytes 20 (user_address sig) @ primitive_to_bytes (inner_signature sig)"

fun tempo_encoded_length :: "tempo_signature \<Rightarrow> nat" where
  "tempo_encoded_length (Primitive sig) = primitive_encoded_length sig"
| "tempo_encoded_length (Keychain sig) = 1 + 20 + primitive_encoded_length (inner_signature sig)"

fun tempo_signature_type :: "tempo_signature \<Rightarrow> signature_type" where
  "tempo_signature_type (Primitive sig) = primitive_signature_type sig"
| "tempo_signature_type (Keychain sig) = primitive_signature_type (inner_signature sig)"

section \<open>Recovering the signer\<close>

text \<open>
  Before signing, the scalar \<open>s\<close> is brought into the lower half of the group order
  (\<open>normalize_p256_s\<close>); verification refuses the upper half.
\<close>

definition normalize_p256_s :: "u8 list \<Rightarrow> string + b256" where
  "normalize_p256_s s_bytes =
     (let s = from_be s_bytes in
      if s = 0 \<or> s \<ge> P256_ORDER then Inl ''P256 s value out of range''
      else Inr (if s > P256N_HALF then P256_ORDER - s else s))"

definition secp256k1_recover_signer :: "env \<Rightarrow> secp_signature \<Rightarrow> b256 \<Rightarrow> address option" where
  "secp256k1_recover_signer e sig hash =
     (if secp_s sig > SECP256K1N_HALF then None
      else ecrecover e hash (y_parity sig) (secp_r sig) (secp_s sig))"

definition derive_p256_address :: "env \<Rightarrow> b256 \<Rightarrow> b256 \<Rightarrow> address" where
  "derive_p256_address e pub_key_x pub_key_y = ucast (keccak256 e (be_bytes 32 pub_key_x @ be_bytes 32 pub_key_y))"

definition verify_p256_signature_internal :: "env \<Rightarrow> b256 \<Rightarrow> b256 \<Rightarrow> b256 \<Rightarrow> b256 \<Rightarrow> b256 \<Rightarrow> string + unit" where
  "verify_p256_signature_internal e r s pub_key_x pub_key_y message_hash =
     (if s > P256N_HALF then Inl ''P256 signature has high s value''
      else rensure (p256_verify e r s pub_key_x pub_key_y message_hash) ''P256 signature verification failed'')"

definition verify_webauthn_data_internal :: "env \<Rightarrow> u8 list \<Rightarrow> b256 \<Rightarrow> string + b256" where
  "verify_webauthn_data_internal e data tx_hash =
     (if length data < MIN_AUTH_DATA_LEN + 32 then Inl ''WebAuthn data too short''
      else let flags = data ! 32 in
        if flags AND UP = 0 \<and> flags AND UV = 0 then Inl ''neither UP, nor UV flag set''
        else if flags AND AT \<noteq> 0 then Inl ''AT flag must not be set for assertion signatures''
        else if flags AND ED \<noteq> 0 then Inl ''ED flag must not be set, as Tempo doesn't support extensions''
        else let authenticator_data = take MIN_AUTH_DATA_LEN data; client_data = drop MIN_AUTH_DATA_LEN data in
          (case client_data_json e client_data of
             None \<Rightarrow> Inl ''clientDataJSON is not valid JSON''
           | Some (type_field, challenge) \<Rightarrow>
               if type_field \<noteq> ''webauthn.get'' then Inl ''clientDataJSON type must be webauthn.get''
               else if challenge \<noteq> base64url e (be_bytes 32 tx_hash)
                    then Inl ''clientDataJSON challenge does not match transaction hash''
               else Inr (sha256 e (authenticator_data @ be_bytes 32 (sha256 e client_data)))))"

fun primitive_recover_signer :: "env \<Rightarrow> primitive_signature \<Rightarrow> b256 \<Rightarrow> address option" where
  "primitive_recover_signer e (Secp256k1Sig sig) sig_hash = secp256k1_recover_signer e sig sig_hash"
| "primitive_recover_signer e (P256Sig sig) sig_hash =
     (let message_hash = (if pre_hash sig then sha256 e (be_bytes 32 sig_hash) else sig_hash) in
      case verify_p256_signature_internal e (p256_r sig) (p256_s sig) (p256_x sig) (p256_y sig) message_hash of
        Inl _ \<Rightarrow> None
      | Inr _ \<Rightarrow> Some (derive_p256_address e (p256_x sig) (p256_y sig)))"
| "primitive_recover_signer e (WebAuthnSig sig) sig_hash =
     (case verify_webauthn_data_internal e (webauthn_data sig) sig_hash of
        Inl _ \<Rightarrow> None
      | Inr message_hash \<Rightarrow>
          (case verify_p256_signature_internal e (wa_r sig) (wa_s sig) (wa_x sig) (wa_y sig) message_hash of
             Inl _ \<Rightarrow> None
           | Inr _ \<Rightarrow> Some (derive_p256_address e (wa_x sig) (wa_y sig))))"

definition signing_hash :: "env \<Rightarrow> b256 \<Rightarrow> address \<Rightarrow> b256" where
  "signing_hash e sig_hash user = keccak256 e ([SIGNATURE_TYPE_KEYCHAIN_V2] @ be_bytes 32 sig_hash @ be_bytes 20 user)"

definition effective_sig_hash :: "env \<Rightarrow> keychain_signature \<Rightarrow> b256 \<Rightarrow> b256" where
  "effective_sig_hash e sig sig_hash =
     (case version sig of V1 \<Rightarrow> sig_hash | V2 \<Rightarrow> signing_hash e sig_hash (user_address sig))"

text \<open>\<open>key_id\<close> also returns the signature with its cache, which the code sets on the first success.\<close>

definition key_id :: "env \<Rightarrow> keychain_signature \<Rightarrow> b256 \<Rightarrow> address option \<times> keychain_signature" where
  "key_id e sig sig_hash =
     (case cached_key_id sig of
        Some cached \<Rightarrow> (Some cached, sig)
      | None \<Rightarrow>
          (case primitive_recover_signer e (inner_signature sig) (effective_sig_hash e sig sig_hash) of
             None \<Rightarrow> (None, sig)
           | Some k \<Rightarrow> (Some k, sig\<lparr>cached_key_id := Some k\<rparr>)))"

fun tempo_recover_signer :: "env \<Rightarrow> tempo_signature \<Rightarrow> b256 \<Rightarrow> address option \<times> tempo_signature" where
  "tempo_recover_signer e (Primitive sig) sig_hash = (primitive_recover_signer e sig sig_hash, Primitive sig)"
| "tempo_recover_signer e (Keychain sig) sig_hash =
     (case key_id e sig sig_hash of
        (None, sig') \<Rightarrow> (None, Keychain sig')
      | (Some _, sig') \<Rightarrow> (Some (user_address sig'), Keychain sig'))"

definition is_legacy :: "keychain_signature \<Rightarrow> bool" where
  "is_legacy sig \<longleftrightarrow> version sig = V1"

fun is_legacy_keychain :: "tempo_signature \<Rightarrow> bool" where
  "is_legacy_keychain (Keychain k) = is_legacy k"
| "is_legacy_keychain (Primitive _) = False"

fun is_v2_keychain :: "tempo_signature \<Rightarrow> bool" where
  "is_v2_keychain (Keychain k) = (version k = V2)"
| "is_v2_keychain (Primitive _) = False"

definition validate_version :: "tempo_signature \<Rightarrow> bool \<Rightarrow> keychain_version_error + unit" where
  "validate_version sig t1c =
     (if t1c \<and> is_legacy_keychain sig then Inl LegacyPostT1C
      else if \<not> t1c \<and> is_v2_keychain sig then Inl V2BeforeActivation
      else Inr ())"

section \<open>The signature verifier precompile\<close>

definition verifier_recover :: "env \<Rightarrow> b256 \<Rightarrow> u8 list \<Rightarrow> tempo_error + address" where
  "verifier_recover e hash signature =
     (case primitive_from_bytes signature of
        Inl _ \<Rightarrow> Inl (SignatureVerifierErr InvalidFormat)
      | Inr sig \<Rightarrow> rok_or (primitive_recover_signer e sig hash) (SignatureVerifierErr VerifierInvalidSignature))"

definition recover_keychain_key :: "env \<Rightarrow> b256 \<Rightarrow> u8 list \<Rightarrow> tempo_error + address \<times> address" where
  "recover_keychain_key e hash signature =
     (case tempo_from_bytes signature of
        Inr (Keychain sig) \<Rightarrow>
          if is_legacy sig then Inl (SignatureVerifierErr InvalidFormat)
          else rbind (verifier_recover e (signing_hash e hash (user_address sig)) (primitive_to_bytes (inner_signature sig)))
                 (\<lambda>k. Inr (user_address sig, k))
      | _ \<Rightarrow> Inl (SignatureVerifierErr InvalidFormat))"

definition verify_keychain :: "address \<Rightarrow> b256 \<Rightarrow> u8 list \<Rightarrow> env \<Rightarrow> account_keychain \<Rightarrow> tempo_error + bool" where
  "verify_keychain account hash signature e s =
     rbind (recover_keychain_key e hash signature) (\<lambda>(embedded_account, k).
     if embedded_account \<noteq> account then Inr False else is_active_key account k e s)"

definition verify_keychain_admin :: "address \<Rightarrow> b256 \<Rightarrow> u8 list \<Rightarrow> env \<Rightarrow> account_keychain \<Rightarrow> tempo_error + bool" where
  "verify_keychain_admin account hash signature e s =
     rbind (recover_keychain_key e hash signature) (\<lambda>(embedded_account, k).
     if embedded_account \<noteq> account then Inr False else is_admin_key account k e s)"

section \<open>Formats\<close>

lemmas signature_lengths = SECP256K1_SIGNATURE_LENGTH_def P256_SIGNATURE_LENGTH_def MAX_WEBAUTHN_SIGNATURE_LENGTH_def

lemmas signature_type_ids = SIGNATURE_TYPE_P256_def SIGNATURE_TYPE_WEBAUTHN_def SIGNATURE_TYPE_KEYCHAIN_def
  SIGNATURE_TYPE_KEYCHAIN_V2_def

fun wf_primitive :: "primitive_signature \<Rightarrow> bool" where
  "wf_primitive (WebAuthnSig sig) \<longleftrightarrow> length (webauthn_data sig) + 128 \<le> MAX_WEBAUTHN_SIGNATURE_LENGTH"
| "wf_primitive _ \<longleftrightarrow> True"

fun wf_signature :: "tempo_signature \<Rightarrow> bool" where
  "wf_signature (Primitive sig) \<longleftrightarrow> wf_primitive sig"
| "wf_signature (Keychain sig) \<longleftrightarrow> wf_primitive (inner_signature sig) \<and> cached_key_id sig = None"

lemma length_primitive_to_bytes: "length (primitive_to_bytes sig) = primitive_encoded_length sig"
  by (cases sig) (simp_all add: as_bytes_def signature_lengths)

lemma normalize_v_byte: "normalize_v (ucast (v_byte sig)) = Some (y_parity sig)"
  by (simp add: v_byte_def normalize_v_def is_valid_v_def word_le_nat_alt)

lemma from_raw_as_bytes: "from_raw (as_bytes sig) = Some sig"
  by (simp add: from_raw_def as_bytes_def nth_append normalize_v_byte from_bytes_and_parity_def)

lemma primitive_roundtrip: "wf_primitive sig \<Longrightarrow> primitive_from_bytes (primitive_to_bytes sig) = Inr sig"
proof (cases sig)
  case (Secp256k1Sig x)
  then show ?thesis
    using length_primitive_to_bytes[of sig] by (auto simp: primitive_from_bytes_def from_raw_as_bytes signature_lengths)
next
  case (P256Sig x)
  then show ?thesis
    by (simp add: primitive_from_bytes_def split_p256_signature_fields_def signature_lengths nth_append)
next
  case (WebAuthnSig x)
  then show ?thesis if "wf_primitive sig"
    using that by (simp add: primitive_from_bytes_def signature_lengths signature_type_ids)
qed

text \<open>Parsing forgets nothing but the last byte of the secp256k1 and P256 formats.\<close>

lemma take_drop_32: "take 32 d @ take 32 (drop 32 d) @ take 32 (drop 64 d) @ take 32 (drop 96 d) = take 128 d"
proof -
  have "take 32 (drop 96 d) = drop 96 (take 128 d)" "take 32 (drop 64 d) = drop 64 (take 96 d)" "take 32 (drop 32 d) = drop 32 (take 64 d)"
    by (simp_all add: drop_take)
  moreover have "take 32 d = take 32 (take 64 d)" "take 64 d = take 64 (take 96 d)" "take 96 d = take 96 (take 128 d)" by (simp_all add: min_def)
  ultimately show ?thesis by (metis append_assoc append_take_drop_id)
qed

lemma be_bytes_field: "length d = 32 \<Longrightarrow> be_bytes 32 (from_be d :: b256) = d"
  by (simp add: be_bytes_from_be)

lemma primitive_parsed:
  assumes parsed: "primitive_from_bytes d = Inr sig"
  shows "wf_primitive sig \<and> primitive_encoded_length sig = length d \<and> butlast (primitive_to_bytes sig) = butlast d"
proof -
  have d: "d \<noteq> []" using parsed by (auto simp: primitive_from_bytes_def)
  have f: "be_bytes 32 (from_be (take 32 (drop k x)) :: b256) = take 32 (drop k x)" if "k + 32 \<le> length x" for k x
    using that by (intro be_bytes_field) simp
  have t: "be_bytes 32 (from_be (take 32 x) :: b256) = take 32 x" if "32 \<le> length x" for x
    using that by (intro be_bytes_field) simp
  consider (secp) "length d = 65" | (p256) "length d \<noteq> 65" "hd d = SIGNATURE_TYPE_P256" "length (tl d) = 129"
    | (webauthn) "length d \<noteq> 65" "hd d = SIGNATURE_TYPE_WEBAUTHN" "128 \<le> length (tl d)" "length (tl d) \<le> 2048"
    using parsed by (auto simp: primitive_from_bytes_def signature_lengths Let_def split: if_splits option.splits)
  then show ?thesis
  proof cases
    case secp
    then obtain x where sig: "sig = Secp256k1Sig x" and x: "from_raw d = Some x"
      using parsed by (auto simp: primitive_from_bytes_def signature_lengths split: if_splits option.splits)
    have "butlast (as_bytes x) = take 32 d @ take 32 (drop 32 d)"
      using x secp t[of d] f[of 32 d]
      by (auto simp: from_raw_def from_bytes_and_parity_def as_bytes_def butlast_append drop_take split: option.splits)
    then show ?thesis using secp by (simp add: sig signature_lengths butlast_conv_take take_add[symmetric])
  next
    case p256
    then have sig: "sig = P256Sig (split_p256_signature_fields (tl d))"
      using parsed d by (auto simp: primitive_from_bytes_def signature_lengths Let_def split: if_splits)
    have "butlast (primitive_to_bytes sig) = hd d # take 128 (tl d)"
      using p256 t[of "tl d"] f[of 32 "tl d"] f[of 64 "tl d"] f[of 96 "tl d"] take_drop_32[of "tl d"]
      by (simp add: sig split_p256_signature_fields_def butlast_append)
    also have "\<dots> = butlast d" using p256 d by (cases d) (simp_all add: butlast_conv_take take_Cons')
    finally show ?thesis using p256 d by (cases d) (simp_all add: sig signature_lengths)
  next
    case webauthn
    define m where "m = length (tl d) - 128"
    define x where "x = drop m (tl d)"
    have x: "length x = 128" "drop 96 x = take 32 (drop 96 x)" "take 128 x = x" "take m (tl d) @ x = tl d" using webauthn by (simp_all add: x_def m_def)
    have sig: "sig = WebAuthnSig \<lparr>wa_r = from_be (take 32 x), wa_s = from_be (take 32 (drop 32 x)),
        wa_x = from_be (take 32 (drop 64 x)), wa_y = from_be (drop 96 x), webauthn_data = take m (tl d)\<rparr>"
      using parsed d webauthn
      by (auto simp: primitive_from_bytes_def signature_lengths signature_type_ids Let_def x_def m_def split: if_splits)
    have "be_bytes 32 (from_be (drop 96 x) :: b256) = drop 96 x" using x(1) by (intro be_bytes_field) simp
    then have "primitive_to_bytes sig = hd d # take m (tl d) @ take 32 x @ take 32 (drop 32 x) @ take 32 (drop 64 x) @ drop 96 x"
      using webauthn x(1) t[of x] f[of 32 x] f[of 64 x] by (simp add: sig)
    also have "\<dots> = d" using take_drop_32[of x] x(2-4) d by (metis append_assoc list.collapse)
    finally show ?thesis using webauthn d by (cases d) (simp_all add: sig signature_lengths m_def)
  qed
qed

section \<open>Properties\<close>

text \<open>Claim C22: encoding and decoding. Every signature whose WebAuthn data fits the size limit is read back
  from its bytes unchanged, of every scheme and wrapped as a keychain signature or not, and
  the encoding has the announced length.\<close>

theorem signature_roundtrip:
  assumes "wf_signature sig"
  shows "tempo_from_bytes (tempo_to_bytes sig) = Inr sig \<and> length (tempo_to_bytes sig) = tempo_encoded_length sig"
proof (cases sig)
  case (Primitive x)
  have "primitive_to_bytes x \<noteq> []" using length_primitive_to_bytes[of x] by (cases x) (auto simp: signature_lengths)
  moreover have "length (primitive_to_bytes x) = SECP256K1_SIGNATURE_LENGTH \<or>
      primitive_to_bytes x ! 0 \<noteq> SIGNATURE_TYPE_KEYCHAIN \<and> primitive_to_bytes x ! 0 \<noteq> SIGNATURE_TYPE_KEYCHAIN_V2"
    using length_primitive_to_bytes[of x] by (cases x) (auto simp: signature_type_ids)
  ultimately show ?thesis
    using assms Primitive primitive_roundtrip[of x] by (auto simp: tempo_from_bytes_def length_primitive_to_bytes)
next
  case (Keychain x)
  have "0 < primitive_encoded_length (inner_signature x)" "primitive_encoded_length (inner_signature x) \<noteq> 44"
    by (cases "inner_signature x"; simp add: signature_lengths)+
  moreover have "x = \<lparr>user_address = user_address x, inner_signature = inner_signature x, version = version x, cached_key_id = None\<rparr>"
    using assms Keychain by simp
  ultimately show ?thesis
    using assms Keychain primitive_roundtrip[of "inner_signature x"]
    by (cases "version x") (simp_all add: tempo_from_bytes_def length_primitive_to_bytes signature_lengths signature_type_ids)
qed

theorem signature_roundtrip_witness:
  "tempo_from_bytes (tempo_to_bytes (Keychain \<lparr>user_address = 7, inner_signature = WebAuthnSig \<lparr>wa_r = 1, wa_s = 2, wa_x = 3, wa_y = 4,
       webauthn_data = [5, 6]\<rparr>, version = V2, cached_key_id = None\<rparr>)) =
     Inr (Keychain \<lparr>user_address = 7, inner_signature = WebAuthnSig \<lparr>wa_r = 1, wa_s = 2, wa_x = 3, wa_y = 4,
       webauthn_data = [5, 6]\<rparr>, version = V2, cached_key_id = None\<rparr>)"
  by (rule conjunct1[OF signature_roundtrip]) (simp add: signature_lengths)

text \<open>Claim C23: what parsing accepts. A byte string that parses gives a signature within the size limits
  that occupies exactly these bytes, the wire type decides the scheme, and encoding it again
  gives the same bytes up to the last one (the parity of secp256k1, the pre-hash flag of P256).\<close>

theorem parsed_signature_wellformed:
  assumes "tempo_from_bytes data = Inr sig"
  shows "wf_signature sig \<and> tempo_encoded_length sig = length data \<and> butlast (tempo_to_bytes sig) = butlast data \<and>
    (length data \<noteq> SECP256K1_SIGNATURE_LENGTH \<longrightarrow>
       (is_legacy_keychain sig \<longleftrightarrow> data ! 0 = SIGNATURE_TYPE_KEYCHAIN) \<and>
       (is_v2_keychain sig \<longleftrightarrow> data ! 0 = SIGNATURE_TYPE_KEYCHAIN_V2))"
proof (cases "length data > 1 \<and> length data \<noteq> SECP256K1_SIGNATURE_LENGTH \<and>
    (data ! 0 = SIGNATURE_TYPE_KEYCHAIN \<or> data ! 0 = SIGNATURE_TYPE_KEYCHAIN_V2)")
  case True
  then obtain x inner where data: "data = x # inner" by (cases data) auto
  with True assms obtain prim where prim: "primitive_from_bytes (drop 20 inner) = Inr prim" and len: "20 \<le> length inner"
    and sig: "sig = Keychain \<lparr>user_address = from_be (take 20 inner), inner_signature = prim,
        version = (if x = SIGNATURE_TYPE_KEYCHAIN then V1 else V2), cached_key_id = None\<rparr>"
    by (auto simp: tempo_from_bytes_def Let_def rbind_def split: if_splits sum.splits)
  have ne: "drop 20 inner \<noteq> []" "primitive_to_bytes prim \<noteq> []"
    using prim primitive_parsed[OF prim] length_primitive_to_bytes[of prim] by (auto simp: primitive_from_bytes_def)
  have "be_bytes 20 (from_be (take 20 inner) :: address) = take 20 inner" using len by (intro be_bytes_from_be) simp_all
  moreover have "butlast inner = take 20 inner @ butlast (drop 20 inner)"
    using ne(1) by (metis append_take_drop_id butlast_append)
  ultimately show ?thesis
    using True primitive_parsed[OF prim] len ne
    by (auto simp: sig data butlast_append is_legacy_def signature_type_ids)
next
  case False
  then obtain prim where prim: "primitive_from_bytes data = Inr prim" and sig: "sig = Primitive prim"
    using assms by (auto simp: tempo_from_bytes_def rbind_def split: if_splits sum.splits)
  have "length data > 1" using prim by (auto simp: primitive_from_bytes_def signature_lengths split: if_splits)
  then show ?thesis using False primitive_parsed[OF prim] by (auto simp: sig)
qed

theorem parsed_signature_wellformed_witness:
  "tempo_from_bytes (replicate 64 1 @ [0]) = Inr (Primitive (Secp256k1Sig (from_bytes_and_parity (replicate 64 1) False))) \<and>
   tempo_encoded_length (Primitive (Secp256k1Sig (from_bytes_and_parity (replicate 64 1) False))) = 65"
proof -
  have parse: "tempo_from_bytes (replicate 64 1 @ [0]) = Inr (Primitive (Secp256k1Sig (from_bytes_and_parity (replicate 64 1) False)))"
    by (simp add: tempo_from_bytes_def primitive_from_bytes_def signature_lengths from_raw_def nth_append normalize_v_def is_valid_v_def)
  with parsed_signature_wellformed[OF parse] show ?thesis by simp
qed

lemma p256_half: "unat P256_ORDER = 2 * unat P256N_HALF + 1"
  by (simp add: P256_ORDER_def P256N_HALF_def)

lemma mirrored_high: "s \<le> P256N_HALF \<Longrightarrow> P256_ORDER - s > P256N_HALF"
proof -
  assume "s \<le> P256N_HALF"
  then have "unat s \<le> unat P256N_HALF" by (simp add: word_le_nat_alt)
  moreover from this p256_half have "unat (P256_ORDER - s) = unat P256_ORDER - unat s"
    by (intro unat_sub) (simp add: word_le_nat_alt)
  ultimately show ?thesis using p256_half by (simp add: word_less_nat_alt)
qed

lemma normalize_low: "s \<le> P256N_HALF \<Longrightarrow> s \<noteq> 0 \<Longrightarrow> normalize_p256_s (be_bytes 32 s) = Inr s"
  using p256_half by (auto simp: normalize_p256_s_def word_le_nat_alt word_less_nat_alt)

lemma p256_verified:
  "verify_p256_signature_internal e r s x y m = Inr u \<Longrightarrow> s \<le> P256N_HALF"
  "s \<le> P256N_HALF \<Longrightarrow> verify_p256_signature_internal e r (P256_ORDER - s) x y m = Inl ''P256 signature has high s value''"
  by (auto simp: verify_p256_signature_internal_def mirrored_high split: if_splits)

text \<open>Claim C24: signatures are not malleable. When a signature recovers a signer, its scalar s lies in the
  lower half of the group order, it is what normalization before signing produces, and the mirrored
  signature with n - s in place of s recovers nobody, for P256 and WebAuthn.\<close>

theorem signatures_not_malleable:
  assumes "primitive_recover_signer e sig hash = Some a"
  shows "case sig of
      Secp256k1Sig x \<Rightarrow> secp_s x \<le> SECP256K1N_HALF
    | P256Sig x \<Rightarrow> p256_s x \<le> P256N_HALF \<and> (p256_s x \<noteq> 0 \<longrightarrow> normalize_p256_s (be_bytes 32 (p256_s x)) = Inr (p256_s x)) \<and>
        primitive_recover_signer e (P256Sig (x\<lparr>p256_s := P256_ORDER - p256_s x\<rparr>)) hash = None
    | WebAuthnSig x \<Rightarrow> wa_s x \<le> P256N_HALF \<and> (wa_s x \<noteq> 0 \<longrightarrow> normalize_p256_s (be_bytes 32 (wa_s x)) = Inr (wa_s x)) \<and>
        primitive_recover_signer e (WebAuthnSig (x\<lparr>wa_s := P256_ORDER - wa_s x\<rparr>)) hash = None"
  using assms
  by (cases sig) (auto simp: secp256k1_recover_signer_def Let_def p256_verified(2) not_less
      split: if_splits sum.splits dest!: p256_verified(1) intro: normalize_low dest: mirrored_high[folded not_le])

theorem signatures_not_malleable_witness:
  "primitive_recover_signer ((demo_env T5 0)\<lparr>p256_verify := \<lambda>_ _ _ _ _. True\<rparr>)
     (P256Sig \<lparr>p256_r = 1, p256_s = P256_ORDER - 2, p256_x = 3, p256_y = 4, pre_hash = False\<rparr>) 9 = None"
proof -
  let ?e = "(demo_env T5 0)\<lparr>p256_verify := \<lambda>_ _ _ _ _. True\<rparr>"
  have "primitive_recover_signer ?e (P256Sig \<lparr>p256_r = 1, p256_s = 2, p256_x = 3, p256_y = 4, pre_hash = False\<rparr>) 9 =
      Some (derive_p256_address ?e 3 4)"
    by (simp add: verify_p256_signature_internal_def P256N_HALF_def)
  from signatures_not_malleable[OF this] show ?thesis by simp
qed

lemma parsed_keychain:
  assumes "tempo_from_bytes data = Inr (Keychain ks)"
  shows "wf_primitive (inner_signature ks)" "cached_key_id ks = None"
  using assms primitive_parsed by (auto simp: tempo_from_bytes_def Let_def rbind_def split: if_splits sum.splits)

lemma recover_keychain_key_iff:
  assumes "tempo_from_bytes signature = Inr sig"
  shows "recover_keychain_key e hash signature = Inr (a, k) \<longleftrightarrow>
    (\<exists>ks. sig = Keychain ks \<and> version ks = V2 \<and> user_address ks = a \<and> fst (key_id e ks hash) = Some k)"
proof (cases sig)
  case (Keychain ks)
  note facts = parsed_keychain[OF assms[unfolded Keychain]]
  show ?thesis
    using Keychain assms facts(2) primitive_roundtrip[OF facts(1)]
    by (cases "version ks")
      (auto simp: recover_keychain_key_def is_legacy_def verifier_recover_def rbind_def rok_or_def key_id_def effective_sig_hash_def
        split: option.splits)
qed (use assms in \<open>simp add: recover_keychain_key_def\<close>)

lemma active_key_iff:
  "is_active_key account k e s = Inr True \<longleftrightarrow>
     \<not> is_revoked (keys s account k) \<and> expiry (keys s account k) \<noteq> 0 \<and> now64 e < expiry (keys s account k)"
  "is_admin_key account k e s = Inr True \<longleftrightarrow> k = account \<or> is_active_key account k e s = Inr True \<and> is_admin (keys s account k)"
  by (auto simp: is_active_key_def is_admin_key_def load_active_key_def Let_def)

text \<open>Claim C25: the keychain check of the verifier precompile. It recovers exactly the account and access
  key that a V2 keychain signature names when a transaction signed with it is recovered, and it
  accepts exactly for the embedded account and a key that is present, not revoked and not expired
  (for the admin check, the account itself or such a key with admin rights).\<close>

theorem verify_keychain_exact:
  assumes "tempo_from_bytes signature = Inr sig"
  shows "(verify_keychain account hash signature e s = Inr True \<longleftrightarrow>
      (\<exists>ks k. sig = Keychain ks \<and> version ks = V2 \<and> user_address ks = account \<and> fst (key_id e ks hash) = Some k \<and>
        fst (tempo_recover_signer e sig hash) = Some account \<and>
        \<not> is_revoked (keys s account k) \<and> expiry (keys s account k) \<noteq> 0 \<and> now64 e < expiry (keys s account k))) \<and>
    (verify_keychain_admin account hash signature e s = Inr True \<longleftrightarrow>
      (\<exists>ks k. sig = Keychain ks \<and> version ks = V2 \<and> user_address ks = account \<and> fst (key_id e ks hash) = Some k \<and>
        (k = account \<or> \<not> is_revoked (keys s account k) \<and> expiry (keys s account k) \<noteq> 0 \<and> now64 e < expiry (keys s account k) \<and>
           is_admin (keys s account k))))"
proof -
  have split: "rbind (recover_keychain_key e hash signature) (\<lambda>(a, k). if a \<noteq> account then Inr False else check k) = Inr True \<longleftrightarrow>
      (\<exists>k. recover_keychain_key e hash signature = Inr (account, k) \<and> check k = Inr True)" for check :: "address \<Rightarrow> tempo_error + bool"
    by (cases "recover_keychain_key e hash signature") (auto split: if_splits)
  have user: "fst (key_id e ks hash) = Some k \<Longrightarrow> fst (tempo_recover_signer e (Keychain ks) hash) = Some (user_address ks)" for ks k
    by (auto simp: key_id_def split: option.splits)
  show ?thesis
    unfolding verify_keychain_def verify_keychain_admin_def split recover_keychain_key_iff[OF assms] active_key_iff
    using user by (intro conjI iffI; elim exE conjE; force)
qed

theorem verify_keychain_exact_witness:
  "verify_keychain 7 9 (tempo_to_bytes (Keychain \<lparr>user_address = 7, inner_signature = Secp256k1Sig \<lparr>secp_r = 1, secp_s = 2, y_parity = True\<rparr>,
      version = V2, cached_key_id = None\<rparr>)) ((demo_env T6 5)\<lparr>ecrecover := \<lambda>_ _ _ _. Some 8\<rparr>)
     \<lparr>keys = (\<lambda>_ _. default_key\<lparr>expiry := 10\<rparr>), spending_limits = undefined, key_scopes = undefined,
      key_authorization_witnesses = undefined, transaction_key = 0, tx_origin = 0\<rparr> = Inr True"
proof -
  let ?ks = "\<lparr>user_address = 7, inner_signature = Secp256k1Sig \<lparr>secp_r = 1, secp_s = 2, y_parity = True\<rparr>, version = V2, cached_key_id = None\<rparr>"
  have "primitive_from_bytes (as_bytes \<lparr>secp_r = 1, secp_s = 2, y_parity = True\<rparr>) = Inr (inner_signature ?ks)"
    using primitive_roundtrip[of "inner_signature ?ks"] by simp
  then have parse: "tempo_from_bytes (tempo_to_bytes (Keychain ?ks)) = Inr (Keychain ?ks)"
    by (simp add: tempo_from_bytes_def signature_lengths signature_type_ids as_bytes_def)
  show ?thesis
    using conjunct1[OF verify_keychain_exact[OF parse, of 7 9 "(demo_env T6 5)\<lparr>ecrecover := \<lambda>_ _ _ _. Some 8\<rparr>"
      "\<lparr>keys = (\<lambda>_ _. default_key\<lparr>expiry := 10\<rparr>), spending_limits = undefined, key_scopes = undefined,
      key_authorization_witnesses = undefined, transaction_key = 0, tx_origin = 0\<rparr>"]]
    by (simp add: key_id_def secp256k1_recover_signer_def SECP256K1N_HALF_def default_key_def now64_def demo_env_def saturating_to_def)
qed

end
