(* ===== verification/Channel_Reserve.thy ===== *)
theory Channel_Reserve
  imports TIP20_Token Tempo_Signatures
begin

text \<open>
  The channel reserve (\<open>precompiles/src/tip20_channel_reserve/mod.rs\<close>): payment channels that lock
  a payer's deposit and pay the payee against signed cumulative vouchers. The payee, or an
  operator, settles and closes; the payer tops up, requests the close and withdraws after the
  grace period. The reserve reuses the storage slots of closed channels through storage credits
  it attributes to the payer.
\<close>

abbreviation RESERVE :: address where "RESERVE \<equiv> TIP20_CHANNEL_RESERVE_ADDRESS"

section \<open>Data\<close>

definition CLOSE_GRACE_PERIOD :: u64 where "CLOSE_GRACE_PERIOD = 15 * 60"

definition MAINNET_CHAIN_ID :: u64 where "MAINNET_CHAIN_ID = 4217"
definition MODERATO_CHAIN_ID :: u64 where "MODERATO_CHAIN_ID = 42431"

record channel_descriptor =
  ch_payer :: address
  ch_payee :: address
  ch_operator :: address
  ch_token :: address
  ch_salt :: b256
  ch_signer :: address
  ch_nonce_hash :: b256

record open_call =
  oc_payee :: address
  oc_operator :: address
  oc_token :: address
  oc_deposit :: u96
  oc_salt :: b256
  oc_authorized_signer :: address

definition channel_exists :: "packed_channel_state \<Rightarrow> bool" where
  "channel_exists st \<longleftrightarrow> deposit st \<noteq> 0"

definition close_request :: "packed_channel_state \<Rightarrow> u32 option" where
  "close_request st = (if close_requested_at st \<noteq> 0 then Some (close_requested_at st) else None)"

definition receive_policy_sender :: "packed_channel_state \<Rightarrow> address \<Rightarrow> address" where
  "receive_policy_sender st pay = (if uses_logical_receive_policy_sender st then pay else RESERVE)"

section \<open>Hashes\<close>

definition VOUCHER_TYPEHASH :: "env \<Rightarrow> b256" where
  "VOUCHER_TYPEHASH e = keccak256 e (string_bytes ''Voucher(bytes32 channelId,uint96 cumulativeAmount)'')"

definition RESERVE_DOMAIN_TYPEHASH :: "env \<Rightarrow> b256" where
  "RESERVE_DOMAIN_TYPEHASH e =
     keccak256 e (string_bytes ''EIP712Domain(string name,string version,uint256 chainId,address verifyingContract)'')"

definition NAME_HASH :: "env \<Rightarrow> b256" where
  "NAME_HASH e = keccak256 e (string_bytes ''TIP20 Channel Reserve'')"

definition RESERVE_VERSION_HASH :: "env \<Rightarrow> b256" where
  "RESERVE_VERSION_HASH e = keccak256 e (string_bytes ''1'')"

definition const_domain_separator :: "env \<Rightarrow> u64 \<Rightarrow> b256" where
  "const_domain_separator e chain =
     keccak256 e (be_bytes 32 (RESERVE_DOMAIN_TYPEHASH e) @ be_bytes 32 (NAME_HASH e) @ be_bytes 32 (RESERVE_VERSION_HASH e) @
       be_bytes 32 (ucast chain :: u256) @ replicate 12 0 @ be_bytes 20 RESERVE)"

definition domain_separator_inner :: "env \<Rightarrow> u64 \<Rightarrow> b256" where
  "domain_separator_inner e chain =
     keccak256 e (abi_word (RESERVE_DOMAIN_TYPEHASH e) @ abi_word (NAME_HASH e) @ abi_word (RESERVE_VERSION_HASH e) @
       abi_word (ucast chain) @ abi_address RESERVE)"

definition reserve_domain_separator :: "env \<Rightarrow> b256" where
  "reserve_domain_separator e =
     (if chain_id e = MAINNET_CHAIN_ID then const_domain_separator e MAINNET_CHAIN_ID
      else if chain_id e = MODERATO_CHAIN_ID then const_domain_separator e MODERATO_CHAIN_ID
      else domain_separator_inner e (chain_id e))"

definition compute_channel_id_inner ::
  "env \<Rightarrow> address \<Rightarrow> address \<Rightarrow> address \<Rightarrow> address \<Rightarrow> b256 \<Rightarrow> address \<Rightarrow> b256 \<Rightarrow> b256" where
  "compute_channel_id_inner e pay payee' op tok slt signer nonce =
     keccak256 e (abi_address pay @ abi_address payee' @ abi_address op @ abi_address tok @ abi_word slt @
       abi_address signer @ abi_word nonce @ abi_address RESERVE @ abi_word (ucast (chain_id e)))"

definition channel_id :: "channel_descriptor \<Rightarrow> env \<Rightarrow> b256" where
  "channel_id d e = compute_channel_id_inner e (ch_payer d) (ch_payee d) (ch_operator d) (ch_token d) (ch_salt d)
     (ch_signer d) (ch_nonce_hash d)"

definition get_voucher_digest_inner :: "env \<Rightarrow> b256 \<Rightarrow> u96 \<Rightarrow> b256" where
  "get_voucher_digest_inner e cid cumulative =
     (let struct_hash = keccak256 e (abi_word (VOUCHER_TYPEHASH e) @ abi_word cid @ abi_word (ucast cumulative)) in
      keccak256 e ([0x19, 0x01] @ be_bytes 32 (reserve_domain_separator e) @ be_bytes 32 struct_hash))"

section \<open>Checks\<close>

definition ensure_payee_or_operator :: "address \<Rightarrow> channel_descriptor \<Rightarrow> tempo_error + unit" where
  "ensure_payee_or_operator msg_sender d =
     rensure (\<not> (msg_sender \<noteq> ch_payee d \<and> (ch_operator d = 0 \<or> msg_sender \<noteq> ch_operator d))) (ChannelReserveErr NotPayeeOrOperator)"

definition enclosing_channel_open_context_hash :: "chain \<Rightarrow> tempo_error + b256" where
  "enclosing_channel_open_context_hash c =
     (let hash = channel_open_context_hash (reserve c) in
      if hash = 0 then Inl (ChannelReserveErr ExpiringNonceHashNotSet) else Inr hash)"

definition load_existing_state :: "b256 \<Rightarrow> chain \<Rightarrow> tempo_error + packed_channel_state" where
  "load_existing_state cid c =
     (let st = channel_states (reserve c) cid in
      if \<not> channel_exists st then Inl (ChannelReserveErr ChannelNotFound) else Inr st)"

definition expected_signer :: "channel_descriptor \<Rightarrow> address" where
  "expected_signer d = (if ch_signer d = 0 then ch_payer d else ch_signer d)"

definition validate_voucher :: "channel_descriptor \<Rightarrow> b256 \<Rightarrow> u96 \<Rightarrow> u8 list \<Rightarrow> env \<Rightarrow> tempo_error + unit" where
  "validate_voucher d cid cumulative signature e =
     (case verifier_recover e (get_voucher_digest_inner e cid cumulative) signature of
        Inl _ \<Rightarrow> Inl (ChannelReserveErr ReserveInvalidSignature)
      | Inr signer \<Rightarrow> rensure (signer = expected_signer d) (ChannelReserveErr ReserveInvalidSignature))"

definition now_u32 :: "env \<Rightarrow> u32" where
  "now_u32 e = saturating_to (timestamp e)"

section \<open>Storage\<close>

definition set_channel_open_context_hash :: "b256 \<Rightarrow> (chain, unit) op" where
  "set_channel_open_context_hash hash = on_reserve (modify (\<lambda>r. r\<lparr>channel_open_context_hash := hash\<rparr>))"

text \<open>Writes to the slots of the reserve, which storage credits track.\<close>

definition write_channel_state :: "b256 \<Rightarrow> packed_channel_state \<Rightarrow> (chain, unit) op" where
  "write_channel_state cid st =
     bind (gets (\<lambda>c. channel_states (reserve c) cid)) (\<lambda>old.
     bind (on_reserve (modify (\<lambda>r. r\<lparr>channel_states := (channel_states r)(cid := st)\<rparr>))) (\<lambda>_.
     on_credits (tracked_write RESERVE (old = empty_channel) (st = empty_channel))))"

definition write_channel_storage_credits :: "address \<Rightarrow> u64 \<Rightarrow> (chain, unit) op" where
  "write_channel_storage_credits pay n =
     bind (gets (\<lambda>c. channel_storage_credits (reserve c) pay)) (\<lambda>old.
     bind (on_reserve (modify (\<lambda>r. r\<lparr>channel_storage_credits := (channel_storage_credits r)(pay := n)\<rparr>))) (\<lambda>_.
     on_credits (tracked_write RESERVE (old = 0) (n = 0))))"

text \<open>
  \<open>track_minted_credits\<close> and \<open>with_budget\<close> of the storage credits, around a write of the reserve:
  the first returns the number of credits the write minted, the second lets it spend up to
  \<open>limit\<close> credits and returns the change of the credit balance.
\<close>

definition track_minted_credits :: "address \<Rightarrow> (chain, unit) op \<Rightarrow> (chain, u64) op" where
  "track_minted_credits account f =
     bind (ask spec) (\<lambda>h.
     if \<not> is_t7 h then bind f (\<lambda>_. ret 0)
     else
       bind (gets (\<lambda>c. credit_balance_of account (credits c))) (\<lambda>before.
       bind f (\<lambda>_.
       bind (gets (\<lambda>c. credit_balance_of account (credits c))) (\<lambda>after.
       bind (ensure (\<not> after < before) (Fatal ''storage credit operation consumed credits'')) (\<lambda>_.
       ret (after - before))))))"

definition with_budget :: "address \<Rightarrow> u64 \<Rightarrow> (chain, unit) op \<Rightarrow> (chain, int) op" where
  "with_budget owner limit f =
     bind (ask spec) (\<lambda>h.
     if \<not> is_t7 h then bind f (\<lambda>_. ret 0)
     else if limit = 0 then
       bind (gets (\<lambda>c. credit_balance_of owner (credits c))) (\<lambda>before.
       bind f (\<lambda>_.
       bind (gets (\<lambda>c. credit_balance_of owner (credits c))) (\<lambda>after.
       ret (uint after - uint before))))
     else
       bind (on_credits (set_budget owner limit)) (\<lambda>_.
       bind (gets (\<lambda>c. credit_balance_of owner (credits c))) (\<lambda>before.
       bind f (\<lambda>_.
       bind (gets (\<lambda>c. credit_balance_of owner (credits c))) (\<lambda>after.
       bind (query (\<lambda>_ c. credit_state_of owner (credits c))) (\<lambda>current.
       bind (on_credits (write_credit_state_of owner
               \<lparr>cr_mode = PreserveMode, budget = 0, pending_refunds = pending_refunds current\<rparr>)) (\<lambda>_.
       ret (uint after - uint before))))))))"

definition credit_channel_storage_slots :: "address \<Rightarrow> u64 \<Rightarrow> (chain, unit) op" where
  "credit_channel_storage_slots pay slots =
     (if slots = 0 then ret ()
      else bind (gets (\<lambda>c. channel_storage_credits (reserve c) pay)) (\<lambda>current.
        let updated = saturating_add current slots in
        if current = 0 then
          bind (with_budget RESERVE 1 (write_channel_storage_credits pay updated)) (\<lambda>delta.
          ensure (delta = - 1) (Fatal ''channel storage credit bookkeeping spend mismatch''))
        else write_channel_storage_credits pay updated))"

definition delete_channel_state_and_credit_payer :: "b256 \<Rightarrow> address \<Rightarrow> (chain, unit) op" where
  "delete_channel_state_and_credit_payer cid pay =
     bind (track_minted_credits RESERVE (write_channel_state cid empty_channel)) (\<lambda>minted.
     credit_channel_storage_slots pay minted)"

definition write_channel_state_spending_credit :: "address \<Rightarrow> b256 \<Rightarrow> packed_channel_state \<Rightarrow> (chain, unit) op" where
  "write_channel_state_spending_credit pay cid st =
     bind (ask spec) (\<lambda>h.
     if \<not> is_t7 h then write_channel_state cid st
     else bind (gets (\<lambda>c. channel_storage_credits (reserve c) pay)) (\<lambda>current.
       if current = 0 then write_channel_state cid st
       else
         bind (write_channel_storage_credits pay 0) (\<lambda>_.
         bind (with_budget RESERVE current (write_channel_state cid st)) (\<lambda>delta.
         let spent = (if delta < 0 then word_of_int (- delta) else 0) in
         bind (ensure (spent = 1) (Fatal ''channel storage credit spend mismatch'')) (\<lambda>_.
         credit_channel_storage_slots pay (saturating_sub current spent))))))"

definition emit_reserve :: "channel_reserve_event \<Rightarrow> (chain, unit) op" where
  "emit_reserve ev = emit (RESERVE, ChannelReserveEvent ev)"

section \<open>Operations\<close>

definition channel_open :: "address \<Rightarrow> open_call \<Rightarrow> (chain, b256) op" where
  "channel_open msg_sender call =
     bind (ensure (\<not> (oc_payee call = 0 \<or> is_tip20_prefix (oc_payee call) \<or>
              is_virtual (oc_payee call) \<and> (oc_operator call = 0 \<or> is_virtual (oc_operator call))))
            (ChannelReserveErr InvalidPayee)) (\<lambda>_.
     bind (query (\<lambda>_ _. from_address (oc_token call))) (\<lambda>_.
     bind (ensure (oc_deposit call \<noteq> 0) (ChannelReserveErr ZeroDeposit)) (\<lambda>_.
     bind (query (\<lambda>_. enclosing_channel_open_context_hash)) (\<lambda>nonce.
     bind (ask (\<lambda>e. compute_channel_id_inner e msg_sender (oc_payee call) (oc_operator call) (oc_token call) (oc_salt call)
              (oc_authorized_signer call) nonce)) (\<lambda>cid.
     bind (gets (\<lambda>c. channel_exists (channel_states (reserve c) cid) \<or> opened_this_tx (reserve c) cid)) (\<lambda>used.
     bind (ensure (\<not> used) (ChannelReserveErr ChannelAlreadyExists)) (\<lambda>_.
     bind (ask spec) (\<lambda>h.
     bind (if is_t12 h then
             bind (query (recipient_resolve (oc_payee call))) (\<lambda>rcp.
             bind (query (ensure_transfer_authorized (oc_token call) msg_sender (target rcp))) (\<lambda>_.
             bind (query (ensure_receive_policy_authorized (oc_token call) msg_sender (target rcp))) (\<lambda>_.
             channel_reserve_transfer (oc_token call) msg_sender (direct RESERVE) (ucast (oc_deposit call)) msg_sender)))
           else
             bind (query (recipient_resolve (oc_payee call))) (\<lambda>rcp.
             bind (query (ensure_authorized_as (oc_token call) [(target rcp, RoleRecipient)])) (\<lambda>_.
             discard (system_transfer_from (oc_token call) RESERVE msg_sender (ucast (oc_deposit call)))))) (\<lambda>_.
     bind (write_channel_state_spending_credit msg_sender cid
             \<lparr>settled = 0, deposit = oc_deposit call, close_requested_at = 0, uses_logical_receive_policy_sender = is_t12 h\<rparr>) (\<lambda>_.
     bind (on_reserve (modify (\<lambda>r. r\<lparr>opened_this_tx := (opened_this_tx r)(cid := True)\<rparr>))) (\<lambda>_.
     bind (emit_reserve (ChannelOpened cid msg_sender (oc_payee call) (oc_operator call) (oc_token call)
             (oc_authorized_signer call) (oc_salt call) nonce (oc_deposit call))) (\<lambda>_.
     ret cid))))))))))))"

definition channel_settle :: "address \<Rightarrow> channel_descriptor \<Rightarrow> u96 \<Rightarrow> u8 list \<Rightarrow> (chain, unit) op" where
  "channel_settle msg_sender d cumulative signature =
     bind (ask (channel_id d)) (\<lambda>cid.
     bind (query (\<lambda>_. load_existing_state cid)) (\<lambda>st.
     bind (query (\<lambda>_ _. ensure_payee_or_operator msg_sender d)) (\<lambda>_.
     bind (ensure (\<not> cumulative > deposit st) (ChannelReserveErr AmountExceedsDeposit)) (\<lambda>_.
     bind (ensure (\<not> cumulative \<le> settled st) (ChannelReserveErr AmountNotIncreasing)) (\<lambda>_.
     bind (query (\<lambda>e _. validate_voucher d cid cumulative signature e)) (\<lambda>_.
     let delta = cumulative - settled st in
     bind (query (\<lambda>_ _. from_address (ch_token d))) (\<lambda>_.
     bind (ask spec) (\<lambda>h.
     bind (if is_t12 h then
             bind (query (recipient_resolve (ch_payee d))) (\<lambda>rcp.
             bind (query (ensure_transfer_authorized (ch_token d) (ch_payer d) (target rcp))) (\<lambda>_.
             bind (channel_reserve_transfer (ch_token d) RESERVE rcp (ucast delta) (receive_policy_sender st (ch_payer d))) (\<lambda>_.
             write_channel_state cid (st\<lparr>settled := cumulative\<rparr>))))
           else
             bind (query (ensure_authorized_as (ch_token d) [(ch_payer d, RoleSender)])) (\<lambda>_.
             bind (write_channel_state cid (st\<lparr>settled := cumulative\<rparr>)) (\<lambda>_.
             discard (transfer (ch_token d) RESERVE (ch_payee d) (ucast delta))))) (\<lambda>_.
     emit_reserve (Settled cid (ch_payer d) (ch_payee d) cumulative delta cumulative))))))))))"

definition channel_top_up :: "address \<Rightarrow> channel_descriptor \<Rightarrow> u96 \<Rightarrow> (chain, unit) op" where
  "channel_top_up msg_sender d additional =
     bind (ask (channel_id d)) (\<lambda>cid.
     bind (query (\<lambda>_. load_existing_state cid)) (\<lambda>st.
     bind (ensure (msg_sender = ch_payer d) (ChannelReserveErr NotPayer)) (\<lambda>_.
     let had_close_request = close_request st \<noteq> None in
     if additional = 0 \<and> \<not> had_close_request then ret ()
     else
       bind (if additional = 0 then ret st
             else
               bind (ok_or (checked_add (deposit st) additional) (ChannelReserveErr DepositOverflow)) (\<lambda>next_deposit.
               bind (query (\<lambda>_ _. from_address (ch_token d))) (\<lambda>_.
               bind (ask spec) (\<lambda>h.
               bind (if is_t12 h then
                       bind (query (recipient_resolve (ch_payee d))) (\<lambda>rcp.
                       bind (query (ensure_transfer_authorized (ch_token d) msg_sender (target rcp))) (\<lambda>_.
                       bind (query (ensure_receive_policy_authorized (ch_token d) (receive_policy_sender st msg_sender) (target rcp))) (\<lambda>_.
                       channel_reserve_transfer (ch_token d) msg_sender (direct RESERVE) (ucast additional) msg_sender)))
                     else
                       bind (query (recipient_resolve (ch_payee d))) (\<lambda>rcp.
                       bind (query (ensure_authorized_as (ch_token d) [(target rcp, RoleRecipient)])) (\<lambda>_.
                       discard (system_transfer_from (ch_token d) RESERVE msg_sender (ucast additional))))) (\<lambda>_.
               ret (st\<lparr>deposit := next_deposit\<rparr>)))))) (\<lambda>st1.
       let st2 = (if had_close_request then st1\<lparr>close_requested_at := 0\<rparr> else st1) in
       bind (write_channel_state cid st2) (\<lambda>_.
       bind (whenM had_close_request (emit_reserve (CloseRequestCancelled cid (ch_payer d) (ch_payee d)))) (\<lambda>_.
       emit_reserve (TopUp cid (ch_payer d) (ch_payee d) additional (deposit st2))))))))"

definition channel_request_close :: "address \<Rightarrow> channel_descriptor \<Rightarrow> (chain, unit) op" where
  "channel_request_close msg_sender d =
     bind (ask (channel_id d)) (\<lambda>cid.
     bind (query (\<lambda>_. load_existing_state cid)) (\<lambda>st.
     bind (ensure (msg_sender = ch_payer d) (ChannelReserveErr NotPayer)) (\<lambda>_.
     if close_request st \<noteq> None then ret ()
     else
       bind (ask now_u32) (\<lambda>requested_at.
       bind (write_channel_state cid (st\<lparr>close_requested_at := requested_at\<rparr>)) (\<lambda>_.
       bind (ask now64) (\<lambda>now.
       emit_reserve (CloseRequested cid (ch_payer d) (ch_payee d) (ucast (now + CLOSE_GRACE_PERIOD)))))))))"

definition channel_close :: "address \<Rightarrow> channel_descriptor \<Rightarrow> u96 \<Rightarrow> u96 \<Rightarrow> u8 list \<Rightarrow> (chain, unit) op" where
  "channel_close msg_sender d cumulative capture signature =
     bind (ask (channel_id d)) (\<lambda>cid.
     bind (query (\<lambda>_. load_existing_state cid)) (\<lambda>st.
     bind (query (\<lambda>_ _. ensure_payee_or_operator msg_sender d)) (\<lambda>_.
     bind (ensure (\<not> (capture < settled st \<or> capture > cumulative)) (ChannelReserveErr CaptureAmountInvalid)) (\<lambda>_.
     bind (ensure (\<not> capture > deposit st) (ChannelReserveErr AmountExceedsDeposit)) (\<lambda>_.
     bind (whenM (capture > settled st) (query (\<lambda>e _. validate_voucher d cid cumulative signature e))) (\<lambda>_.
     let delta = capture - settled st; refund = deposit st - capture in
     bind (ask spec) (\<lambda>h.
     bind (if is_t12 h then
             bind (query (\<lambda>_ _. from_address (ch_token d))) (\<lambda>_.
             bind (whenM (delta \<noteq> 0)
               (bind (query (recipient_resolve (ch_payee d))) (\<lambda>rcp.
                bind (query (ensure_transfer_authorized (ch_token d) (ch_payer d) (target rcp))) (\<lambda>_.
                channel_reserve_transfer (ch_token d) RESERVE rcp (ucast delta) (receive_policy_sender st (ch_payer d)))))) (\<lambda>_.
             bind (whenM (refund \<noteq> 0)
               (bind (query (recipient_resolve (ch_payer d))) (\<lambda>rcp.
                channel_reserve_transfer (ch_token d) RESERVE rcp (ucast refund) RESERVE))) (\<lambda>_.
             delete_channel_state_and_credit_payer cid (ch_payer d))))
           else
             bind (delete_channel_state_and_credit_payer cid (ch_payer d)) (\<lambda>_.
             bind (query (\<lambda>_ _. from_address (ch_token d))) (\<lambda>_.
             bind (whenM (delta \<noteq> 0)
               (bind (query (ensure_authorized_as (ch_token d) [(ch_payer d, RoleSender)])) (\<lambda>_.
                discard (transfer (ch_token d) RESERVE (ch_payee d) (ucast delta))))) (\<lambda>_.
             whenM (refund \<noteq> 0) (discard (transfer (ch_token d) RESERVE (ch_payer d) (ucast refund))))))) (\<lambda>_.
     emit_reserve (ChannelClosed cid (ch_payer d) (ch_payee d) capture refund)))))))))"

text \<open>The subtraction in \<open>withdraw\<close> is an \<open>expect\<close> in the code: a panic when it fails.\<close>

definition channel_withdraw :: "address \<Rightarrow> channel_descriptor \<Rightarrow> (chain, unit) op" where
  "channel_withdraw msg_sender d =
     bind (ask (channel_id d)) (\<lambda>cid.
     bind (query (\<lambda>_. load_existing_state cid)) (\<lambda>st.
     bind (ensure (msg_sender = ch_payer d) (ChannelReserveErr NotPayer)) (\<lambda>_.
     bind (ask now64) (\<lambda>now.
     let close_ready = (case close_request st of
           None \<Rightarrow> False
         | Some requested_at \<Rightarrow> now \<ge> ucast requested_at + CLOSE_GRACE_PERIOD) in
     bind (ensure close_ready (ChannelReserveErr CloseNotReady)) (\<lambda>_.
     bind (ok_or (checked_sub (deposit st) (settled st)) (Fatal ''settled is always <= deposit'')) (\<lambda>refund.
     bind (ask spec) (\<lambda>h.
     bind (if is_t12 h then
             bind (whenM (refund \<noteq> 0)
               (bind (query (\<lambda>_ _. from_address (ch_token d))) (\<lambda>_.
                bind (query (recipient_resolve (ch_payer d))) (\<lambda>rcp.
                channel_reserve_transfer (ch_token d) RESERVE rcp (ucast refund) RESERVE)))) (\<lambda>_.
             delete_channel_state_and_credit_payer cid (ch_payer d))
           else
             bind (delete_channel_state_and_credit_payer cid (ch_payer d)) (\<lambda>_.
             whenM (refund \<noteq> 0)
               (bind (query (\<lambda>_ _. from_address (ch_token d))) (\<lambda>_.
                discard (transfer (ch_token d) RESERVE (ch_payer d) (ucast refund)))))) (\<lambda>_.
     emit_reserve (ChannelClosed cid (ch_payer d) (ch_payee d) (settled st) refund)))))))))"

section \<open>Views\<close>

record channel_state_sol =
  sol_settled :: u96
  sol_deposit :: u96
  sol_close_requested_at :: u32

definition to_sol :: "packed_channel_state \<Rightarrow> channel_state_sol" where
  "to_sol st = \<lparr>sol_settled = settled st, sol_deposit = deposit st, sol_close_requested_at = close_requested_at st\<rparr>"

definition get_channel :: "channel_descriptor \<Rightarrow> env \<Rightarrow> chain \<Rightarrow> channel_descriptor \<times> channel_state_sol" where
  "get_channel d e c = (d, to_sol (channel_states (reserve c) (channel_id d e)))"

definition get_channel_state :: "b256 \<Rightarrow> chain \<Rightarrow> channel_state_sol" where
  "get_channel_state cid c = to_sol (channel_states (reserve c) cid)"

definition get_channel_states_batch :: "b256 list \<Rightarrow> chain \<Rightarrow> channel_state_sol list" where
  "get_channel_states_batch cids c = map (\<lambda>cid. to_sol (channel_states (reserve c) cid)) cids"

section \<open>Calls\<close>

datatype reserve_call =
    OpenCall open_call
  | SettleCall channel_descriptor u96 "u8 list"
  | TopUpCall channel_descriptor u96
  | CloseCall channel_descriptor u96 u96 "u8 list"
  | RequestCloseCall channel_descriptor
  | WithdrawCall channel_descriptor

fun reserve_method :: "address \<Rightarrow> reserve_call \<Rightarrow> (chain, unit) op" where
  "reserve_method m (OpenCall call) = discard (channel_open m call)"
| "reserve_method m (SettleCall d cumulative signature) = channel_settle m d cumulative signature"
| "reserve_method m (TopUpCall d additional) = channel_top_up m d additional"
| "reserve_method m (CloseCall d cumulative capture signature) = channel_close m d cumulative capture signature"
| "reserve_method m (RequestCloseCall d) = channel_request_close m d"
| "reserve_method m (WithdrawCall d) = channel_withdraw m d"

definition reserve_exec :: "address \<Rightarrow> reserve_call \<Rightarrow> (chain, unit) op" where
  "reserve_exec m call =
     bind (on_credits (preserve_storage_credits RESERVE)) (\<lambda>_. reserve_method m call)"

end
