(* ===== verification/Chain_Calls.thy ===== *)
theory Chain_Calls
  imports TIP20_Supply TIP20_Factory Guard_Claims Fee_Manager Channel_Reserve
begin

text \<open>
  The calls that change the shared state: the dispatchers of the token, factory, registry,
  keychain, guard and fee manager precompiles (\<open>dispatch.rs\<close> of each), and what the protocol
  itself does around a transaction. \<open>reachable\<close> collects the states they produce.
\<close>

section \<open>Dispatchers\<close>

datatype token_call =
    TransferFromCall address address u256
  | TransferCall address u256
  | ApproveCall address u256
  | ChangeTransferPolicyIdCall u64
  | SetSupplyCapCall u256
  | SetLogoURICall string
  | PauseCall
  | UnpauseCall
  | SetNextQuoteTokenCall address
  | CompleteQuoteTokenUpdateCall
  | MintCall address u256
  | MintWithMemoCall address u256 b256
  | BurnCall u256
  | BurnWithMemoCall u256 b256
  | BurnBlockedCall address u256
  | TransferWithMemoCall address u256 b256
  | TransferFromWithMemoCall address address u256 b256
  | DistributeRewardCall u256
  | SetRewardRecipientCall address
  | ClaimRewardsCall
  | PermitCall address address u256 u256 u8 b256 b256
  | GrantRoleCall b256 address
  | RevokeRoleCall b256 address
  | RenounceRoleCall b256
  | SetRoleAdminCall b256 b256

fun token_method :: "address \<Rightarrow> address \<Rightarrow> token_call \<Rightarrow> (chain, unit) op" where
  "token_method self m (TransferFromCall from to amount) = discard (transfer_from self m from to amount)"
| "token_method self m (TransferCall to amount) = discard (transfer self m to amount)"
| "token_method self m (ApproveCall spender amount) = discard (approve self m spender amount)"
| "token_method self m (ChangeTransferPolicyIdCall i) = change_transfer_policy_id self m i"
| "token_method self m (SetSupplyCapCall cap) = on_token self (set_supply_cap self m cap)"
| "token_method self m (SetLogoURICall uri) = since T5 (on_token self (set_logo_uri self m uri))"
| "token_method self m PauseCall = on_token self (pause self m)"
| "token_method self m UnpauseCall = on_token self (unpause self m)"
| "token_method self m (SetNextQuoteTokenCall q) = set_next_quote_token self m q"
| "token_method self m CompleteQuoteTokenUpdateCall = complete_quote_token_update self m"
| "token_method self m (MintCall to amount) = mint self m to amount"
| "token_method self m (MintWithMemoCall to amount memo) = mint_with_memo self m to amount memo"
| "token_method self m (BurnCall amount) = on_token self (burn self m amount)"
| "token_method self m (BurnWithMemoCall amount memo) = on_token self (burn_with_memo self m amount memo)"
| "token_method self m (BurnBlockedCall from amount) = burn_blocked self m from amount True"
| "token_method self m (TransferWithMemoCall to amount memo) = transfer_with_memo self m to amount memo"
| "token_method self m (TransferFromWithMemoCall from to amount memo) =
     discard (transfer_from_with_memo self m from to amount memo)"
| "token_method self m (DistributeRewardCall amount) = distribute_reward self m amount"
| "token_method self m (SetRewardRecipientCall r) = set_reward_recipient self m r"
| "token_method self m ClaimRewardsCall = discard (claim_rewards self m)"
| "token_method self m (PermitCall owner spender amount deadline v r s) =
     since T2 (on_token self (permit self owner spender amount deadline v r s))"
| "token_method self m (GrantRoleCall role account) = on_token self (grant_role self m role account)"
| "token_method self m (RevokeRoleCall role account) = on_token self (revoke_role self m role account)"
| "token_method self m (RenounceRoleCall role) = on_token self (renounce_role self m role)"
| "token_method self m (SetRoleAdminCall role admin) = on_token self (set_role_admin self m role admin)"

definition token_exec :: "address \<Rightarrow> address \<Rightarrow> token_call \<Rightarrow> (chain, unit) op" where
  "token_exec self m call =
     bind (gets (\<lambda>c. deployed c self)) (\<lambda>initialized.
     bind (ensure initialized (TIP20Err Uninitialized)) (\<lambda>_.
     token_method self m call))"

datatype factory_call =
    CreateTokenCall string string string address address b256
  | CreateTokenWithLogoCall string string string address address b256 string

fun factory_exec :: "address \<Rightarrow> factory_call \<Rightarrow> (chain, unit) op" where
  "factory_exec m (CreateTokenCall nam symb cur quote admin salt) =
     discard (create_token m nam symb cur quote admin salt)"
| "factory_exec m (CreateTokenWithLogoCall nam symb cur quote admin salt logo) =
     since T5 (discard (create_token_with_logo m nam symb cur quote admin salt logo))"

datatype guard_call =
    ClaimCall address "claim_receipt option"
  | BurnBlockedReceiptCall "claim_receipt option"

fun guard_exec :: "address \<Rightarrow> guard_call \<Rightarrow> (chain, unit) op" where
  "guard_exec m (ClaimCall to receipt) = claim m to receipt"
| "guard_exec m (BurnBlockedReceiptCall receipt) = burn_blocked_receipt m receipt"

datatype fee_call =
    SetValidatorTokenCall address
  | SetUserTokenCall address
  | DistributeFeesCall address address
  | AmmMintCall address address u256 address
  | AmmBurnCall address address u256 address
  | RebalanceSwapCall address address u256 address

fun fee_exec :: "address \<Rightarrow> address \<Rightarrow> fee_call \<Rightarrow> (chain, unit) op" where
  "fee_exec beneficiary m (SetValidatorTokenCall token) = set_validator_token m token beneficiary"
| "fee_exec beneficiary m (SetUserTokenCall token) = set_user_token m token"
| "fee_exec beneficiary m (DistributeFeesCall validator token) = distribute_fees validator token"
| "fee_exec beneficiary m (AmmMintCall u v amount to) = discard (amm_mint m u v amount to)"
| "fee_exec beneficiary m (AmmBurnCall u v liquidity to) = discard (amm_burn m u v liquidity to)"
| "fee_exec beneficiary m (RebalanceSwapCall u v amount to) = discard (rebalance_swap m u v amount to)"

datatype chain_call =
    TokenCall address token_call
  | FactoryCall factory_call
  | TIP403Call tip403_call
  | MigrateTransferPolicyIdsCall "address list"
  | RegisterVirtualMasterCall b256
  | KeychainCall keychain_call
  | GuardCall guard_call
  | FeeCall fee_call
  | ReserveCall reserve_call
  | CreditsCall credits_call

text \<open>
  The precompile at an address with the TIP-20 prefix is a token; a call to any other address
  is not a token call.
\<close>

fun chain_exec :: "address \<Rightarrow> address \<Rightarrow> chain_call \<Rightarrow> (chain, unit) op" where
  "chain_exec beneficiary m (TokenCall self call) =
     bind (ensure (is_tip20_prefix self) UnknownFunctionSelector) (\<lambda>_. token_exec self m call)"
| "chain_exec beneficiary m (FactoryCall call) = factory_exec m call"
| "chain_exec beneficiary m (TIP403Call call) = on_tip403 (tip403_exec m call)"
| "chain_exec beneficiary m (MigrateTransferPolicyIdsCall ts) = since T9 (discard (migrate_transfer_policy_ids ts))"
| "chain_exec beneficiary m (RegisterVirtualMasterCall salt) = on_addresses (discard (register_virtual_master m salt))"
| "chain_exec beneficiary m (KeychainCall call) =
     bind (gets (\<lambda>c a. is_tip20 a c)) (\<lambda>known. on_keychain (keychain_exec known m call))"
| "chain_exec beneficiary m (GuardCall call) = since T6 (guard_exec m call)"
| "chain_exec beneficiary m (FeeCall call) = fee_exec beneficiary m call"
| "chain_exec beneficiary m (ReserveCall call) = since T5 (reserve_exec m call)"
| "chain_exec beneficiary m (CreditsCall call) = since T7 (on_credits (credits_exec m call))"

section \<open>Steps of the chain\<close>

text \<open>
  An external account is one that can send calls: not the zero address, not a token, not a
  precompile. No signature recovers to an address that is not external, as those have no key.
\<close>

definition external_account :: "address \<Rightarrow> bool" where
  "external_account a \<longleftrightarrow> a \<noteq> 0 \<and> \<not> is_tip20_prefix a \<and> a \<notin> fst ` set SYSTEM_PRECOMPILES"

definition no_system_keys :: "env \<Rightarrow> bool" where
  "no_system_keys e \<longleftrightarrow> (\<forall>d p r s a. ecrecover e d p r s = Some a \<longrightarrow> external_account a)"

text \<open>
  One step: a call of an external account; the start of a transaction, at which transient storage
  is empty and the handler seeds the hash for new channels; the fee collection before and after a
  transaction; the keychain's transaction context; a protocol token at a reserved address; and the
  token movements of a precompile outside this development, the exchange, which pulls from its
  caller and pays from its own custody.
\<close>

definition clear_transient :: "chain \<Rightarrow> chain" where
  "clear_transient c = c
     \<lparr>keychain := (keychain c)\<lparr>transaction_key := 0, tx_origin := 0\<rparr>,
      fees := (fees c)\<lparr>pending_fee_swap_reservation := (\<lambda>_. 0), two_hop_intermediate := 0\<rparr>,
      reserve := (reserve c)\<lparr>opened_this_tx := (\<lambda>_. False), channel_open_context_hash := 0\<rparr>,
      credits := (credits c)\<lparr>credit_words := (\<lambda>_. 0)\<rparr>\<rparr>"

inductive chain_step :: "env \<Rightarrow> chain \<Rightarrow> chain \<Rightarrow> bool" for e where
  step_call: "external_account m \<Longrightarrow> chain_exec beneficiary m call e c = Inr (u, c', l) \<Longrightarrow> chain_step e c c'"
| step_tx_start: "set_channel_open_context_hash hash e (clear_transient c) = Inr (u, c', l) \<Longrightarrow> chain_step e c c'"
| step_fee_pre: "external_account payer \<Longrightarrow>
    collect_fee_pre_tx payer token amount beneficiary skip e c = Inr (u1, c', l) \<Longrightarrow> chain_step e c c'"
| step_fee_post: "external_account payer \<Longrightarrow>
    collect_fee_post_tx payer spent refund token beneficiary e c = Inr (u2, c', l) \<Longrightarrow> chain_step e c c'"
| step_tx_key: "on_keychain (set_transaction_key k) e c = Inr (u, c', l) \<Longrightarrow> chain_step e c c'"
| step_tx_origin: "on_keychain (set_tx_origin k) e c = Inr (u, c', l) \<Longrightarrow> chain_step e c c'"
| step_reserved: "create_token_reserved_address a nam symb cur quote admin e c = Inr (u1, c', l) \<Longrightarrow> chain_step e c c'"
| step_pull: "external_account m \<Longrightarrow> is_tip20_prefix token \<Longrightarrow>
    system_transfer_from token STABLECOIN_DEX_ADDRESS m amount e c = Inr (u3, c', l) \<Longrightarrow> chain_step e c c'"
| step_pull_allowance: "external_account m \<Longrightarrow> is_tip20_prefix token \<Longrightarrow>
    transfer_from token STABLECOIN_DEX_ADDRESS m STABLECOIN_DEX_ADDRESS amount e c = Inr (u3, c', l) \<Longrightarrow> chain_step e c c'"
| step_pay: "is_tip20_prefix token \<Longrightarrow>
    transfer token STABLECOIN_DEX_ADDRESS to amount e c = Inr (u3, c', l) \<Longrightarrow> chain_step e c c'"

inductive_cases chain_stepE: "chain_step e c c'"

definition token_init :: tip20_token where
  "token_init = \<lparr>roles = (\<lambda>_ _. False), role_admins = (\<lambda>_. 0), tok_name = [], tok_symbol = [], currency = [],
     logo_uri = [], quote_token = 0, next_quote_token = 0, legacy_transfer_policy_id = 0, total_supply = 0,
     balances = (\<lambda>_. 0), allowances = (\<lambda>_ _. 0), permit_nonces = (\<lambda>_. 0), paused = False, supply_cap = 0,
     global_reward_per_token = 0, opted_in_supply = 0,
     reward_infos = (\<lambda>_. \<lparr>reward_recipient = 0, reward_per_token = 0, reward_balance = 0\<rparr>)\<rparr>"

definition fees_init :: tip_fee_manager where
  "fees_init = \<lparr>validator_tokens = (\<lambda>_. 0), user_tokens = (\<lambda>_. 0), collected_fees = (\<lambda>_ _. 0),
     pools = (\<lambda>_. \<lparr>reserve_user_token = 0, reserve_validator_token = 0\<rparr>), lp_supply = (\<lambda>_. 0),
     liquidity_balances = (\<lambda>_ _. 0), pending_fee_swap_reservation = (\<lambda>_. 0), two_hop_intermediate = 0\<rparr>"

definition guard_init :: receive_policy_guard where
  "guard_init = \<lparr>receipt_nonce = 0, receipt_balances = (\<lambda>_. 0)\<rparr>"

definition reserve_init :: tip20_channel_reserve where
  "reserve_init = \<lparr>channel_states = (\<lambda>_. empty_channel), channel_storage_credits = (\<lambda>_. 0),
     opened_this_tx = (\<lambda>_. False), channel_open_context_hash = 0\<rparr>"

definition credits_init :: storage_credits where
  "credits_init = \<lparr>credit_balances = (\<lambda>_. 0), credit_words = (\<lambda>_. 0)\<rparr>"

definition genesis_chain :: "account_keychain \<Rightarrow> chain" where
  "genesis_chain k = \<lparr>tokens = (\<lambda>_. token_init), deployed = (\<lambda>_. False), tip403 = tip403_init,
     addresses = registry_init, keychain = k, guard = guard_init, fees = fees_init,
     reserve = reserve_init, credits = credits_init\<rparr>"

text \<open>
  The states of a chain with hash function \<open>hash\<close> that starts at hardfork \<open>h0\<close>, at hardfork \<open>h\<close>:
  from an empty storage (with any keychain), by steps, with hardforks activating over time and
  never receding.
\<close>

inductive reachable :: "(u8 list \<Rightarrow> b256) \<Rightarrow> tempo_hardfork \<Rightarrow> tempo_hardfork \<Rightarrow> chain \<Rightarrow> bool" for hash h0 where
  reachable_genesis: "reachable hash h0 h0 (genesis_chain k)"
| reachable_fork: "reachable hash h0 h c \<Longrightarrow> h \<le> h' \<Longrightarrow> reachable hash h0 h' c"
| reachable_step: "reachable hash h0 (spec e) c \<Longrightarrow> keccak256 e = hash \<Longrightarrow> no_system_keys e \<Longrightarrow>
    chain_step e c c' \<Longrightarrow> reachable hash h0 (spec e) c'"

lemma reachable_later: "reachable hash h0 h c \<Longrightarrow> h0 \<le> h"
  by (induction rule: reachable.induct) auto

text \<open>
  The shape of every invariant proof: it holds in an empty storage, survives a later hardfork,
  and every step keeps it.
\<close>

locale chain_invariant =
  fixes hash :: "u8 list \<Rightarrow> b256" and h0 :: tempo_hardfork and I :: "tempo_hardfork \<Rightarrow> chain \<Rightarrow> bool"
  assumes inv_genesis: "I h0 (genesis_chain k)"
    and inv_fork: "I h c \<Longrightarrow> h0 \<le> h \<Longrightarrow> h \<le> h' \<Longrightarrow> I h' c"
    and inv_step: "reachable hash h0 (spec e) c \<Longrightarrow> I (spec e) c \<Longrightarrow> keccak256 e = hash \<Longrightarrow> no_system_keys e \<Longrightarrow>
      chain_step e c c' \<Longrightarrow> I (spec e) c'"
begin

lemma reachable_inv: "reachable hash h0 h c \<Longrightarrow> I h c"
  by (induction rule: reachable.induct) (auto intro: inv_genesis inv_fork inv_step reachable_later)

end

end
