(* ===== verification/Token_Laws.thy ===== *)
theory Token_Laws
  imports Chain_Calls
begin

text \<open>
  Properties of single tokens, lifted to the chain. A \<open>token_law\<close> is a property of a token's
  storage that the ledger operations keep; the locale carries it through every method of every
  precompile, with all the policy checks, blocked transfers and fee flows around them.
\<close>

section \<open>The interface\<close>

text \<open>
  The property may depend on what the receive policy guard has recorded, as a transfer can end
  in the guard (\<open>block_law\<close> is about such a transfer together with its receipt), on which accounts
  have code, on the receive policies, on the channels of the reserve, and on whether the transient
  words of the storage credits decode.
\<close>

record surroundings =
  seen_guard :: receive_policy_guard
  seen_deployed :: "address \<Rightarrow> bool"
  seen_receive :: "address \<Rightarrow> receive_policy"
  seen_reserve :: tip20_channel_reserve
  seen_words :: bool

definition surroundings_of :: "chain \<Rightarrow> surroundings" where
  "surroundings_of c = \<lparr>seen_guard = guard c, seen_deployed = deployed c, seen_receive = receive_policies (tip403 c),
     seen_reserve = reserve c, seen_words = words_ok (credits c)\<rparr>"

lemma surroundings_of_simps [simp]:
  "surroundings_of (c\<lparr>tokens := t\<rparr>) = surroundings_of c"
  "surroundings_of (c\<lparr>addresses := a\<rparr>) = surroundings_of c"
  "surroundings_of (c\<lparr>keychain := k\<rparr>) = surroundings_of c"
  "surroundings_of (c\<lparr>fees := f\<rparr>) = surroundings_of c"
  "surroundings_of (c\<lparr>credits := s\<rparr>) = (surroundings_of c)\<lparr>seen_words := words_ok s\<rparr>"
  "surroundings_of (c\<lparr>guard := g\<rparr>) = (surroundings_of c)\<lparr>seen_guard := g\<rparr>"
  "surroundings_of (c\<lparr>deployed := d\<rparr>) = (surroundings_of c)\<lparr>seen_deployed := d\<rparr>"
  "surroundings_of (c\<lparr>tip403 := r\<rparr>) = (surroundings_of c)\<lparr>seen_receive := receive_policies r\<rparr>"
  "surroundings_of (c\<lparr>reserve := x\<rparr>) = (surroundings_of c)\<lparr>seen_reserve := x\<rparr>"
  "seen_guard (surroundings_of c) = guard c" "seen_deployed (surroundings_of c) = deployed c"
  "seen_receive (surroundings_of c) = receive_policies (tip403 c)" "seen_reserve (surroundings_of c) = reserve c"
  "seen_words (surroundings_of c) = words_ok (credits c)"
  by (simp_all add: surroundings_of_def)

definition all_tokens :: "(surroundings \<Rightarrow> address \<Rightarrow> tip20_token \<Rightarrow> bool) \<Rightarrow> chain \<Rightarrow> bool" where
  "all_tokens P c \<longleftrightarrow> (\<forall>a. is_tip20_prefix a \<longrightarrow> P (surroundings_of c) a (tokens c a))"

text \<open>The same ledger: only roles, metadata, policy, permit nonces or the pause flag may differ.\<close>

definition same_ledger :: "tip20_token \<Rightarrow> tip20_token \<Rightarrow> bool" where
  "same_ledger t t' \<longleftrightarrow> balances t' = balances t \<and> total_supply t' = total_supply t \<and> supply_cap t' = supply_cap t \<and>
     allowances t' = allowances t \<and> opted_in_supply t' = opted_in_supply t \<and> reward_infos t' = reward_infos t \<and>
     global_reward_per_token t' = global_reward_per_token t \<and> quote_token t' = quote_token t"

locale guarded_law =
  fixes e :: env and P :: "surroundings \<Rightarrow> address \<Rightarrow> tip20_token \<Rightarrow> bool" and src :: "address \<Rightarrow> address \<Rightarrow> bool"
  assumes same: "same_ledger t t' \<Longrightarrow> P g self t \<Longrightarrow> P g self t'"
    and words_law: "P g self t \<Longrightarrow> P (g\<lparr>seen_words := True\<rparr>) self t"
    and external_src: "is_tip20_prefix self \<Longrightarrow> external_account a \<Longrightarrow> src self a"
    and unprotected_src: "is_tip20_prefix self \<Longrightarrow> \<not> is_protected self a (spec e) \<Longrightarrow> src self a"
    and set_allowance_law: "external_account owner \<Longrightarrow> is_tip20_prefix self \<Longrightarrow>
      preserves e (P g self) (set_allowance owner spender v)"
    and permit_law: "is_tip20_prefix self \<Longrightarrow> preserves e (P g self) (permit self owner spender v deadline y r s)"
    and consume_law: "is_tip20_prefix self \<Longrightarrow>
      valid e (P g self) (consume_allowance owner spender v) (\<lambda>_ t. P g self t \<and> (src self owner \<or> v = 0))"
    and cap_law: "preserves e (P g self) (set_supply_cap self sender v)"
    and transfer_law: "is_tip20_prefix self \<Longrightarrow> src self from \<or> v = 0 \<Longrightarrow> target to \<noteq> 0 \<Longrightarrow>
      preserves e (P g self) (transfer_core self from to v)"
    and burn_law: "is_tip20_prefix self \<Longrightarrow> src self from \<Longrightarrow>
      preserves e (P g self) (bind (transfer_core self from (direct ADDRESS_ZERO) v) (\<lambda>_. reduce_supply self v))"
    and mint_law: "is_tip20_prefix self \<Longrightarrow>
      preserves e (P g self) (bind (gets total_supply) (\<lambda>supply. mint_core self to supply v))"
    and claim_law: "is_tip20_prefix self \<Longrightarrow> external_account a \<Longrightarrow> preserves e (P g self) (claim_core self a)"
    and distribute_law: "is_tip20_prefix self \<Longrightarrow> external_account a \<Longrightarrow> preserves e (P g self) (distribute_core self a v)"
    and recipient_law: "is_tip20_prefix self \<Longrightarrow> external_account a \<Longrightarrow> \<not> is_t7 (spec e) \<Longrightarrow>
      preserves e (P g self) (set_recipient_core self a to_account)"
    and fee_pre_law: "is_tip20_prefix self \<Longrightarrow> external_account a \<Longrightarrow> preserves e (P g self) (fee_pre_core self a v)"
    and fee_post_law: "is_tip20_prefix self \<Longrightarrow> external_account a \<Longrightarrow> src self TIP_FEE_MANAGER_ADDRESS \<Longrightarrow>
      preserves e (P g self) (fee_post_core self a v)"
    and block_law: "is_tip20_prefix self \<Longrightarrow> is_t6 (spec e) \<Longrightarrow> all_tokens P c \<Longrightarrow>
      (src self from \<or> v = 0) \<and> transfer_core self from (direct RECEIVE_POLICY_GUARD_ADDRESS) v e (tokens c self) = Inr ((), t', l) \<or>
      mint_core self (direct RECEIVE_POLICY_GUARD_ADDRESS) (total_supply (tokens c self)) v e (tokens c self) = Inr ((), t', l) \<Longrightarrow>
      store_blocked self originator rcp recovery v reason kind memo e (guard c) = Inr (n, g', l2) \<Longrightarrow>
      all_tokens P (c\<lparr>tokens := (tokens c)(self := t'), guard := g'\<rparr>)"

section \<open>Preservation through the methods\<close>

lemma on_other_all_tokens [valid_intros]:
  "preserves e (all_tokens P) (on_addresses m2)"
  "preserves e (all_tokens P) (on_keychain m3)"
  "preserves e (all_tokens P) (on_fees m5)"
  by (rule validI; auto simp: run_simps all_tokens_def)+

lemma on_tip403_all_tokens:
  "(\<And>r x r' l. m e r = Inr (x, r', l) \<Longrightarrow> receive_policies r' = receive_policies r) \<Longrightarrow> preserves e (all_tokens P) (on_tip403 m)"
  by (rule validI) (auto simp: run_simps all_tokens_def surroundings_of_def)

lemma set_token_policy_all_tokens [valid_intros]:
  "preserves e (all_tokens P) (on_tip403 (set_token_transfer_policy self n))"
  by (rule on_tip403_all_tokens) (auto simp: set_token_transfer_policy_def run_simps)

lemma on_token_all_tokens:
  "(\<And>g. preserves e (P g self) m) \<Longrightarrow> preserves e (all_tokens P) (on_token self m)"
  unfolding valid_def all_tokens_def by (fastforce simp: run_simps)

lemma on_token_post:
  "(\<And>g. valid e (P g self) m (\<lambda>x t. P g self t \<and> Q x)) \<Longrightarrow> is_tip20_prefix self \<Longrightarrow>
   valid e (all_tokens P) (on_token self m) (\<lambda>x c. all_tokens P c \<and> Q x)"
  by (rule validI) (fastforce simp: run_simps all_tokens_def valid_def)

text \<open>Reads: operations that leave the state as it is.\<close>

definition reads :: "('s, 'a) op \<Rightarrow> bool" where
  "reads m \<longleftrightarrow> (\<forall>e s x s' l. m e s = Inr (x, s', l) \<longrightarrow> s' = s)"

lemma readsD: "reads m \<Longrightarrow> m e s = Inr (x, s', l) \<Longrightarrow> s' = s"
  unfolding reads_def by blast

lemma reads_simps [simp]:
  "reads (check_role a role)" "reads check_not_paused" "reads (emit20 self ev)" "reads (emit_hop self to v)"
  "reads (query q)" "reads (gets f)" "reads (ask g)" "reads (ensure b err)" "reads (ok_or opt err)" "reads (ret y)"
  by (auto simp: reads_def run_simps check_role_def check_not_paused_def emit20_def emit_hop_def whenM_def
      split: option.splits if_splits)

lemma reads_on_token [simp]: "reads m \<Longrightarrow> reads (on_token self m)"
  by (fastforce simp: reads_def run_simps)

lemma reads_bind [simp]: "reads m \<Longrightarrow> (\<And>a. reads (f a)) \<Longrightarrow> reads (bind m f)"
  by (fastforce simp: reads_def run_simps)

lemma reads_whenM [simp]: "reads w \<Longrightarrow> reads (whenM b w)"
  by (simp add: whenM_def)

lemma reads_preserves: "reads m \<Longrightarrow> preserves e I m"
  unfolding valid_def reads_def by blast

text \<open>What a query established is known in the rest of the operation.\<close>

lemma bind_query_known:
  "(\<And>a s. q e s = Inr a \<Longrightarrow> preserves e I (f a)) \<Longrightarrow> preserves e I (bind (query q) f)"
  unfolding valid_def by (fastforce simp: run_simps)

lemma bind_ask_known: "preserves e I (f (g e)) \<Longrightarrow> preserves e I (bind (ask g) f)"
  unfolding valid_def by (simp add: run_simps)

lemma bind_ensure_known: "(b \<Longrightarrow> preserves e I (f ())) \<Longrightarrow> preserves e I (bind (ensure b err) f)"
  unfolding valid_def by (simp add: run_simps)

context guarded_law
begin

abbreviation keeps :: "(chain, 'a) op \<Rightarrow> bool" where
  "keeps m \<equiv> preserves e (all_tokens P) m"

lemma keeps_on_credits [valid_intros]:
  assumes m: "preserves e words_ok m"
  shows "keeps (on_credits m)"
proof (rule validI)
  fix c x c' l assume c: "all_tokens P c" and "on_credits m e c = Inr (x, c', l)"
  then obtain s where run: "m e (credits c) = Inr (x, s, l)" and c': "c' = c\<lparr>credits := s\<rparr>" by (auto simp: run_simps)
  have "words_ok s = words_ok (credits c) \<or> words_ok s" using validD[OF m _ run] by blast
  then have "surroundings_of c' = surroundings_of c \<or> surroundings_of c' = (surroundings_of c)\<lparr>seen_words := True\<rparr>"
    by (auto simp: c' surroundings_of_def)
  moreover have "tokens c' = tokens c" by (simp add: c')
  ultimately show "all_tokens P c'" using c words_law unfolding all_tokens_def by metis
qed

lemma keeps_read [valid_intros]:
  "keeps (on_token self (check_role a role))" "keeps (on_token self check_not_paused)"
  "keeps (on_token self (emit20 self' ev))" "keeps (on_token self (emit_hop self' to v))"
  by (simp_all add: reads_preserves)

lemma keeps_same:
  "(\<And>t x t' l. m e t = Inr (x, t', l) \<Longrightarrow> same_ledger t t') \<Longrightarrow> keeps (on_token self m)"
  by (rule on_token_all_tokens, rule validI) (blast intro: same)

lemma keeps_modify:
  "(\<And>t. same_ledger t (f t)) \<Longrightarrow> keeps (on_token self (modify f))"
  by (rule keeps_same) auto

lemma keeps_roles [valid_intros]:
  "keeps (on_token self initialize_roles)"
  "keeps (on_token self (grant_default_admin self' sender admin))"
  "keeps (on_token self (grant_role self' sender role a))"
  "keeps (on_token self (revoke_role self' sender role a))"
  "keeps (on_token self (renounce_role self' sender role))"
  "keeps (on_token self (set_role_admin self' sender role role'))"
  by (rule keeps_same;
      auto simp: same_ledger_def run_simps initialize_roles_def grant_default_admin_def grant_role_def revoke_role_def
        renounce_role_def set_role_admin_def grant_role_internal_def revoke_role_internal_def set_role_def
        set_role_admin_internal_def emit_role_def check_role_def)+

lemma keeps_admin [valid_intros]:
  "keeps (on_token self (pause self' sender))"
  "keeps (on_token self (unpause self' sender))"
  "keeps (on_token self (set_logo_uri self' sender uri))"
  "keeps (on_token self (write_logo_uri self' sender uri))"
  by (rule keeps_same;
      auto simp: same_ledger_def run_simps pause_def unpause_def set_logo_uri_def write_logo_uri_def emit20_def
        check_role_def)+

lemma keeps_transfer_core [valid_intros]:
  "is_tip20_prefix self \<Longrightarrow> src self from \<or> v = 0 \<Longrightarrow> target to \<noteq> 0 \<Longrightarrow> keeps (on_token self (transfer_core self from to v))"
  by (rule on_token_all_tokens) (rule transfer_law)

lemma keeps_spending_limit [valid_intros]: "keeps (check_and_update_spending_limit self a v)"
  unfolding check_and_update_spending_limit_def by (intro valid_intros)

text \<open>Minting adds to the supply that was read before the checks: the token has not changed since.\<close>

lemma keeps_mint_core:
  "is_tip20_prefix self \<Longrightarrow>
   valid e (\<lambda>c. all_tokens P c \<and> total_supply (tokens c self) = supply) (on_token self (mint_core self to supply v))
     (\<lambda>_. all_tokens P)"
proof (rule validI)
  fix c x c' l
  assume self: "is_tip20_prefix self" and pre: "all_tokens P c \<and> total_supply (tokens c self) = supply"
    and "on_token self (mint_core self to supply v) e c = Inr (x, c', l)"
  then obtain t where t: "mint_core self to supply v e (tokens c self) = Inr (x, t, l)"
    and c': "c' = c\<lparr>tokens := (tokens c)(self := t)\<rparr>" by (auto simp: run_simps)
  from t pre have "bind (gets total_supply) (\<lambda>supply. mint_core self to supply v) e (tokens c self) = Inr (x, t, l)"
    by (simp add: bind_exec)
  from validD[OF mint_law[OF self] _ this] pre self have "P (surroundings_of c) self t" by (simp add: all_tokens_def)
  with pre c' show "all_tokens P c'" by (simp add: all_tokens_def)
qed

lemma keeps_inbound:
  assumes self: "is_tip20_prefix self" and payer: "mint_supply = None \<Longrightarrow> src self from \<or> v = 0"
    and c: "all_tokens P c" "\<And>s. mint_supply = Some s \<Longrightarrow> total_supply (tokens c self) = s"
    and run: "validate_inbound_or_block self from to v mint_supply memo e c = Inr (b, c', l)"
  shows "all_tokens P c'" "\<not> b \<Longrightarrow> c' = c"
proof -
  have "all_tokens P c' \<and> (\<not> b \<longrightarrow> c' = c)"
  proof (cases "b")
    case False
    then have "c' = c" using run
      by (auto simp: validate_inbound_or_block_def run_simps Let_def split: if_splits option.splits)
    with c show ?thesis by simp
  next
    case True
    let ?g = "direct RECEIVE_POLICY_GUARD_ADDRESS"
    obtain t' l1 recovery reason kind n g' l2 where t6: "is_t6 (spec e)" and one: "(case mint_supply of
         Some s \<Rightarrow> mint_core self ?g s v e (tokens c self) = Inr ((), t', l1)
       | None \<Rightarrow> transfer_core self from ?g v e (tokens c self) = Inr ((), t', l1))"
      and store: "store_blocked self from to recovery v reason kind memo e (guard c) = Inr (n, g', l2)"
      and c': "c' = c\<lparr>tokens := (tokens c)(self := t'), guard := g'\<rparr>"
      using run True
      by (auto simp: validate_inbound_or_block_def bind_eq_Inr query_eq_Inr ensure_eq_Inr Let_def
          on_component_eq_Inr on_token_eq_Inr split: if_splits option.splits dest!: readsD[OF reads_simps(3)])
    have "(src self from \<or> v = 0) \<and> transfer_core self from ?g v e (tokens c self) = Inr ((), t', l1) \<or>
      mint_core self ?g (total_supply (tokens c self)) v e (tokens c self) = Inr ((), t', l1)"
      using one payer c(2) by (auto split: option.splits)
    from block_law[OF self t6 c(1) this store] True show ?thesis by (simp add: c')
  qed
  then show "all_tokens P c'" "\<not> b \<Longrightarrow> c' = c" by auto
qed

lemma keeps_validate_transfer:
  assumes self: "is_tip20_prefix self" and payer: "spender = None \<Longrightarrow> src self from" and c: "all_tokens P c"
    and run: "validate_transfer self spender from to v memo e c = Inr (r, c', l)"
  shows "all_tokens P c'" "src self from \<or> v = 0" "\<And>rcp. r = Some rcp \<Longrightarrow> target rcp \<noteq> 0"
proof -
  obtain rcp c1 l1 b l2 where val: "recipient_validate rcp = Inr ()"
    and auth: "(case spender of Some sp \<Rightarrow> on_token self (consume_allowance from sp v)
       | None \<Rightarrow> check_and_update_spending_limit self from v) e c = Inr ((), c1, l1)"
    and inb: "validate_inbound_or_block self from rcp v None memo e c1 = Inr (b, c', l2)"
    and r: "r = (if b then None else Some rcp)"
    using run by (auto simp: validate_transfer_def bind_eq_Inr query_eq_Inr
        dest!: readsD[OF reads_on_token[OF reads_simps(2)]])
  have c1: "all_tokens P c1 \<and> (src self from \<or> v = 0)"
  proof (cases spender)
    case None
    with auth have "check_and_update_spending_limit self from v e c = Inr ((), c1, l1)" by simp
    from validD[OF keeps_spending_limit c this] payer[OF None] show ?thesis by simp
  next
    case (Some sp)
    with auth have "on_token self (consume_allowance from sp v) e c = Inr ((), c1, l1)" by simp
    from validD[OF on_token_post[where P = P and self = self and Q = "\<lambda>_. src self from \<or> v = 0", OF consume_law[OF self] self] c this] show ?thesis .
  qed
  then show "src self from \<or> v = 0" ..
  show "all_tokens P c'" using keeps_inbound(1)[OF self _ _ _ inb] c1 by simp
  show "r = Some rcp' \<Longrightarrow> target rcp' \<noteq> 0" for rcp'
    using val r by (auto simp: recipient_validate_def run_simps split: if_splits)
qed

section \<open>Token methods\<close>

lemma keeps_after_validate_transfer:
  assumes self: "is_tip20_prefix self" and payer: "spender = None \<Longrightarrow> src self from"
    and finish: "\<And>r. src self from \<or> v = 0 \<Longrightarrow> (\<And>rcp. r = Some rcp \<Longrightarrow> target rcp \<noteq> 0) \<Longrightarrow> keeps (fin r)"
  shows "keeps (bind (validate_transfer self spender from to v memo) fin)"
proof (rule validI)
  fix c x c' l assume c: "all_tokens P c" and "bind (validate_transfer self spender from to v memo) fin e c = Inr (x, c', l)"
  then obtain r c1 l1 l2 where run: "validate_transfer self spender from to v memo e c = Inr (r, c1, l1)"
    and fin: "fin r e c1 = Inr (x, c', l2)" by (auto simp: bind_eq_Inr)
  note vt = keeps_validate_transfer[OF self payer c run]
  have "keeps (fin r)" by (rule finish) (use vt in auto)
  from validD[OF this _ fin] vt show "all_tokens P c'" by simp
qed

lemma keeps_finish:
  assumes "is_tip20_prefix self" "src self from \<or> v = 0" "\<And>rcp. r = Some rcp \<Longrightarrow> target rcp \<noteq> 0"
  shows "keeps (finish_transfer self from r v)" "keeps (finish_transfer_memo self from to r v memo)"
  unfolding finish_transfer_def finish_transfer_memo_def by (intro valid_intros assms; simp add: assms)+

lemma keeps_transfers [valid_intros]:
  "is_tip20_prefix self \<Longrightarrow> src self sender \<Longrightarrow> keeps (transfer self sender to v)"
  "is_tip20_prefix self \<Longrightarrow> src self sender \<Longrightarrow> keeps (transfer_with_memo self sender to v memo)"
  "is_tip20_prefix self \<Longrightarrow> keeps (transfer_from self sender from to v)"
  "is_tip20_prefix self \<Longrightarrow> keeps (transfer_from_with_memo self sender from to v memo)"
  "is_tip20_prefix self \<Longrightarrow> src self from \<Longrightarrow> keeps (system_transfer_from self caller from v)"
  unfolding transfer_def transfer_with_memo_def transfer_from_def transfer_from_with_memo_def system_transfer_from_def
  by (intro valid_intros keeps_after_validate_transfer keeps_finish; simp)+

lemma keeps_channel_transfer [valid_intros]:
  assumes "is_tip20_prefix self" "src self from"
  shows "keeps (channel_reserve_transfer self from to v sender)"
proof (cases "target to = 0")
  case True
  then have "channel_reserve_transfer self from to v sender e c \<noteq> Inr (x, c', l)" for c x c' l
    by (auto simp: channel_reserve_transfer_def bind_eq_Inr query_eq_Inr recipient_validate_def rensure_eq_Inr)
  then show ?thesis by (simp add: valid_def)
next
  case False
  with assms show ?thesis unfolding channel_reserve_transfer_def by (intro valid_intros; simp)
qed

lemma keeps_validate_mint:
  assumes self: "is_tip20_prefix self" and c: "all_tokens P c"
    and run: "validate_mint self sender to v memo e c = Inr (r, c', l)"
  shows "all_tokens P c'" "\<And>supply rcp. r = Some (supply, rcp) \<Longrightarrow> total_supply (tokens c' self) = supply"
proof -
  have w: "reads (whenM b (bind (on_token self check_not_paused) (\<lambda>_. query q)))" for b q by simp
  obtain rcp b l1 where inb: "validate_inbound_or_block self sender rcp v (Some (total_supply (tokens c self))) memo e c = Inr (b, c', l1)"
    and r: "r = (if b then None else Some (total_supply (tokens c self), rcp))"
    using run unfolding validate_mint_def
    by (auto simp: bind_eq_Inr query_eq_Inr ensure_eq_Inr simp del: reads_whenM
        dest!: readsD[OF reads_on_token[OF reads_simps(1)]] readsD[OF w])
  note k = keeps_inbound[OF self _ c _ inb]
  show "all_tokens P c'" using k(1) by simp
  show "r = Some (sup, rcp') \<Longrightarrow> total_supply (tokens c' self) = sup" for sup rcp'
    using k(2) r by (auto split: if_splits)
qed

lemma keeps_mint [valid_intros]:
  assumes self: "is_tip20_prefix self"
  shows "keeps (mint self sender to v)" "keeps (mint_with_memo self sender to v memo)"
proof -
  have fin: "keeps (bind (validate_mint self sender to v memo) (\<lambda>r. case r of None \<Rightarrow> ret ()
      | Some (supply, rcp) \<Rightarrow> bind (on_token self (mint_core self rcp supply v)) (\<lambda>_. after rcp)))"
    if after: "\<And>rcp. keeps (after rcp)" for after memo
  proof (rule validI)
    fix c x c' l assume c: "all_tokens P c" and run: "bind (validate_mint self sender to v memo) (\<lambda>r. case r of None \<Rightarrow> ret ()
      | Some (supply, rcp) \<Rightarrow> bind (on_token self (mint_core self rcp supply v)) (\<lambda>_. after rcp)) e c = Inr (x, c', l)"
    then obtain r c1 l1 l2 where vm: "validate_mint self sender to v memo e c = Inr (r, c1, l1)"
      and rest: "(case r of None \<Rightarrow> ret ()
        | Some (supply, rcp) \<Rightarrow> bind (on_token self (mint_core self rcp supply v)) (\<lambda>_. after rcp)) e c1 = Inr (x, c', l2)"
      by (auto simp: bind_eq_Inr[of "validate_mint self sender to v memo"])
    note k = keeps_validate_mint[OF self c vm]
    show "all_tokens P c'"
    proof (cases r)
      case None
      with rest k show ?thesis by simp
    next
      case (Some p)
      obtain sup rcp where p: "p = (sup, rcp)" by (cases p)
      have "valid e (\<lambda>c. all_tokens P c \<and> total_supply (tokens c self) = sup)
          (bind (on_token self (mint_core self rcp sup v)) (\<lambda>_. after rcp)) (\<lambda>_. all_tokens P)"
        by (rule valid_bind[OF keeps_mint_core[OF self] after])
      from validD[OF this] rest k Some p show ?thesis by simp
    qed
  qed
  show "keeps (mint self sender to v)" "keeps (mint_with_memo self sender to v memo)"
    unfolding mint_def mint_with_memo_def by (rule fin; intro valid_intros)+
qed

lemma keeps_burn_pair:
  "is_tip20_prefix self \<Longrightarrow> src self from \<Longrightarrow> keeps (bind (on_token self (transfer_core self from (direct ADDRESS_ZERO) v))
     (\<lambda>_. on_token self (reduce_supply self v)))"
  using on_token_all_tokens[where P = P and self = self, OF burn_law] unfolding on_token_def token_lens.zoom_bind by blast

lemma keeps_burn_blocked [valid_intros]:
  assumes self: "is_tip20_prefix self" and src: "src self RECEIVE_POLICY_GUARD_ADDRESS \<or> chk"
  shows "keeps (burn_blocked self sender owner v chk)"
proof -
  have pair: "keeps (bind (on_token self (transfer_core self b (direct ADDRESS_ZERO) v)) (\<lambda>_.
      bind (on_token self (reduce_supply self v)) (\<lambda>_. on_token self (emit20 self ev))))" if "src self b" for b ev
    using preserves_bind[OF keeps_burn_pair[OF self that] keeps_read(3)] by (simp add: bind_assoc)
  show ?thesis
    unfolding burn_blocked_def Let_def using src
    by (intro bind_ask_known bind_ensure_known valid_intros pair) (auto intro: unprotected_src[OF self])
qed

lemma keeps_burn [valid_intros]:
  assumes "is_tip20_prefix self" "src self a"
  shows "keeps (on_token self (burn self a v))" "keeps (on_token self (burn_with_memo self a v memo))"
proof -
  have r: "preserves e (P g self) m" if "reads m" for g and m :: "(tip20_token, 'b) op" using that by (rule reads_preserves)
  have core: "preserves e (P g self) (burn_core self a v)" for g
    unfolding burn_core_def by (intro preserves_bind preserves_whenM r burn_law assms preserves_basic) simp_all
  show "keeps (on_token self (burn self a v))" "keeps (on_token self (burn_with_memo self a v memo))"
    unfolding burn_def burn_with_memo_def
    by (intro on_token_all_tokens preserves_bind core r; simp)+
qed

lemma keeps_allowances [valid_intros]:
  "is_tip20_prefix self \<Longrightarrow> external_account sender \<Longrightarrow> keeps (approve self sender spender v)"
  "is_tip20_prefix self \<Longrightarrow> keeps (on_token self (permit self owner spender v deadline y r s))"
  "keeps (on_token self (set_supply_cap self sender v))"
  unfolding approve_def
  by (intro valid_intros on_token_all_tokens set_allowance_law permit_law cap_law; assumption)+

lemma keeps_rewards [valid_intros]:
  assumes "is_tip20_prefix self" "external_account sender"
  shows "keeps (distribute_reward self sender v)" "keeps (set_reward_recipient self sender to)" "keeps (claim_rewards self sender)"
  unfolding distribute_reward_def claim_rewards_def set_reward_recipient_def
  by (intro bind_ask_known valid_intros on_token_all_tokens distribute_law claim_law recipient_law assms; assumption)+

lemma keeps_policy [valid_intros]:
  "keeps (change_transfer_policy_id self sender i)"
  "keeps (set_next_quote_token self sender q)"
  "keeps (on_token self (modify (\<lambda>t. t\<lparr>legacy_transfer_policy_id := j\<rparr>)))"
  unfolding change_transfer_policy_id_def set_next_quote_token_def
  by (intro valid_intros keeps_modify; simp add: same_ledger_def)+

lemma keeps_migrate [valid_intros]: "keeps (migrate_transfer_policy_ids ts)"
proof (induction ts)
  case Nil
  show ?case unfolding migrate_transfer_policy_ids.simps by (intro valid_intros)
next
  case (Cons a ts)
  then show ?case unfolding migrate_transfer_policy_ids.simps by (intro valid_intros)
qed

section \<open>Fees and claims\<close>

lemma from_address_prefix: "from_address a = Inr u \<Longrightarrow> is_tip20_prefix a"
  by (simp add: from_address_def rensure_eq_Inr)

lemma keeps_fee_pre [valid_intros]:
  "is_tip20_prefix self \<Longrightarrow> external_account a \<Longrightarrow> keeps (transfer_fee_pre_tx self a v)"
  unfolding transfer_fee_pre_tx_def by (intro valid_intros on_token_all_tokens fee_pre_law)

lemma keeps_fee_post [valid_intros]:
  "is_tip20_prefix self \<Longrightarrow> external_account a \<Longrightarrow> src self TIP_FEE_MANAGER_ADDRESS \<Longrightarrow> keeps (transfer_fee_post_tx self a r v)"
  unfolding transfer_fee_post_tx_def by (intro valid_intros on_token_all_tokens fee_post_law)

lemma keeps_collect_pre [valid_intros]:
  "external_account payer \<Longrightarrow> keeps (collect_fee_pre_tx payer token v beneficiary skip)"
  unfolding collect_fee_pre_tx_def by (intro bind_query_known valid_intros; auto dest: from_address_prefix)

lemma keeps_collect_post [valid_intros]:
  "external_account payer \<Longrightarrow> (\<And>t. is_tip20_prefix t \<Longrightarrow> src t TIP_FEE_MANAGER_ADDRESS) \<Longrightarrow>
   keeps (collect_fee_post_tx payer spent refund token beneficiary)"
  unfolding collect_fee_post_tx_def by (intro bind_query_known valid_intros; auto dest: from_address_prefix)

lemma keeps_amm [valid_intros]:
  assumes "external_account m" "\<And>t. is_tip20_prefix t \<Longrightarrow> src t TIP_FEE_MANAGER_ADDRESS"
  shows "keeps (amm_mint m u w v to)" "keeps (amm_burn m u w v to)"
    "keeps (rebalance_swap m u w v to)"
  unfolding amm_mint_def amm_burn_def rebalance_swap_def Let_def
  by (intro bind_query_known valid_intros; auto intro: external_src assms dest: from_address_prefix)+

lemma keeps_distribute_fees [valid_intros]:
  "(\<And>t. is_tip20_prefix t \<Longrightarrow> src t TIP_FEE_MANAGER_ADDRESS) \<Longrightarrow> keeps (distribute_fees validator token)"
  unfolding distribute_fees_def by (intro bind_query_known valid_intros; auto dest: from_address_prefix)

lemma keeps_preferences [valid_intros]:
  "keeps (set_validator_token m token beneficiary)" "keeps (set_user_token m token)"
  unfolding set_validator_token_def set_user_token_def by (intro valid_intros)+

lemma keeps_fee_exec:
  assumes "external_account m" "\<And>t. is_tip20_prefix t \<Longrightarrow> src t TIP_FEE_MANAGER_ADDRESS"
  shows "keeps (fee_exec beneficiary m call)"
  by (cases call) (simp_all add: discard_def, (intro valid_intros assms; assumption)+)

text \<open>Every token method except completing a quote token update.\<close>

lemma keeps_token_exec:
  assumes "is_tip20_prefix self" "external_account m" "call \<noteq> CompleteQuoteTokenUpdateCall"
  shows "keeps (token_exec self m call)"
proof -
  have "keeps (token_method self m call)"
    using assms by (cases call) (simp_all add: discard_def since_def, (intro valid_intros; simp add: external_src)+)
  then show ?thesis unfolding token_exec_def by (intro valid_intros)
qed

text \<open>The guard, for a property that does not depend on its receipts.\<close>

lemma keeps_guard_exec:
  assumes free: "\<And>g x self t. P g self t \<Longrightarrow> P (g\<lparr>seen_guard := x\<rparr>) self t"
    and pays: "\<And>t. is_tip20_prefix t \<Longrightarrow> src t RECEIVE_POLICY_GUARD_ADDRESS"
  shows "keeps (guard_exec m call)"
proof -
  have on: "keeps (on_guard x)" for x :: "(receive_policy_guard, 'x) op"
    by (rule validI) (use free in \<open>auto simp: run_simps all_tokens_def\<close>)
  have release: "keeps (release_blocked_funds self originator receiver to v mode auth)" if "is_tip20_prefix self"
    for self originator receiver to v mode auth
    unfolding release_blocked_funds_def Let_def using that pays
    by (intro bind_query_known valid_intros; auto simp: recipient_validate_def rensure_eq_Inr)
  have "keeps (claim m to r)" "keeps (burn_blocked_receipt m r)" for to r
    unfolding claim_def burn_blocked_receipt_def Let_def
    by (intro bind_query_known valid_intros on release; auto intro: pays dest: from_address_prefix)+
  then show ?thesis by (cases call) simp_all
qed

text \<open>The reserve, for a property that does not depend on its channels.\<close>

lemma keeps_reserve_storage:
  assumes "\<And>g r self t. P g self t \<Longrightarrow> P (g\<lparr>seen_reserve := r\<rparr>) self t"
  shows "keeps (on_reserve x)" "keeps (write_channel_state cid st)"
    "keeps (delete_channel_state_and_credit_payer cid pay)" "keeps (write_channel_state_spending_credit pay cid st)"
proof -
  have on: "keeps (on_reserve y)" for y :: "(tip20_channel_reserve, 'x) op"
    by (rule validI) (use assms in \<open>auto simp: run_simps all_tokens_def\<close>)
  then have w: "keeps (write_channel_state cid st)" "keeps (write_channel_storage_credits pay n)" for cid st pay n
    unfolding write_channel_state_def write_channel_storage_credits_def by (intro valid_intros on)+
  have b: "keeps (track_minted_credits a f)" "keeps (with_budget a n f)" if "keeps f" for a n f
    unfolding track_minted_credits_def with_budget_def by (intro valid_intros that)+
  have c: "keeps (credit_channel_storage_slots pay n)" for pay n
    unfolding credit_channel_storage_slots_def Let_def by (intro valid_intros w b)
  show "keeps (on_reserve x)" by (rule on)
  show "keeps (write_channel_state cid st)" by (rule w)
  show "keeps (delete_channel_state_and_credit_payer cid pay)" "keeps (write_channel_state_spending_credit pay cid st)"
    unfolding delete_channel_state_and_credit_payer_def write_channel_state_spending_credit_def Let_def
    by (intro valid_intros w b c)+
qed

lemma keeps_reserve_exec:
  assumes free: "\<And>g r self t. P g self t \<Longrightarrow> P (g\<lparr>seen_reserve := r\<rparr>) self t"
    and pays: "\<And>t. is_tip20_prefix t \<Longrightarrow> src t TIP20_CHANNEL_RESERVE_ADDRESS" and m: "external_account m"
  shows "keeps (reserve_exec m call)"
proof -
  note storage = keeps_reserve_storage[OF free]
  have "keeps (channel_open m oc)" "keeps (channel_settle m d n sig)" "keeps (channel_top_up m d n)"
    "keeps (channel_request_close m d)" "keeps (channel_close m d n n' sig)" "keeps (channel_withdraw m d)" for oc d n n' sig
    unfolding channel_open_def channel_settle_def channel_top_up_def channel_request_close_def channel_close_def
      channel_withdraw_def emit_reserve_def discard_def Let_def
    by (intro bind_query_known valid_intros storage; auto intro: pays external_src m dest: from_address_prefix)+
  then have "keeps (reserve_method m call)" by (cases call) (simp_all add: discard_def, (intro valid_intros; assumption)+)
  then show ?thesis unfolding reserve_exec_def by (intro valid_intros)
qed

end

section \<open>All steps of the chain\<close>

text \<open>A registry call changes receive policies at most for its sender.\<close>

lemma tip403_exec_receive:
  assumes "tip403_exec m call e r = Inr (x, r', l)"
  shows "\<exists>y. receive_policies r' = (receive_policies r)(m := y)"
proof (cases "\<exists>x y z. call = SetReceivePolicy x y z")
  case True
  then show ?thesis using assms
    by (intro exI[of _ "receive_policies r' m"]) (auto simp: set_receive_policy_def run_simps Let_def emit403_def split: prod.splits)
next
  case False
  have small: "preserves e (\<lambda>r. receive_policies r = rp) allocate_policy_id"
    "preserves e (\<lambda>r. receive_policies r = rp) (set_policy_data i d)" "preserves e (\<lambda>r. receive_policies r = rp) (set_policy_set i a b)"
    "preserves e (\<lambda>r. receive_policies r = rp) (emit403 ev)" for rp i d a b ev
    by (rule validI; auto simp: allocate_policy_id_def set_policy_data_def set_policy_set_def emit403_def run_simps)+
  have "preserves e (\<lambda>r. receive_policies r = rp) (case t of WHITELIST \<Rightarrow> emit403 x | BLACKLIST \<Rightarrow> emit403 y | _ \<Rightarrow> throw z)" for rp t x y z
    by (cases t) (simp_all add: small, (intro valid_intros)+)
  note small = small this preserves_foreach
  have "preserves e (\<lambda>r. receive_policies r = rp) (tip403_exec m call)" for rp
    using False
    by (cases call)
      (simp_all add: discard_def since_def create_policy_def create_policy_with_accounts_def set_policy_admin_def
        modify_policy_whitelist_def modify_policy_blacklist_def create_compound_policy_def,
      (intro valid_intros small; simp)+)
  from validD[OF this refl assms] show ?thesis by (metis fun_upd_triv)
qed

text \<open>
  Steps that set a quote token: completing an update, and creating a token. A law for which the
  precompiles that hold funds may pay from them, and that the methods of the guard keep, survives
  every other step.
\<close>

definition sets_quote :: "env \<Rightarrow> chain \<Rightarrow> chain \<Rightarrow> bool" where
  "sets_quote e c c' \<longleftrightarrow>
     (\<exists>self m l. is_tip20_prefix self \<and> deployed c self \<and> complete_quote_token_update self m e c = Inr ((), c', l)) \<or>
     (\<exists>m call l. factory_exec m call e c = Inr ((), c', l)) \<or>
     (\<exists>a nam symb cur q admin x l. create_token_reserved_address a nam symb cur q admin e c = Inr (x, c', l))"

locale guarded_calls_law = guarded_law +
  assumes custodian_src: "is_tip20_prefix self \<Longrightarrow>
      K \<in> {TIP_FEE_MANAGER_ADDRESS, STABLECOIN_DEX_ADDRESS} \<Longrightarrow> src self K"
    and guard_law: "is_t6 (spec e) \<Longrightarrow> external_account m \<Longrightarrow> preserves e (all_tokens P) (guard_exec m call)"
    and receive_law: "external_account m \<Longrightarrow> P g self t \<Longrightarrow> P (g\<lparr>seen_receive := (seen_receive g)(m := x)\<rparr>) self t"
    and reserve_law: "is_t5 (spec e) \<Longrightarrow> external_account m \<Longrightarrow> preserves e (all_tokens P) (reserve_exec m rcall)"
    and start_law: "P g self t \<Longrightarrow> P (g\<lparr>seen_reserve := (seen_reserve g)\<lparr>opened_this_tx := op, channel_open_context_hash := hash\<rparr>\<rparr>) self t"
begin

lemma keeps_tip403_exec:
  assumes "external_account m"
  shows "keeps (on_tip403 (tip403_exec m call))"
proof (rule validI)
  fix c x c' l assume c: "all_tokens P c" and "on_tip403 (tip403_exec m call) e c = Inr (x, c', l)"
  then obtain r where run: "tip403_exec m call e (tip403 c) = Inr (x, r, l)" and c': "c' = c\<lparr>tip403 := r\<rparr>" by (auto simp: run_simps)
  from tip403_exec_receive[OF run] obtain y where "receive_policies r = (receive_policies (tip403 c))(m := y)" by blast
  then have "surroundings_of c' = (surroundings_of c)\<lparr>seen_receive := (seen_receive (surroundings_of c))(m := y)\<rparr>" by (simp add: c')
  moreover have "tokens c' = tokens c" by (simp add: c')
  ultimately show "all_tokens P c'" using c receive_law[OF assms] unfolding all_tokens_def by metis
qed

lemma keeps_other_calls:
  assumes m: "external_account m" and call: "\<And>self. call \<noteq> TokenCall self CompleteQuoteTokenUpdateCall" "\<And>f. call \<noteq> FactoryCall f"
  shows "keeps (chain_exec beneficiary m call)"
proof (cases call)
  case (TokenCall self tc)
  then have "keeps (token_exec self m tc)" if "is_tip20_prefix self" using that call m by (intro keeps_token_exec) auto
  then show ?thesis unfolding TokenCall chain_exec.simps by (intro bind_ensure_known)
next
  case (GuardCall g)
  have "keeps (since T6 (guard_exec m g))"
    unfolding since_def by (intro bind_query_known) (use guard_law[OF _ m] in \<open>simp add: rensure_eq_Inr is_t6_def\<close>)
  with GuardCall show ?thesis by simp
next
  case (FeeCall f)
  then show ?thesis unfolding FeeCall chain_exec.simps by (intro keeps_fee_exec m) (simp_all add: custodian_src)
next
  case (TIP403Call t)
  then show ?thesis by (simp add: keeps_tip403_exec[OF m])
next
  case (ReserveCall r)
  have "keeps (since T5 (reserve_exec m r))"
    unfolding since_def by (intro bind_query_known) (use reserve_law[OF _ m] in \<open>simp add: rensure_eq_Inr is_t5_def\<close>)
  with ReserveCall show ?thesis by simp
qed (use call in \<open>simp_all add: discard_def since_def\<close>, (intro valid_intros)+)

lemma complete_call_sets_quote:
  "chain_exec beneficiary m (TokenCall self CompleteQuoteTokenUpdateCall) e c = Inr (u, c', l) \<Longrightarrow> sets_quote e c c'"
  unfolding sets_quote_def by (auto simp: token_exec_def bind_eq_Inr ensure_eq_Inr)

lemma step_keeps_or_sets_quote: "chain_step e c c' \<Longrightarrow> all_tokens P c \<Longrightarrow> all_tokens P c' \<or> sets_quote e c c'"
proof (induction rule: chain_step.induct)
  case (step_call m beneficiary call c u c' l)
  show ?case
  proof (cases "\<exists>self f. call = TokenCall self CompleteQuoteTokenUpdateCall \<or> call = FactoryCall f")
    case True
    then consider (quote) self where "call = TokenCall self CompleteQuoteTokenUpdateCall" | (new) f where "call = FactoryCall f"
      by blast
    then have "sets_quote e c c'"
    proof cases
      case quote
      then show ?thesis using step_call(2) complete_call_sets_quote by simp
    next
      case new
      then show ?thesis using step_call(2) unfolding sets_quote_def by auto
    qed
    then show ?thesis ..
  next
    case False
    then have "keeps (chain_exec beneficiary m call)" using step_call(1) by (intro keeps_other_calls) auto
    from validD[OF this step_call(3,2)] show ?thesis ..
  qed
next
  case (step_tx_start hash c u c' l)
  then have "tokens c' = tokens c" and "surroundings_of c' = (surroundings_of c)\<lparr>seen_reserve := (seen_reserve (surroundings_of c))
      \<lparr>opened_this_tx := \<lambda>_. False, channel_open_context_hash := hash\<rparr>, seen_words := True\<rparr>"
    by (auto simp: set_channel_open_context_hash_def run_simps clear_transient_def surroundings_of_def words_ok_def word_ok_zero)
  with step_tx_start(2) words_law[OF start_law] have "all_tokens P c'" unfolding all_tokens_def by metis
  then show ?case ..
next
  case (step_fee_pre payer token v beneficiary skip c u c' l)
  from validD[OF keeps_collect_pre[OF step_fee_pre(1)] step_fee_pre(3,2)] show ?case ..
next
  case (step_fee_post payer spent refund token beneficiary c u c' l)
  have "keeps (collect_fee_post_tx payer spent refund token beneficiary)"
    by (intro keeps_collect_post step_fee_post(1)) (simp add: custodian_src)
  from validD[OF this step_fee_post(3,2)] show ?case ..
next
  case (step_tx_key k c u c' l)
  from validD[OF on_other_all_tokens(2) step_tx_key(2,1)] show ?case ..
next
  case (step_tx_origin k c u c' l)
  from validD[OF on_other_all_tokens(2) step_tx_origin(2,1)] show ?case ..
next
  case (step_reserved a nam symb cur q admin c u c' l)
  then show ?case by (auto simp: sets_quote_def)
next
  case (step_pull m token v c u c' l)
  from validD[OF keeps_transfers(5)[OF step_pull(2) external_src[OF step_pull(2,1)]] step_pull(4,3)] show ?case ..
next
  case (step_pull_allowance m token v c u c' l)
  from validD[OF keeps_transfers(3)[OF step_pull_allowance(2)] step_pull_allowance(4,3)] show ?case ..
next
  case (step_pay token to v c u c' l)
  then have "src token STABLECOIN_DEX_ADDRESS" using custodian_src[of token] by auto
  from validD[OF keeps_transfers(1)[OF step_pay(1) this] step_pay(3,2)] show ?case ..
qed

end

text \<open>A law that also survives those steps survives all of them.\<close>

locale guarded_chain_law = guarded_calls_law +
  assumes quote_law: "P g self t \<Longrightarrow> P g self (t\<lparr>quote_token := q\<rparr>)"
    and init_law: "P g self t \<Longrightarrow> P g self (t\<lparr>supply_cap := U128_MAX\<rparr>)"
    and deploy_law: "P g self t \<Longrightarrow> P (g\<lparr>seen_deployed := (seen_deployed g)(a := True)\<rparr>) self t"
begin

lemma keeps_complete_quote [valid_intros]: "keeps (complete_quote_token_update self m)"
  unfolding complete_quote_token_update_def
  by (intro valid_intros on_token_all_tokens) (rule quote_law)

lemma init_fields:
  assumes "P g self t"
  shows "P g self (t\<lparr>tok_name := nam, tok_symbol := symb, currency := cur, quote_token := q, next_quote_token := q,
    supply_cap := U128_MAX\<rparr>)"
  by (rule same[OF _ init_law[OF quote_law[OF assms]]]) (simp add: same_ledger_def)

lemma keeps_initialize [valid_intros]: "keeps (initialize self m nam symb cur q admin)"
proof -
  have dep: "keeps (modify (\<lambda>c. c\<lparr>deployed := (deployed c)(self := True)\<rparr>))"
    using deploy_law[of "surroundings_of c" for c] by (intro preserves_modify) (simp add: all_tokens_def)
  show ?thesis unfolding initialize_def
    by (intro preserves_bind[OF dep] valid_intros on_token_all_tokens) (rule init_fields)
qed

lemma keeps_factory [valid_intros]:
  "keeps (create_token m nam symb cur q admin salt)"
  "keeps (create_token_with_logo m nam symb cur q admin salt logo)"
  "keeps (create_token_reserved_address a nam symb cur q admin)"
  unfolding create_token_with_logo_def create_token_def create_token_reserved_address_def emit_created_def Let_def
  by (intro valid_intros)+

lemma keeps_factory_exec: "keeps (factory_exec m call)"
  by (cases call) (simp_all add: discard_def since_def, (intro valid_intros)+)

lemma sets_quote_keeps: "sets_quote e c c' \<Longrightarrow> all_tokens P c \<Longrightarrow> all_tokens P c'"
  unfolding sets_quote_def
  by (elim disjE exE conjE) (erule validD[rotated 2], (rule keeps_complete_quote keeps_factory_exec keeps_factory(3)), assumption)+

lemma step_keeps: "chain_step e c c' \<Longrightarrow> all_tokens P c \<Longrightarrow> all_tokens P c'"
  using step_keeps_or_sets_quote sets_quote_keeps by blast

end

section \<open>Laws that ignore the guard\<close>

locale token_law =
  fixes e :: env and P :: "(address \<Rightarrow> bool) \<Rightarrow> address \<Rightarrow> tip20_token \<Rightarrow> bool" and src :: "address \<Rightarrow> address \<Rightarrow> bool"
  assumes plain_same: "same_ledger t t' \<Longrightarrow> P d self t \<Longrightarrow> P d self t'"
    and plain_external_src: "is_tip20_prefix self \<Longrightarrow> external_account a \<Longrightarrow> src self a"
    and plain_unprotected_src: "is_tip20_prefix self \<Longrightarrow> \<not> is_protected self a (spec e) \<Longrightarrow> src self a"
    and plain_set_allowance_law: "external_account owner \<Longrightarrow> is_tip20_prefix self \<Longrightarrow>
      preserves e (P d self) (set_allowance owner spender v)"
    and plain_permit_law: "is_tip20_prefix self \<Longrightarrow> preserves e (P d self) (permit self owner spender v deadline y r s)"
    and plain_consume_law: "is_tip20_prefix self \<Longrightarrow>
      valid e (P d self) (consume_allowance owner spender v) (\<lambda>_ t. P d self t \<and> (src self owner \<or> v = 0))"
    and plain_cap_law: "preserves e (P d self) (set_supply_cap self sender v)"
    and plain_transfer_law: "is_tip20_prefix self \<Longrightarrow> src self from \<or> v = 0 \<Longrightarrow> target to \<noteq> 0 \<Longrightarrow>
      preserves e (P d self) (transfer_core self from to v)"
    and plain_burn_law: "is_tip20_prefix self \<Longrightarrow> src self from \<Longrightarrow>
      preserves e (P d self) (bind (transfer_core self from (direct ADDRESS_ZERO) v) (\<lambda>_. reduce_supply self v))"
    and plain_mint_law: "is_tip20_prefix self \<Longrightarrow>
      preserves e (P d self) (bind (gets total_supply) (\<lambda>supply. mint_core self to supply v))"
    and plain_claim_law: "is_tip20_prefix self \<Longrightarrow> external_account a \<Longrightarrow> preserves e (P d self) (claim_core self a)"
    and plain_distribute_law: "is_tip20_prefix self \<Longrightarrow> external_account a \<Longrightarrow> preserves e (P d self) (distribute_core self a v)"
    and plain_recipient_law: "is_tip20_prefix self \<Longrightarrow> external_account a \<Longrightarrow> \<not> is_t7 (spec e) \<Longrightarrow>
      preserves e (P d self) (set_recipient_core self a to_account)"
    and plain_fee_pre_law: "is_tip20_prefix self \<Longrightarrow> external_account a \<Longrightarrow> preserves e (P d self) (fee_pre_core self a v)"
    and plain_fee_post_law: "is_tip20_prefix self \<Longrightarrow> external_account a \<Longrightarrow> src self TIP_FEE_MANAGER_ADDRESS \<Longrightarrow>
      preserves e (P d self) (fee_post_core self a v)"
begin

sublocale guarded_law e "\<lambda>g. P (seen_deployed g)" src
proof unfold_locales
  fix self c v t' l originator rcp recovery reason kind memo n g' l2 and "from" :: address
  assume self: "is_tip20_prefix self" and all: "all_tokens (\<lambda>g. P (seen_deployed g)) c"
    and "(src self from \<or> v = 0) \<and> transfer_core self from (direct RECEIVE_POLICY_GUARD_ADDRESS) v e (tokens c self) = Inr ((), t', l) \<or>
      mint_core self (direct RECEIVE_POLICY_GUARD_ADDRESS) (total_supply (tokens c self)) v e (tokens c self) = Inr ((), t', l)"
  then have "P (deployed c) self t'"
    using plain_transfer_law[OF self, of "from" v "direct RECEIVE_POLICY_GUARD_ADDRESS" "deployed c"]
      plain_mint_law[OF self, of "deployed c" "direct RECEIVE_POLICY_GUARD_ADDRESS" v]
    by (auto simp: valid_def all_tokens_def bind_exec direct_def RECEIVE_POLICY_GUARD_ADDRESS_def)
  with all show "all_tokens (\<lambda>g. P (seen_deployed g)) (c\<lparr>tokens := (tokens c)(self := t'), guard := g'\<rparr>)"
    by (simp add: all_tokens_def)
next
  show "P (seen_deployed g) self t \<Longrightarrow> P (seen_deployed (g\<lparr>seen_words := True\<rparr>)) self t" for g self t by simp
qed (fact plain_same plain_external_src plain_unprotected_src plain_set_allowance_law plain_permit_law plain_consume_law plain_cap_law plain_transfer_law plain_burn_law plain_mint_law
    plain_claim_law plain_distribute_law plain_recipient_law plain_fee_pre_law plain_fee_post_law)+

end

text \<open>Laws about the parts of the surroundings other than the guard, beside a law for every value of them.\<close>

lemma guarded_law_of_token_laws:
  assumes law: "\<And>x. token_law e (\<lambda>_. R x) src"
    and block: "\<And>self c v t' l originator rcp recovery reason kind memo n g' l2 from.
      is_tip20_prefix self \<Longrightarrow> is_t6 (spec e) \<Longrightarrow> all_tokens (\<lambda>s self t. Q s \<and> R (b s) self t) c \<Longrightarrow>
      (src self from \<or> v = 0) \<and> transfer_core self from (direct RECEIVE_POLICY_GUARD_ADDRESS) v e (tokens c self) = Inr ((), t', l) \<or>
      mint_core self (direct RECEIVE_POLICY_GUARD_ADDRESS) (total_supply (tokens c self)) v e (tokens c self) = Inr ((), t', l) \<Longrightarrow>
      store_blocked self originator rcp recovery v reason kind memo e (guard c) = Inr (n, g', l2) \<Longrightarrow>
      all_tokens (\<lambda>s self t. Q s \<and> R (b s) self t) (c\<lparr>tokens := (tokens c)(self := t'), guard := g'\<rparr>)"
    and words: "\<And>s. Q s \<Longrightarrow> Q (s\<lparr>seen_words := True\<rparr>)" "\<And>s. b (s\<lparr>seen_words := True\<rparr>) = b s"
  shows "guarded_law e (\<lambda>s self t. Q s \<and> R (b s) self t) src"
proof -
  have both: "preserves e (\<lambda>t. Q s \<and> R x self t) m" if "preserves e (R x self) m" for s x self and m :: "(tip20_token, 'z) op"
    using that by (auto simp: valid_def)
  have post: "valid e (\<lambda>t. Q s \<and> R x self t) m (\<lambda>_ t. (Q s \<and> R x self t) \<and> z)" if "valid e (R x self) m (\<lambda>_ t. R x self t \<and> z)"
    for s x self z and m :: "(tip20_token, 'z) op"
    using that by (auto simp: valid_def)
  note facts = token_law.plain_set_allowance_law[OF law] token_law.plain_permit_law[OF law]
    token_law.plain_cap_law[OF law] token_law.plain_transfer_law[OF law] token_law.plain_burn_law[OF law]
    token_law.plain_mint_law[OF law] token_law.plain_claim_law[OF law] token_law.plain_distribute_law[OF law]
    token_law.plain_recipient_law[OF law] token_law.plain_fee_pre_law[OF law] token_law.plain_fee_post_law[OF law]
  show ?thesis
    by unfold_locales
      (use token_law.plain_same[OF law] in blast | (use words in \<open>simp; fail\<close>) |
       fact token_law.plain_external_src[OF law] token_law.plain_unprotected_src[OF law] block |
       (rule both, (rule facts; assumption)) | (rule post, (rule token_law.plain_consume_law[OF law]; assumption)))+
qed

locale calls_law = token_law +
  assumes all_custodian_src: "is_tip20_prefix self \<Longrightarrow> K \<in> {TIP_FEE_MANAGER_ADDRESS, STABLECOIN_DEX_ADDRESS,
      TIP20_CHANNEL_RESERVE_ADDRESS, RECEIVE_POLICY_GUARD_ADDRESS} \<Longrightarrow> src self K"
begin

sublocale guarded_calls_law e "\<lambda>g. P (seen_deployed g)" src
  by unfold_locales (auto intro: all_custodian_src keeps_guard_exec keeps_reserve_exec)

lemma calls_keep: "chain_step e c c' \<Longrightarrow> all_tokens (\<lambda>g. P (seen_deployed g)) c \<Longrightarrow> all_tokens (\<lambda>g. P (seen_deployed g)) c' \<or> sets_quote e c c'"
  by (rule step_keeps_or_sets_quote)

end

locale chain_law = calls_law +
  assumes plain_quote_law: "P d self t \<Longrightarrow> P d self (t\<lparr>quote_token := q\<rparr>)"
    and plain_init_law: "P d self t \<Longrightarrow> P d self (t\<lparr>supply_cap := U128_MAX\<rparr>)"
    and plain_deploy_law: "P d self t \<Longrightarrow> P (d(a := True)) self t"
begin

sublocale guarded_chain_law e "\<lambda>g. P (seen_deployed g)" src
  by unfold_locales (simp_all add: plain_quote_law plain_init_law plain_deploy_law)

lemma law_keeps: "chain_step e c c' \<Longrightarrow> all_tokens (\<lambda>g. P (seen_deployed g)) c \<Longrightarrow> all_tokens (\<lambda>g. P (seen_deployed g)) c'"
  by (rule step_keeps)

end

end
