(* ===== verification/TIP20_Liveness.thy ===== *)
theory TIP20_Liveness
  imports TIP20_Supply
begin

text \<open>
  The ledger operations do succeed. Their reward bookkeeping multiplies, adds and narrows with
  checks that would fail the whole transfer; under the ledger invariant none of these checks
  can fail, so an account that holds an amount can always move it and claim its rewards.
\<close>

section \<open>Bounds\<close>

lemma precision_value: "precision = 10 ^ 18"
  by (simp add: ACC_PRECISION_def)

lemma supply_bound: "supply_ok t \<Longrightarrow> total_of (balances t) < 2 ^ 128"
proof -
  assume "supply_ok t"
  then have "total_of (balances t) \<le> unat U128_MAX" by (simp add: supply_ok_def word_le_nat_alt)
  also have "\<dots> < 2 ^ 128" by (simp add: U128_MAX_def)
  finally show ?thesis .
qed

lemma balance_bound: "supply_ok t \<Longrightarrow> unat (balances t a) < 2 ^ 128"
  using supply_bound[of t] total_ge[of "balances t" a] by simp

lemma owed_ge: "owed_amount (global_reward_per_token t) (balances t a) (reward_infos t a) \<le> owed_sum t"
  unfolding owed_sum_def by (rule member_le_sum) auto

lemma owed_bound:
  assumes "ledger_inv h self t" "\<not> is_t8 h"
  shows "owed_sum t < precision * 2 ^ 128"
proof -
  have "owed_sum t \<le> precision * unat (balances t self)" and "supply_ok t"
    using assms by (simp_all add: ledger_inv_def rewards_inv_def rewards_ok_def)
  with balance_bound[of t self] show ?thesis
    using precision_pos by (meson le_less_trans mult_less_mono2)
qed

lemma reward_bound:
  assumes "ledger_inv h self t" "\<not> is_t8 h"
  shows "unat (reward_balance (reward_infos t a)) < 2 ^ 128"
    and "recipient_of t a \<noteq> 0 \<Longrightarrow>
      unat (balances t a) * (unat (global_reward_per_token t) - unat (snapshot t a)) < 2 ^ 188"
proof -
  have b: "precision * unat (reward_balance (reward_infos t a)) +
      opted_amount (reward_infos t a) (balances t a) * (unat (global_reward_per_token t) - unat (snapshot t a)) < precision * 2 ^ 128"
    using owed_ge[of t a] owed_bound[OF assms] by (simp add: owed_amount_def)
  then have "precision * unat (reward_balance (reward_infos t a)) < precision * 2 ^ 128" by linarith
  then show "unat (reward_balance (reward_infos t a)) < 2 ^ 128" by simp
  assume "recipient_of t a \<noteq> 0"
  with b have "unat (balances t a) * (unat (global_reward_per_token t) - unat (snapshot t a)) < precision * 2 ^ 128"
    by (simp add: opted_amount_def)
  then show "unat (balances t a) * (unat (global_reward_per_token t) - unat (snapshot t a)) < 2 ^ 188"
    by (simp add: precision_value)
qed

lemma opted_le_total:
  "recipient_of t a = 0 \<Longrightarrow> opted_sum t + unat (balances t a) \<le> total_of (balances t)"
proof -
  assume a: "recipient_of t a = 0"
  have "opted_sum t = (\<Sum>k \<in> UNIV - {a}. opted_amount (reward_infos t k) (balances t k))"
    unfolding opted_sum_def using a by (simp add: sum.remove[of UNIV a] opted_amount_def)
  also have "\<dots> \<le> (\<Sum>k \<in> UNIV - {a}. unat (balances t k))"
    by (rule sum_mono) (simp add: opted_amount_def)
  finally show ?thesis by (simp add: total_of_def sum.remove[of UNIV a])
qed

lemma opted_ge: "recipient_of t a \<noteq> 0 \<Longrightarrow> unat (balances t a) \<le> opted_sum t"
  unfolding opted_sum_def
  using member_le_sum[of a UNIV "\<lambda>k. opted_amount (reward_infos t k) (balances t k)"]
  by (simp add: opted_amount_def)

section \<open>Settling rewards\<close>

lemma accrued_total:
  assumes "unat b * unat delta < 2 ^ 188"
  shows "\<exists>r. accrued b delta = Some r \<and> unat r < 2 ^ 188"
proof -
  obtain v where v: "checked_mul b delta = Some v" "unat v = unat b * unat delta"
    using assms by (cases "checked_mul b delta") (auto simp: checked_simps)
  have nz: "ACC_PRECISION \<noteq> 0" by (simp add: ACC_PRECISION_def)
  have "accrued b delta = Some (v div ACC_PRECISION)" using v(1) nz by (simp add: accrued_def checked_div_def)
  moreover have "unat (v div ACC_PRECISION) < 2 ^ 188"
    unfolding unat_div using assms v(2) by (simp only:) (rule le_less_trans[OF div_le_dividend])
  ultimately show ?thesis by blast
qed

lemma checked_add_small: "unat a < 2 ^ 200 \<Longrightarrow> unat b < 2 ^ 200 \<Longrightarrow> \<exists>c. checked_add a b = Some (c :: u256)"
  by (cases "checked_add a b") (auto simp: checked_simps)

lemma credit_delegate_total:
  assumes inv: "ledger_inv (spec e) self t" "\<not> is_t8 (spec e)"
    and delta: "unat (global_reward_per_token t) = unat delta + unat (snapshot t a)" and r: "recipient_of t a \<noteq> 0"
  shows "\<exists>i t1. credit_delegate a (reward_infos t a) delta e t = Inr (i, t1, [])"
proof -
  obtain v where v: "accrued (balances t a) delta = Some v" "unat v < 2 ^ 188"
    using accrued_total[of "balances t a" delta] reward_bound(2)[OF inv r] delta by auto
  have "\<exists>b. checked_add (reward_balance (reward_infos t k)) v = Some b" for k
    by (rule checked_add_small) (use v(2) reward_bound(1)[OF inv, of k] in simp_all)
  then obtain f where "\<And>k. checked_add (reward_balance (reward_infos t k)) v = Some (f k)" by metis
  then show ?thesis using v(1)
    by (simp add: credit_delegate_def Let_def exec_simps set_reward_info_def)
qed

lemma update_rewards_total:
  assumes inv: "ledger_inv (spec e) self t"
  shows "\<exists>d t1. update_rewards a e t = Inr (d, t1, [])"
proof (cases "is_t8 (spec e)")
  case True
  then show ?thesis by (simp add: update_rewards_t8)
next
  case False
  let ?g = "global_reward_per_token t"
  have "snapshot t a \<le> ?g" using inv False by (simp add: ledger_inv_def rewards_inv_def rewards_ok_def)
  then have sub: "checked_sub ?g (snapshot t a) = Some (?g - snapshot t a)" by (simp add: checked_sub_def)
  then have delta: "unat ?g = unat (?g - snapshot t a) + unat (snapshot t a)" by (simp add: checked_simps)
  have "\<exists>i t1. credit_delegate a (reward_infos t a) (?g - snapshot t a) e t = Inr (i, t1, [])" if "recipient_of t a \<noteq> 0"
    by (rule credit_delegate_total[OF inv False delta that])
  then show ?thesis using sub False
    by (cases "recipient_of t a = 0")
      (auto simp: update_rewards_def exec_simps bind_andthen[of "credit_delegate x y z" for x y z] set_reward_info_def)
qed

section \<open>Transfers\<close>

lemma ledger_supply_ok: "ledger_inv h self t \<Longrightarrow> supply_ok t"
  by (simp add: ledger_inv_def)

lemma ledger_opted: "ledger_inv h self t \<Longrightarrow> \<not> is_t8 h \<Longrightarrow> unat (opted_in_supply t) = opted_sum t"
  by (simp add: ledger_inv_def rewards_inv_def rewards_ok_def)

lemma sub_opted_total:
  assumes "unat v \<le> unat (opted_in_supply t)"
  shows "\<exists>n. sub_opted_in v e t = Inr ((), t\<lparr>opted_in_supply := n\<rparr>, [])"
proof -
  obtain w where w: "checked_sub (ucast (opted_in_supply t)) v = Some w" "unat w \<le> unat (opted_in_supply t)"
    using assms by (cases "checked_sub (ucast (opted_in_supply t)) v") (auto simp: checked_simps unat_ucast_up)
  have "unat w < 2 ^ 128" using w(2) unat_bound[of "opted_in_supply t"] by simp
  then obtain n where "(try_into w :: u128 option) = Some n"
    by (cases "try_into w :: u128 option") (auto simp: checked_simps)
  with w(1) show ?thesis by (intro exI[of _ n]) (simp add: sub_opted_in_def set_opted_in_def exec_simps)
qed

lemma add_opted_total:
  assumes "unat (opted_in_supply t) + unat v < 2 ^ 128"
  shows "\<exists>n. add_opted_in v e t = Inr ((), t\<lparr>opted_in_supply := n\<rparr>, [])"
proof -
  obtain w where w: "checked_add (ucast (opted_in_supply t)) v = Some w" "unat w = unat (opted_in_supply t) + unat v"
    using assms by (cases "checked_add (ucast (opted_in_supply t)) v") (auto simp: checked_simps unat_ucast_up)
  then obtain n where "(try_into w :: u128 option) = Some n"
    using assms by (cases "try_into w :: u128 option") (auto simp: checked_simps)
  with w(1) show ?thesis by (intro exI[of _ n]) (simp add: add_opted_in_def set_opted_in_def exec_simps)
qed

lemma settle_two:
  assumes inv: "ledger_inv (spec e) self t"
  obtains t1 t2 where "update_rewards a e t = Inr (if is_t8 (spec e) then 0 else recipient_of t a, t1, [])"
    "update_rewards b e t1 = Inr (if is_t8 (spec e) then 0 else recipient_of t b, t2, [])"
    "ledger_inv (spec e) self t2" "balances t2 = balances t" "\<forall>k. recipient_of t2 k = recipient_of t k"
proof -
  obtain d1 t1 where u1: "update_rewards a e t = Inr (d1, t1, [])" using update_rewards_total[OF inv] by blast
  note k1 = update_rewards_keeps[OF u1 inv]
  obtain d2 t2 where u2: "update_rewards b e t1 = Inr (d2, t2, [])" using update_rewards_total[OF k1(1)] by blast
  note k2 = update_rewards_keeps[OF u2 k1(1)]
  show thesis by (rule that[of t1 t2]) (use u1 u2 k1 k2 in auto)
qed

lemma hook_total:
  assumes inv: "ledger_inv (spec e) self t" and v: "v \<le> balances t a"
  shows "\<exists>t1. handle_rewards_on_transfer a b v e t = Inr ((), t1, []) \<and> balances t1 = balances t"
proof -
  obtain t1 t2 where u1: "update_rewards a e t = Inr (if is_t8 (spec e) then 0 else recipient_of t a, t1, [])"
    and u2: "update_rewards b e t1 = Inr (if is_t8 (spec e) then 0 else recipient_of t b, t2, [])"
    and inv2: "ledger_inv (spec e) self t2" and bal: "balances t2 = balances t" and rec: "\<forall>k. recipient_of t2 k = recipient_of t k"
    by (rule settle_two[OF inv, of a b])
  note exec = handle_rewards_on_transfer_def bind_andthen[of "update_rewards k" for k] u1 u2 exec_simps
  have out: "\<exists>n. sub_opted_in v e t2 = Inr ((), t2\<lparr>opted_in_supply := n\<rparr>, [])"
    if "recipient_of t a \<noteq> 0" "\<not> is_t8 (spec e)"
    by (rule sub_opted_total)
      (use that v opted_ge[of t2 a] in \<open>simp add: ledger_opted[OF inv2] rec bal word_le_nat_alt\<close>)
  have into: "\<exists>n. add_opted_in v e t2 = Inr ((), t2\<lparr>opted_in_supply := n\<rparr>, [])"
    if "recipient_of t a = 0" "\<not> is_t8 (spec e)"
    by (rule add_opted_total)
      (use that v opted_le_total[of t2 a] supply_bound[OF ledger_supply_ok[OF inv2]] in
        \<open>simp add: ledger_opted[OF inv2] rec bal word_le_nat_alt\<close>)
  from out into show ?thesis
    by (cases "is_t8 (spec e)"; cases "recipient_of t a = 0"; cases "recipient_of t b = 0") (auto simp: exec bal)
qed

lemma increment_total_ok:
  assumes "unat (balances t a) + unat v < 2 ^ 256"
  shows "increment_balance a v e t = Inr ((), with_balance a (balances t a + v) t, [])"
  using assms by (subst increment_balance_Inr) simp

lemma transfer_core_total:
  assumes inv: "ledger_inv (spec e) self t" and v: "v \<le> balances t from"
  shows "\<exists>t' l. transfer_core self from to v e t = Inr ((), t', l)"
proof -
  obtain t1 where h: "handle_rewards_on_transfer from (target to) v e t = Inr ((), t1, [])" and b: "balances t1 = balances t"
    using hook_total[OF inv v] by blast
  let ?t2 = "t1\<lparr>balances := (balances t)(from := balances t from - v)\<rparr>"
  have dec: "decrement_balance self from v e t1 = Inr ((), ?t2, [])"
    using v by (subst decrement_balance_Inr) (simp add: b)
  have sub: "checked_sub (balances t from) v = Some (balances t from - v)" using v by (simp add: checked_sub_def)
  have two: "unat (balances ?t2 k) + unat v < 2 ^ 256" for k
    using balance_bound[OF ledger_supply_ok[OF inv], of k] balance_bound[OF ledger_supply_ok[OF inv], of "from"] v
    by (auto simp: b word_le_nat_alt unat_sub)
  note inc = increment_total_ok[OF two]
  show ?thesis using v h
    by (cases "target to = 0"; cases "is_t8 (spec e)")
      (auto simp: transfer_core_def exec_simps bind_andthen[of "handle_rewards_on_transfer x y z" for x y z]
        bind_andthen[of "decrement_balance x y z" for x y z] dec sub set_balance_def b
        bind_andthen[of "increment_balance x y" for x y] inc emit20_def)
qed

section \<open>Claims\<close>

lemma checked_sub_0: "checked_sub x 0 = Some x"
  by (simp add: checked_sub_def)

lemma claim_core_total:
  assumes inv: "ledger_inv (spec e) self t" and a: "a \<noteq> self"
  shows "\<exists>m t' l. claim_core self a e t = Inr (m, t', l)"
proof -
  obtain d t1 where u: "update_rewards a e t = Inr (d, t1, [])" using update_rewards_total[OF inv] by blast
  note k = update_rewards_keeps[OF u inv]
  let ?m = "reward_balance (reward_infos t1 a)" and ?t2 = "t1\<lparr>reward_infos := (reward_infos t1)(a := reward_infos t1 a\<lparr>reward_balance := 0\<rparr>)\<rparr>"
  have settled: "settled_ok self t1" and sup: "supply_ok t1" using k(1) by (simp_all add: ledger_inv_def rewards_inv_def)
  with settled_ge[of t1 a] have le: "?m \<le> balances t1 self" by (simp add: settled_ok_def word_le_nat_alt)
  then have min: "min ?m (balances t1 self) = ?m" by simp
  have sub: "checked_sub ?m ?m = Some 0" "checked_sub (balances t1 self) ?m = Some (balances t1 self - ?m)"
    using le by (simp_all add: checked_sub_def)
  have two: "unat (balances t1 self) + unat (balances t1 a) < 2 ^ 128"
    using supply_bound[OF sup] total_ge_two[of a self "balances t1"] a by simp
  then have add: "checked_add (balances t1 a) ?m = Some (balances t1 a + ?m)"
    using le by (simp add: checked_add_def word_le_nat_alt)
  have opt: "\<exists>n. add_opted_in ?m e (?t2\<lparr>balances := b\<rparr>) = Inr ((), ?t2\<lparr>balances := b, opted_in_supply := n\<rparr>, [])"
    if "d \<noteq> 0" for b
  proof -
    have t8: "\<not> is_t8 (spec e)" using that k(5) by (simp split: if_splits)
    have "recipient_of t1 self = 0" using k(1) by (simp add: ledger_inv_def rewards_inv_def system_ok_def)
    from opted_le_total[OF this] have "opted_sum t1 + unat ?m < 2 ^ 128"
      using le supply_bound[OF sup] by (simp add: word_le_nat_alt)
    then have "unat (opted_in_supply (?t2\<lparr>balances := b\<rparr>)) + unat ?m < 2 ^ 128" by (simp add: ledger_opted[OF k(1) t8])
    from add_opted_total[OF this, of e] show ?thesis by simp
  qed
  show ?thesis
    using opt[of "(balances t1)(self := balances t1 self - ?m, a := balances t1 a + ?m)"] a
    by (cases "?m = 0"; cases "d = 0")
      (auto simp: claim_core_def bind_andthen[of "update_rewards a"] u exec_simps Let_def min sub add checked_sub_0 set_reward_info_def
        set_balance_def bind_andthen[of "add_opted_in x" for x] emit20_def word_neq_0_conv[symmetric])
qed

text \<open>What a claim pays is what the query for pending rewards reports.\<close>

lemma settled_amount:
  assumes u: "update_rewards a e t = Inr (d, t1, l)" and t8: "\<not> is_t8 (spec e)" and a: "a \<noteq> 0"
  shows "(if recipient_of t a = a \<and> balances t a > 0
      then rbind (rok_or (checked_sub (global_reward_per_token t) (snapshot t a)) under_overflow) (\<lambda>delta.
             if delta > 0
             then rbind (rok_or (accrued (balances t a) delta) under_overflow) (\<lambda>acc.
                  rok_or (checked_add (reward_balance (reward_infos t a)) acc) under_overflow)
             else Inr (reward_balance (reward_infos t a)))
      else Inr (reward_balance (reward_infos t a))) = Inr (reward_balance (reward_infos t1 a))"
proof -
  have zero: "accrued 0 delta = Some r \<Longrightarrow> r = 0" for delta r
    by (auto simp: accrued_def checked_mul_def checked_div_def split: if_splits)
  have one: "checked_add x 0 = Some b \<Longrightarrow> b = x" for x b :: u256
    by (simp add: checked_simps word_unat_eq_iff)
  let ?g = "global_reward_per_token t" and ?info = "reward_infos t a"
  obtain delta where sub: "checked_sub ?g (snapshot t a) = Some delta"
    and w: "whenM (delta \<noteq> 0)
       (bind (if recipient_of t a \<noteq> 0 then credit_delegate a ?info delta else ret ?info) (\<lambda>info'.
        set_reward_info a (info'\<lparr>reward_per_token := ?g\<rparr>))) e t = Inr ((), t1, l)"
    using u t8 by (auto simp: update_rewards_def bind_eq_Inr ok_or_eq_Inr)
  consider "delta = 0" | "delta \<noteq> 0" "recipient_of t a = 0" | "delta \<noteq> 0" "recipient_of t a \<noteq> 0" "recipient_of t a = a"
    | "delta \<noteq> 0" "recipient_of t a \<noteq> 0" "recipient_of t a \<noteq> a" by blast
  then show ?thesis
  proof cases
    case 3
    then obtain r b where r: "accrued (balances t a) delta = Some r" and b: "checked_add (reward_balance ?info) r = Some b"
      and t1: "t1 = t\<lparr>reward_infos := (reward_infos t)(a := ?info\<lparr>reward_balance := b, reward_per_token := ?g\<rparr>)\<rparr>"
      using w by (auto simp: credit_delegate_def run_simps Let_def set_reward_info_def)
    show ?thesis
    proof (cases "balances t a = 0")
      case True
      with r zero have "r = 0" by simp
      with b one have "b = reward_balance ?info" by simp
      with True t1 show ?thesis by simp
    next
      case False
      with 3 r b t1 sub show ?thesis by (simp add: word_neq_0_conv)
    qed
  qed (use w sub a in \<open>auto simp: credit_delegate_def run_simps Let_def set_reward_info_def\<close>)
qed

lemma claim_is_pending:
  assumes run: "claim_core self a e t = Inr (m, t', l)" and inv: "ledger_inv (spec e) self t" and a: "a \<noteq> 0" "a \<noteq> self"
  shows "get_pending_rewards a e t = Inr (ucast m)" "unat (ucast m :: u128) = unat m"
proof -
  from run inv a obtain d t1 n where u: "update_rewards a e t = Inr (d, t1, [])" and m: "m = reward_balance (reward_infos t1 a)"
    by (rule claim_core_Inr)
  note k = update_rewards_keeps[OF u inv]
  have "settled_ok self t1" "supply_ok t1" using k(1) by (simp_all add: ledger_inv_def rewards_inv_def)
  with settled_ge[of t1 a] balance_bound[of t1 self] have small: "unat m < 2 ^ 128" by (simp add: settled_ok_def m)
  then have fits: "(try_into m :: u128 option) = Some (ucast m)" by (simp add: try_into_def)
  then show "unat (ucast m :: u128) = unat m" by (simp add: checked_simps)
  show "get_pending_rewards a e t = Inr (ucast m)"
  proof (cases "is_t8 (spec e)")
    case True
    then have "t1 = t" using u by (simp add: update_rewards_t8)
    with True fits show ?thesis by (simp add: get_pending_rewards_def m Let_def)
  next
    case False
    then show ?thesis using fits unfolding get_pending_rewards_def Let_def settled_amount[OF u False a(1)] by (simp add: m)
  qed
qed

end
