(* ===== verification/Chain_Examples.thy ===== *)
theory Chain_Examples
  imports Chain_Calls Tempo_Bytes
begin

text \<open>
  A small concrete chain at T5, used to show that the hypotheses of the chain-wide theorems can
  hold: a protocol token at its reserved address, an issuer, two holders, and a reward.
\<close>

section \<open>A hash function for the examples\<close>

text \<open>
  The examples hash a byte string to the second of its 32-byte words, with the low half of the
  first word on top, and a string of nine words (a channel descriptor) to the fourth: enough to
  tell apart the receipts and the channels of different tokens and the pools of different token
  pairs.
\<close>

definition demo_hash :: "u8 list \<Rightarrow> b256" where
  "demo_hash bs = (if length bs = 288 then of_nat (be_nat (take 32 (drop 96 bs)))
     else of_nat (be_nat (take 32 bs) mod 2 ^ 64 * 2 ^ 160 + be_nat (take 32 (drop 32 bs)) mod 2 ^ 160))"

definition chain_env :: "tempo_hardfork \<Rightarrow> env" where
  "chain_env h = (demo_env h 1000)\<lparr>keccak256 := demo_hash\<rparr>"

lemma chain_env_facts [simp]: "spec (chain_env h) = h" "keccak256 (chain_env h) = demo_hash" "no_system_keys (chain_env h)"
  by (simp_all add: chain_env_def demo_env_def no_system_keys_def)

section \<open>States\<close>

text \<open>Every account has access keys that may spend 700 of each token, until time 2000.\<close>

definition demo_keychain :: account_keychain where
  "demo_keychain =
     \<lparr>keys = (\<lambda>_ _. \<lparr>key_signature_type = StoredP256, expiry = 2000, enforce_limits = True, is_revoked = False, is_admin = False\<rparr>),
      spending_limits = (\<lambda>_ _. \<lparr>remaining = 700, limit_max = 700, period = 0, period_end = 0\<rparr>),
      key_scopes = (\<lambda>_. \<lparr>is_scoped = False, targets = storage_of [],
        target_scopes = (\<lambda>_. \<lparr>selectors = storage_of [], selector_scopes = (\<lambda>_. storage_of [])\<rparr>)\<rparr>),
      key_authorization_witnesses = (\<lambda>_ _. False), transaction_key = 0, tx_origin = 0\<rparr>"

abbreviation ISSUER :: address where "ISSUER \<equiv> 0xA1"
abbreviation ALICE :: address where "ALICE \<equiv> 0xA2"
abbreviation BOB :: address where "BOB \<equiv> 0xA3"

definition demo_chain :: "tip20_token \<Rightarrow> chain" where
  "demo_chain t = (genesis_chain demo_keychain)
     \<lparr>deployed := (\<lambda>_. False)(PATH_USD_ADDRESS := True), tokens := (\<lambda>_. token_init)(PATH_USD_ADDRESS := t)\<rparr>"

definition demo_token :: tip20_token where
  "demo_token = token_init\<lparr>tok_name := ''pathUSD'', tok_symbol := ''pathUSD'', currency := ''USD'',
     supply_cap := U128_MAX, legacy_transfer_policy_id := ALLOW_ALL_POLICY_ID,
     role_admins := (\<lambda>_. 0)(UNGRANTABLE_ROLE := UNGRANTABLE_ROLE),
     roles := (\<lambda>_ _. False)(ISSUER := (\<lambda>_. False)(DEFAULT_ADMIN_ROLE := True))\<rparr>"

definition demo_issuer_token :: tip20_token where
  "demo_issuer_token = demo_token\<lparr>roles := (\<lambda>_ _. False)
     (ISSUER := (\<lambda>_. False)(DEFAULT_ADMIN_ROLE := True, ISSUER_ROLE := True))\<rparr>"

text \<open>Alice holds 1000 and collects her own rewards, Bob holds 500.\<close>

definition demo_minted_token :: tip20_token where
  "demo_minted_token = demo_issuer_token\<lparr>total_supply := 1500, balances := (\<lambda>_. 0)(ALICE := 1000, BOB := 500),
     opted_in_supply := 1000, reward_infos := (reward_infos token_init)(ALICE :=
       \<lparr>reward_recipient = ALICE, reward_per_token = 0, reward_balance = 0\<rparr>)\<rparr>"

text \<open>Bob distributed 100 as a reward.\<close>

definition demo_reward_token :: tip20_token where
  "demo_reward_token = demo_minted_token\<lparr>balances := (\<lambda>_. 0)(ALICE := 1000, BOB := 400, PATH_USD_ADDRESS := 100),
     global_reward_per_token := 100000000000000000\<rparr>"

section \<open>The steps between them\<close>

lemma demo_forks [simp]:
  "is_t2 T5" "is_t3 T5" "is_t5 T5" "\<not> is_t6 T5" "\<not> is_t7 T5" "\<not> is_t8 T5" "\<not> is_t9 T5" "T5 \<le> T5" "\<not> T6 \<le> T5"
  by (simp_all add: fork_eval)

lemma path_usd [simp]: "is_tip20_prefix PATH_USD_ADDRESS" "(ucast PATH_USD_ADDRESS :: u64) = 0" "PATH_USD_ADDRESS \<noteq> 0"
  "PATH_USD_ADDRESS \<noteq> ALICE" "PATH_USD_ADDRESS \<noteq> BOB" "PATH_USD_ADDRESS \<noteq> ISSUER"
  by (simp_all add: is_tip20_prefix_def PATH_USD_ADDRESS_def TIP20_TOKEN_PREFIX_def)

lemma demo_chain_simps [simp]:
  "deployed (demo_chain t) = (\<lambda>_. False)(PATH_USD_ADDRESS := True)"
  "tokens (demo_chain t) = (\<lambda>_. token_init)(PATH_USD_ADDRESS := t)"
  "tip403 (demo_chain t) = tip403_init" "addresses (demo_chain t) = registry_init"
  "keychain (demo_chain t) = demo_keychain"
  "token_put PATH_USD_ADDRESS t' (demo_chain t) = demo_chain t'"
  by (simp_all add: demo_chain_def genesis_chain_def token_put_def)

lemmas demo_exec = exec_simps is_tip20_def from_address_def Let_def RESERVED_SIZE_def initialize_roles_def
  grant_default_admin_def emit_role_def grant_role_internal_def set_role_def set_role_admin_internal_def emit_created_def

lemma demo_create:
  "create_token_reserved_address PATH_USD_ADDRESS ''pathUSD'' ''pathUSD'' ''USD'' 0 ISSUER (chain_env T5)
     (genesis_chain demo_keychain) = Inr (PATH_USD_ADDRESS, demo_chain demo_token,
     [(PATH_USD_ADDRESS, RolesAuthEvent (RoleMembershipUpdated DEFAULT_ADMIN_ROLE ISSUER ISSUER True)),
      (TIP20_FACTORY_ADDRESS, TokenCreated PATH_USD_ADDRESS ''pathUSD'' ''pathUSD'' ''USD'' 0 ISSUER 0)])"
  by (simp add: create_token_reserved_address_def initialize_def demo_exec token_put_def genesis_chain_def demo_chain_def
      demo_token_def token_init_def)

lemma demo_grant:
  "chain_exec 0 ISSUER (TokenCall PATH_USD_ADDRESS (GrantRoleCall ISSUER_ROLE ISSUER)) (chain_env T5)
     (demo_chain demo_token) = Inr ((), demo_chain demo_issuer_token,
     [(PATH_USD_ADDRESS, RolesAuthEvent (RoleMembershipUpdated ISSUER_ROLE ISSUER ISSUER True))])"
  by (simp add: token_exec_def grant_role_def check_role_def demo_exec demo_token_def demo_issuer_token_def
      ISSUER_ROLE_def UNGRANTABLE_ROLE_def DEFAULT_ADMIN_ROLE_def)

text \<open>The checks around the ledger operations pass for plain accounts under the allow-all policy.\<close>

definition open_token :: "tip20_token \<Rightarrow> bool" where
  "open_token t \<longleftrightarrow> \<not> paused t \<and> legacy_transfer_policy_id t = ALLOW_ALL_POLICY_ID"

lemma demo_plain [simp]: "decode_virtual ALICE = None" "decode_virtual BOB = None" "\<not> is_virtual ALICE"
  "\<not> is_tip20_prefix ALICE" "\<not> is_tip20_prefix BOB"
  by (simp_all add: decode_virtual_def is_virtual_def VIRTUAL_MAGIC_def is_tip20_prefix_def TIP20_TOKEN_PREFIX_def)

lemma demo_allow_all [simp]: "is_authorized_as ALLOW_ALL_POLICY_ID a role e r = Inr True"
  by (simp add: is_authorized_as_def builtin_authorization_def ALLOW_ALL_POLICY_ID_def REJECT_ALL_POLICY_ID_def)

lemma demo_mint:
  assumes "open_token t" "roles t ISSUER ISSUER_ROLE" "a = ALICE \<or> a = BOB"
    and core: "mint_core PATH_USD_ADDRESS (direct a) (total_supply t) v (chain_env T5) t = Inr ((), t', l)"
  shows "\<exists>l. chain_exec 0 ISSUER (TokenCall PATH_USD_ADDRESS (MintCall a v)) (chain_env T5) (demo_chain t) =
    Inr ((), demo_chain t', l)"
  using assms
  by (auto simp: token_exec_def mint_def validate_mint_def check_role_def demo_exec check_not_paused_def query_run
     recipient_resolve_def resolve_recipient_def recipient_validate_def direct_def transfer_policy_id_def open_token_def
     validate_inbound_or_block_def emit20_def emit_hop_def build_virtual_transfer_event_def)

lemma demo_set_recipient:
  assumes "open_token t"
    and core: "set_recipient_core PATH_USD_ADDRESS ALICE ALICE (chain_env T5) t = Inr ((), t', l)"
  shows "chain_exec 0 ALICE (TokenCall PATH_USD_ADDRESS (SetRewardRecipientCall ALICE)) (chain_env T5) (demo_chain t) =
    Inr ((), demo_chain t', l)"
  using assms
  by (auto simp: token_exec_def set_reward_recipient_def demo_exec check_not_paused_def query_run
     ensure_transfer_authorized_def is_transfer_authorized_def transfer_policy_id_def open_token_def)

lemma demo_distribute:
  assumes "open_token t" "v \<noteq> 0"
    and core: "distribute_core PATH_USD_ADDRESS BOB v (chain_env T5) t = Inr ((), t', l)"
  shows "chain_exec 0 BOB (TokenCall PATH_USD_ADDRESS (DistributeRewardCall v)) (chain_env T5) (demo_chain t) =
    Inr ((), demo_chain t', l)"
  using assms
  by (auto simp: token_exec_def distribute_reward_def demo_exec check_not_paused_def query_run
     ensure_transfer_authorized_def is_transfer_authorized_def transfer_policy_id_def open_token_def
     check_and_update_spending_limit_def authorize_transfer_def demo_keychain_def demo_chain_def genesis_chain_def token_put_def)

lemma balance_change_run:
  "increment_balance a v e t = (if unat (balances t a) + unat v < 2 ^ 256
     then Inr ((), t\<lparr>balances := (balances t)(a := balances t a + v)\<rparr>, []) else Inl (TIP20Err SupplyCapExceeded))"
  "decrement_balance self a v e t = (if v \<le> balances t a
     then Inr ((), t\<lparr>balances := (balances t)(a := balances t a - v)\<rparr>, [])
     else Inl (TIP20Err (InsufficientBalance (balances t a) v self)))"
  by (auto simp: increment_balance_def decrement_balance_def sinc_def sdec_def checked_add_def checked_sub_def
      bind_def map_err_def query_def set_balance_def)

lemmas ledger_exec = exec_simps mint_core_def handle_rewards_on_mint_def handle_rewards_on_transfer_def update_rewards_def
  set_total_supply_def balance_change_run bind_andthen[of "increment_balance a v" for a v]
  bind_andthen[of "decrement_balance self a v" for self a v] set_balance_def emit20_def direct_def build_transfer_event_def
  checked_add_def checked_sub_def checked_mul_def checked_div_def try_into_def set_recipient_core_def
  add_opted_in_def set_opted_in_def set_reward_info_def distribute_core_def transfer_core_def

lemma demo_open [simp]:
  "open_token (demo_issuer_token\<lparr>total_supply := s, balances := b\<rparr>)" "open_token demo_minted_token"
  "roles demo_issuer_token ISSUER ISSUER_ROLE"
  by (simp_all add: open_token_def demo_issuer_token_def demo_minted_token_def demo_token_def token_init_def)

lemma demo_cores:
  "\<exists>l. mint_core PATH_USD_ADDRESS (direct ALICE) 0 1000 (chain_env T5) (demo_issuer_token\<lparr>total_supply := 0, balances := \<lambda>_. 0\<rparr>) =
     Inr ((), demo_issuer_token\<lparr>total_supply := 1000, balances := (\<lambda>_. 0)(ALICE := 1000)\<rparr>, l)"
  "\<exists>l. mint_core PATH_USD_ADDRESS (direct BOB) 1000 500 (chain_env T5)
       (demo_issuer_token\<lparr>total_supply := 1000, balances := (\<lambda>_. 0)(ALICE := 1000)\<rparr>) =
     Inr ((), demo_issuer_token\<lparr>total_supply := 1500, balances := (\<lambda>_. 0)(ALICE := 1000, BOB := 500)\<rparr>, l)"
  "\<exists>l. set_recipient_core PATH_USD_ADDRESS ALICE ALICE (chain_env T5)
       (demo_issuer_token\<lparr>total_supply := 1500, balances := (\<lambda>_. 0)(ALICE := 1000, BOB := 500)\<rparr>) =
     Inr ((), demo_minted_token, l)"
  "\<exists>l. distribute_core PATH_USD_ADDRESS BOB 100 (chain_env T5) demo_minted_token = Inr ((), demo_reward_token, l)"
  by (simp_all add: ledger_exec demo_issuer_token_def demo_minted_token_def demo_reward_token_def demo_token_def token_init_def
      U128_MAX_def ACC_PRECISION_def)

section \<open>Reachability\<close>

lemma demo_external [simp]: "external_account ISSUER" "external_account ALICE" "external_account BOB"
  by (simp_all add: external_account_def is_tip20_prefix_def TIP20_TOKEN_PREFIX_def SYSTEM_PRECOMPILES_def address_defs)

lemma demo_call:
  assumes "reachable demo_hash T5 T5 c" "external_account m" "chain_exec 0 m call (chain_env T5) c = Inr ((), c', l)"
  shows "reachable demo_hash T5 T5 c'"
  using reachable_step[of demo_hash T5 "chain_env T5" c c'] step_call[OF assms(2,3)] assms(1) by simp

lemma demo_mint_reachable:
  assumes "reachable demo_hash T5 T5 (demo_chain t)" "open_token t" "roles t ISSUER ISSUER_ROLE" "a = ALICE \<or> a = BOB"
    "\<exists>l. mint_core PATH_USD_ADDRESS (direct a) (total_supply t) v (chain_env T5) t = Inr ((), t', l)"
  shows "reachable demo_hash T5 T5 (demo_chain t')"
  using assms(5) demo_mint[OF assms(2-4)] demo_call[OF assms(1) demo_external(1)] by blast

lemma demo_reachable:
  "reachable demo_hash T5 T5 (demo_chain demo_minted_token)" "reachable demo_hash T5 T5 (demo_chain demo_reward_token)"
proof -
  have "reachable demo_hash T5 T5 (demo_chain demo_token)"
    using reachable_step[OF _ _ _ step_reserved[OF demo_create]] reachable_genesis[of demo_hash T5] by simp
  note r0 = demo_call[OF this demo_external(1) demo_grant]
  have eq: "demo_issuer_token = demo_issuer_token\<lparr>total_supply := 0, balances := \<lambda>_. 0\<rparr>"
    by (simp add: demo_issuer_token_def demo_token_def token_init_def)
  have r1: "reachable demo_hash T5 T5 (demo_chain (demo_issuer_token\<lparr>total_supply := 0, balances := \<lambda>_. 0\<rparr>))"
    by (subst eq[symmetric]) (rule r0)
  have r2: "reachable demo_hash T5 T5 (demo_chain (demo_issuer_token\<lparr>total_supply := 1000, balances := (\<lambda>_. 0)(ALICE := 1000)\<rparr>))"
    by (rule demo_mint_reachable[OF r1, of ALICE 1000]) (use demo_cores(1) in simp_all)
  have r3: "reachable demo_hash T5 T5 (demo_chain (demo_issuer_token\<lparr>total_supply := 1500, balances := (\<lambda>_. 0)(ALICE := 1000, BOB := 500)\<rparr>))"
    by (rule demo_mint_reachable[OF r2, of BOB 500]) (use demo_cores(2) in simp_all)
  obtain l1 where "set_recipient_core PATH_USD_ADDRESS ALICE ALICE (chain_env T5)
       (demo_issuer_token\<lparr>total_supply := 1500, balances := (\<lambda>_. 0)(ALICE := 1000, BOB := 500)\<rparr>) =
     Inr ((), demo_minted_token, l1)" using demo_cores(3) by blast
  from demo_call[OF r3 demo_external(2) demo_set_recipient[OF demo_open(1) this]]
  show r4: "reachable demo_hash T5 T5 (demo_chain demo_minted_token)" .
  obtain l2 where "distribute_core PATH_USD_ADDRESS BOB 100 (chain_env T5) demo_minted_token = Inr ((), demo_reward_token, l2)"
    using demo_cores(4) by blast
  from demo_call[OF r4 demo_external(3) demo_distribute[OF demo_open(2) _ this]]
  show "reachable demo_hash T5 T5 (demo_chain demo_reward_token)" by simp
qed

end
