(* ===== verification/Chain_Ledger.thy ===== *)
theory Chain_Ledger
  imports Token_Laws TIP20_Liveness Chain_Examples
begin

text \<open>
  What holds of every token in every reachable state of the chain: the supply is backed by the
  balances and, on a chain that starts at T5 or later, every reward that can be claimed is
  covered by the token's own account.
\<close>

section \<open>Supply\<close>

lemma token_not_zero: "is_tip20_prefix self \<Longrightarrow> self \<noteq> 0"
  by (auto simp: is_tip20_prefix_def TIP20_TOKEN_PREFIX_def)

lemma token_not_system:
  "is_tip20_prefix self \<Longrightarrow> K \<in> {TIP_FEE_MANAGER_ADDRESS, STABLECOIN_DEX_ADDRESS, TIP20_CHANNEL_RESERVE_ADDRESS,
     RECEIVE_POLICY_GUARD_ADDRESS} \<Longrightarrow> K \<noteq> self"
  by (auto simp: is_tip20_prefix_def TIP20_TOKEN_PREFIX_def TIP_FEE_MANAGER_ADDRESS_def STABLECOIN_DEX_ADDRESS_def
      TIP20_CHANNEL_RESERVE_ADDRESS_def RECEIVE_POLICY_GUARD_ADDRESS_def)

lemma external_facts:
  "external_account a \<Longrightarrow> is_tip20_prefix self \<Longrightarrow> a \<noteq> 0 \<and> a \<noteq> self \<and> a \<noteq> TIP_FEE_MANAGER_ADDRESS"
  by (auto simp: external_account_def SYSTEM_PRECOMPILES_def)

interpretation supply_law: chain_law e "\<lambda>_ _. supply_ok" "\<lambda>_ _. True" for e
proof unfold_locales
  fix owner spender v
  show "valid e supply_ok (consume_allowance owner spender v) (\<lambda>_ t. supply_ok t \<and> (True \<or> v = 0))"
    by (rule valid_weaken[OF keeps_supply_simple(11)]) simp_all
next
  fix self a v assume "is_tip20_prefix self"
  then have "self \<noteq> 0" by (rule token_not_zero)
  then show "preserves e supply_ok (distribute_core self a v)" by (rule keeps_supply_reward_ops)
qed (auto simp: supply_ok_def same_ledger_def intro!: keeps_supply_basic keeps_supply_simple keeps_supply_cap
    keeps_supply_cores burn_supply mint_core_supply keeps_supply_reward_ops)

lemma supply_init: "supply_ok token_init"
  by (simp add: supply_ok_def token_init_def)

lemma genesis_tokens: "P self token_init \<Longrightarrow> P self (tokens (genesis_chain k) self)"
  by (simp add: genesis_chain_def)

interpretation supply_inv: chain_invariant hash h0 "\<lambda>_. all_tokens (\<lambda>_ _. supply_ok)" for hash h0
  by unfold_locales (auto simp: all_tokens_def supply_init genesis_chain_def dest: supply_law.law_keeps)

section \<open>Rewards\<close>

lemma same_ledger_inv: "same_ledger t t' \<Longrightarrow> ledger_inv h self t' = ledger_inv h self t"
  by (simp add: same_ledger_def ledger_inv_def supply_ok_def rewards_inv_def system_ok_def settled_ok_def
      settled_sum_def rewards_ok_def opted_sum_def owed_sum_def)

lemma reward_law:
  assumes keys: "no_system_keys e" and t5: "is_t5 (spec e)"
  shows "chain_law e (\<lambda>_. ledger_inv (spec e)) (\<lambda>self a. a \<noteq> self)"
proof unfold_locales
  show "ledger_inv (spec e) self t'" if "same_ledger t t'" "ledger_inv (spec e) self t" for t t' self
    using that by (simp add: same_ledger_inv)
  show "a \<noteq> self" if "is_tip20_prefix self" "external_account a" for self a
    using external_facts[OF that(2,1)] by simp
  show "a \<noteq> self" if "is_tip20_prefix self" "\<not> is_protected self a (spec e)" for self a
    using that t5 by (auto simp: is_protected_def)
  show "keeps_ledger e self (set_allowance owner spender v)" if "external_account owner" "is_tip20_prefix self"
    for owner self spender v using external_facts[OF that] by (intro set_allowance_inv) simp
  show "keeps_ledger e self (permit self owner spender v deadline y r s)" if "is_tip20_prefix self"
    for self owner spender v deadline y r s
  proof -
    have "\<forall>d p r s. ecrecover e d p r s \<noteq> Some self"
      using keys that external_facts unfolding no_system_keys_def by blast
    then show ?thesis by (intro validI) (blast intro: permit_inv)
  qed
  show "valid e (ledger_inv (spec e) self) (consume_allowance owner spender v)
      (\<lambda>_ t. ledger_inv (spec e) self t \<and> (owner \<noteq> self \<or> v = 0))" for self owner spender v
    by (intro validI) (blast dest: consume_allowance_spec)
  show "keeps_ledger e self (transfer_core self from to v)"
    if "from \<noteq> self \<or> v = 0" "target to \<noteq> ADDRESS_ZERO" for self "from" v to
    by (intro validI, rule transfer_core_inv, assumption+) (use that in auto)
  show "keeps_ledger e self (bind (transfer_core self from (direct ADDRESS_ZERO) v) (\<lambda>_. reduce_supply self v))"
    if "from \<noteq> self" for self "from" v
    by (intro validI) (auto simp: bind_eq_Inr that intro: burn_core_pair_inv(1))
  show "keeps_ledger e self (bind (gets total_supply) (\<lambda>supply. mint_core self to supply v))" for self to v
    by (intro validI) (auto simp: bind_exec intro: mint_core_inv)
  show "keeps_ledger e self (claim_core self a)" if "is_tip20_prefix self" "external_account a" for self a
    using external_facts[OF that(2,1)] by (intro validI) (blast intro: claim_core_inv)
  show "keeps_ledger e self (distribute_core self a v)" if "is_tip20_prefix self" "external_account a" for self a v
    using external_facts[OF that(2,1)] token_not_zero[OF that(1)] by (intro validI) (blast intro: distribute_core_inv)
  show "keeps_ledger e self (set_recipient_core self a r)"
    if "is_tip20_prefix self" "external_account a" "\<not> is_t7 (spec e)" for self a r
    using external_facts[OF that(2,1)] that(3)
    by (intro validI) (rule set_recipient_core_inv; auto dest: is_fork_mono)
  show "keeps_ledger e self (fee_pre_core self a v)" if "is_tip20_prefix self" "external_account a" for self a v
    using external_facts[OF that(2,1)] by (intro validI) (blast intro: fee_pre_core_inv)
  show "keeps_ledger e self (fee_post_core self a v)"
    if "is_tip20_prefix self" "external_account a" "TIP_FEE_MANAGER_ADDRESS \<noteq> self" for self a v
    using external_facts[OF that(2,1)] that(3) by (intro validI) (blast intro: fee_post_core_inv)
  show "K \<noteq> self" if "is_tip20_prefix self" "K \<in> {TIP_FEE_MANAGER_ADDRESS, STABLECOIN_DEX_ADDRESS,
      TIP20_CHANNEL_RESERVE_ADDRESS, RECEIVE_POLICY_GUARD_ADDRESS}" for self K
    using token_not_system[OF that] .
  show "ledger_inv (spec e) self (t\<lparr>supply_cap := U128_MAX\<rparr>)" if "ledger_inv (spec e) self t" for self t
    using that by (auto simp: ledger_inv_def supply_ok_def rewards_inv_def system_ok_def settled_ok_def
      settled_sum_def rewards_ok_def opted_sum_def owed_sum_def)
qed (intro keeps_ledger_supply_cap, simp)

lemma ledger_init: "ledger_inv h self token_init"
  by (simp add: ledger_inv_def supply_init rewards_inv_def system_ok_def settled_ok_def settled_sum_def
      rewards_ok_def opted_sum_def owed_sum_def owed_amount_def opted_amount_def) (simp add: token_init_def)

lemma ledger_fork: "ledger_inv h self t \<Longrightarrow> h \<le> h' \<Longrightarrow> ledger_inv h' self t"
  by (auto simp: ledger_inv_def rewards_inv_def is_t8_def)

lemma reward_invariant: "is_t5 h0 \<Longrightarrow> chain_invariant hash h0 (\<lambda>h. all_tokens (\<lambda>_. ledger_inv h))"
proof unfold_locales
  assume t5: "is_t5 h0"
  show "all_tokens (\<lambda>_. ledger_inv h0) (genesis_chain k)" for k by (simp add: all_tokens_def genesis_chain_def ledger_init)
  show "all_tokens (\<lambda>_. ledger_inv h') c" if "all_tokens (\<lambda>_. ledger_inv h) c" "h \<le> h'" for h h' c
    using that by (auto simp: all_tokens_def intro: ledger_fork)
  show "all_tokens (\<lambda>_. ledger_inv (spec e)) c'" if "reachable hash h0 (spec e) c" "all_tokens (\<lambda>_. ledger_inv (spec e)) c"
    "no_system_keys e" "chain_step e c c'" for e c c'
  proof -
    have "is_t5 (spec e)" using reachable_later[OF that(1)] t5 by (simp add: is_t5_def)
    from chain_law.law_keeps[OF reward_law[OF that(3) this] that(4,2)] show ?thesis .
  qed
qed

lemma reachable_ledger:
  "reachable hash h0 h c \<Longrightarrow> is_t5 h0 \<Longrightarrow> is_tip20_prefix self \<Longrightarrow> ledger_inv h self (tokens c self)"
  using chain_invariant.reachable_inv[OF reward_invariant] by (simp add: all_tokens_def)

section \<open>Properties\<close>

text \<open>Claim C14: in every state the chain can reach, whoever calls what, the balances of a token
  add up to its total supply, the supply is at most the cap, and the cap fits 128 bits.
\<close>

theorem reachable_supply_backed:
  assumes "reachable hash h0 h c" and "is_tip20_prefix token"
  shows "(\<Sum>a \<in> UNIV. unat (balances (tokens c token) a)) = unat (total_supply (tokens c token)) \<and>
      total_supply (tokens c token) \<le> supply_cap (tokens c token) \<and> supply_cap (tokens c token) \<le> U128_MAX"
  using supply_inv.reachable_inv[OF assms(1)] assms(2) by (auto simp: all_tokens_def supply_ok_def total_of_def)

theorem reachable_supply_backed_witness:
  "(\<Sum>a \<in> UNIV. unat (balances (tokens (demo_chain demo_minted_token) PATH_USD_ADDRESS) a)) = 1500"
  using reachable_supply_backed[OF demo_reachable(1) path_usd(1)] by (simp add: demo_minted_token_def)

text \<open>Claim C15: on a chain that starts at T5 or later and before T8 removes rewards, the opted-in
  supply of a token is exactly the sum of the opted-in balances, and all rewards owed, settled
  or still accruing, are covered by the balance of the token's own account.
\<close>

theorem reachable_rewards_covered:
  assumes "reachable hash h0 h c" and "is_t5 h0" and "\<not> is_t8 h" and "is_tip20_prefix token"
  shows "unat (opted_in_supply (tokens c token)) =
      (\<Sum>a \<in> UNIV. if reward_recipient (reward_infos (tokens c token) a) \<noteq> 0 then unat (balances (tokens c token) a) else 0) \<and>
      (\<Sum>a \<in> UNIV. owed_amount (global_reward_per_token (tokens c token)) (balances (tokens c token) a)
            (reward_infos (tokens c token) a)) \<le> unat ACC_PRECISION * unat (balances (tokens c token) token)"
  using reachable_ledger[OF assms(1,2,4)] assms(3)
  by (simp_all add: ledger_inv_def rewards_inv_def rewards_ok_def opted_sum_def opted_amount_def owed_sum_def)

theorem reachable_rewards_covered_witness:
  "(\<Sum>a \<in> UNIV. if reward_recipient (reward_infos (tokens (demo_chain demo_reward_token) PATH_USD_ADDRESS) a) \<noteq> 0
      then unat (balances (tokens (demo_chain demo_reward_token) PATH_USD_ADDRESS) a) else 0) = 1000"
  using conjunct1[OF reachable_rewards_covered[OF demo_reachable(2) _ _ path_usd(1)]]
  by (simp add: demo_reward_token_def demo_minted_token_def)

text \<open>Claim C16: rewards can always be claimed. In a reachable state of a chain that starts at T5 or
  later, a claim on a token that is not paused, by an account the policy lets the token pay,
  succeeds; it pays exactly what \<open>get_pending_rewards\<close> reports, out of the token's own account,
  and leaves the other balances alone.
\<close>

theorem claim_rewards_succeeds:
  assumes "reachable hash h0 (spec e) c" and "is_t5 h0" and "is_tip20_prefix token" and "external_account a"
    and "\<not> paused (tokens c token)" and "is_transfer_authorized token token a e c = Inr True"
  shows "\<exists>m c' l. claim_rewards token a e c = Inr (m, c', l) \<and>
      get_pending_rewards a e (tokens c token) = Inr (ucast m) \<and> unat (ucast m :: u128) = unat m \<and>
      unat (balances (tokens c' token) a) = unat (balances (tokens c token) a) + unat m \<and>
      unat (balances (tokens c' token) token) + unat m = unat (balances (tokens c token) token) \<and>
      (\<forall>b. b \<noteq> a \<and> b \<noteq> token \<longrightarrow> balances (tokens c' token) b = balances (tokens c token) b)"
proof -
  let ?t = "tokens c token"
  have inv: "ledger_inv (spec e) token ?t" by (rule reachable_ledger[OF assms(1-3)])
  have a: "a \<noteq> 0" "a \<noteq> token" using external_facts[OF assms(4,3)] by auto
  obtain m t' l where run: "claim_core token a e ?t = Inr (m, t', l)" using claim_core_total[OF inv a(2)] by blast
  from run inv a obtain d t1 n where up: "update_rewards a e ?t = Inr (d, t1, [])"
    and t': "t' = claimed token a m n t1" and le: "m \<le> balances ?t token"
    and fits: "unat (((balances ?t)(token := balances ?t token - m)) a) + unat m < 2 ^ 256"
    by (rule claim_core_Inr)
  have b: "balances t' = moved token a m (balances ?t)"
    using update_rewards_keeps(2)[OF up inv] by (simp add: t' claimed_def)
  have "claim_rewards token a e c = Inr (m, c\<lparr>tokens := (tokens c)(token := t')\<rparr>, l)"
    using assms(5,6) run
    by (simp add: claim_rewards_def exec_simps check_not_paused_def ensure_transfer_authorized_def token_put_def)
  then show ?thesis
    using claim_is_pending[OF run inv a] a le fits
    by (intro exI[of _ m] exI[of _ "c\<lparr>tokens := (tokens c)(token := t')\<rparr>"] exI[of _ l])
      (auto simp: b moved_def Let_def unat_sub word_le_nat_alt unat_word_ariths)
qed

theorem claim_rewards_succeeds_witness:
  "\<exists>m c' l. claim_rewards PATH_USD_ADDRESS ALICE (chain_env T5) (demo_chain demo_reward_token) = Inr (m, c', l) \<and>
     unat m = 100 \<and> unat (balances (tokens c' PATH_USD_ADDRESS) ALICE) = 1100"
proof -
  have pending: "get_pending_rewards ALICE (chain_env T5) demo_reward_token = Inr 100"
    by (simp add: get_pending_rewards_def demo_reward_token_def demo_minted_token_def Let_def accrued_def checked_mul_def
        checked_div_def checked_sub_def checked_add_def try_into_def ACC_PRECISION_def)
  have auth: "is_transfer_authorized PATH_USD_ADDRESS PATH_USD_ADDRESS ALICE (chain_env T5) (demo_chain demo_reward_token) = Inr True"
    by (simp add: is_transfer_authorized_def transfer_policy_id_def demo_reward_token_def demo_minted_token_def
        demo_issuer_token_def demo_token_def)
  have "\<not> paused (tokens (demo_chain demo_reward_token) PATH_USD_ADDRESS)"
    by (simp add: demo_reward_token_def demo_minted_token_def demo_issuer_token_def demo_token_def token_init_def)
  from claim_rewards_succeeds[of _ _ "chain_env T5", simplified chain_env_facts, OF demo_reachable(2) demo_forks(3) path_usd(1) demo_external(2) this auth]
  show ?thesis
    using pending by (fastforce simp: demo_reward_token_def demo_minted_token_def)
qed

end
