(* ===== verification/Transfer_Spec.thy ===== *)
theory Transfer_Spec
  imports Chain_Ledger Keychain_Spending
begin

text \<open>
  What a token transfer does, on every branch: which check fails first, and where the amount
  goes when all of them pass - to the resolved recipient, or into the receive policy guard with
  a receipt when the recipient's policy blocks it.
\<close>

section \<open>Delivery\<close>

text \<open>The verdict of the recipient's receive policy, which exists from T6 on.\<close>

definition inbound_verdict ::
  "address \<Rightarrow> address \<Rightarrow> address \<Rightarrow> env \<Rightarrow> chain \<Rightarrow> tempo_error + (blocked_reason \<times> address) option" where
  "inbound_verdict self from receiver e c =
     (if is_t6 (spec e)
      then rbind (rensure (receiver \<noteq> RECEIVE_POLICY_GUARD_ADDRESS) (ReceivePolicyGuardErr GuardAddressReserved)) (\<lambda>_.
           check_receive_policy self from receiver e (tip403 c))
      else Inr None)"

lemma bind_ret: "bind (ret a) f = f a"
  by (intro ext) (simp add: bind_exec)

lemma inbound_run:
  "validate_inbound_or_block self from to v None memo e c =
     (case inbound_verdict self from (target to) e c of
        Inl err \<Rightarrow> Inl err
      | Inr None \<Rightarrow> Inr (False, c, [])
      | Inr (Some (reason, recovery)) \<Rightarrow>
          bind (on_token self (transfer_core self from (direct RECEIVE_POLICY_GUARD_ADDRESS) v)) (\<lambda>_.
          bind (on_guard (store_blocked self from to recovery v reason InboundTransfer memo)) (\<lambda>_.
          ret True)) e c)"
proof (cases "is_t6 (spec e) \<and> target to \<noteq> RECEIVE_POLICY_GUARD_ADDRESS")
  case True
  then show ?thesis
    by (cases "check_receive_policy self from (target to) e (tip403 c)")
      (auto simp: validate_inbound_or_block_def inbound_verdict_def bind_exec bind_assoc bind_ret Let_def split: option.splits)
next
  case False
  then show ?thesis by (auto simp: validate_inbound_or_block_def inbound_verdict_def bind_exec)
qed

text \<open>
  \<open>delivers\<close>: the state \<open>c'\<close> after \<open>v\<close> left \<open>from\<close> for \<open>rcp\<close>: a core transfer to the recipient, or to
  the guard with a stored receipt when the verdict is to block.
\<close>

definition delivers ::
  "env \<Rightarrow> address \<Rightarrow> address \<Rightarrow> recipient \<Rightarrow> u256 \<Rightarrow> b256 \<Rightarrow> chain \<Rightarrow> chain \<Rightarrow> bool" where
  "delivers e self from rcp v memo c c' \<longleftrightarrow>
     (\<exists>t' l. (inbound_verdict self from (target rcp) e c = Inr None \<and>
          transfer_core self from rcp v e (tokens c self) = Inr ((), t', l) \<and> c' = c\<lparr>tokens := (tokens c)(self := t')\<rparr>) \<or>
        (\<exists>reason recovery k g l2. inbound_verdict self from (target rcp) e c = Inr (Some (reason, recovery)) \<and>
          transfer_core self from (direct RECEIVE_POLICY_GUARD_ADDRESS) v e (tokens c self) = Inr ((), t', l) \<and>
          store_blocked self from rcp recovery v reason InboundTransfer memo e (guard c) = Inr (k, g, l2) \<and>
          c' = c\<lparr>tokens := (tokens c)(self := t'), guard := g\<rparr>))"

definition accepted :: "env \<Rightarrow> address \<Rightarrow> address \<Rightarrow> address \<Rightarrow> recipient \<Rightarrow> chain \<Rightarrow> bool" where
  "accepted e self from to rcp c \<longleftrightarrow> recipient_resolve to e c = Inr rcp \<and> \<not> paused (tokens c self) \<and>
     recipient_validate rcp = Inr () \<and> is_transfer_authorized self from (target rcp) e c = Inr True"

definition charge :: "address \<Rightarrow> address option \<Rightarrow> address \<Rightarrow> u256 \<Rightarrow> (chain, unit) op" where
  "charge self spender from v = (case spender of Some sp \<Rightarrow> on_token self (consume_allowance from sp v)
     | None \<Rightarrow> check_and_update_spending_limit self from v)"

lemma validate_transfer_Inr:
  assumes run: "validate_transfer self spender from to v memo e c = Inr (r, c2, l)"
  obtains rcp c1 l1 where "accepted e self from to rcp c" "charge self spender from v e c = Inr ((), c1, l1)"
    "r = Some rcp \<and> c2 = c1 \<and> inbound_verdict self from (target rcp) e c1 = Inr None \<or>
     r = None \<and> delivers e self from rcp v memo c1 c2"
proof -
  obtain rcp c1 l1 b l2 where ok: "accepted e self from to rcp c" and ch: "charge self spender from v e c = Inr ((), c1, l1)"
    and inb: "validate_inbound_or_block self from rcp v None memo e c1 = Inr (b, c2, l2)"
    and r: "r = (if b then None else Some rcp)"
    using run
    by (auto simp: validate_transfer_def bind_eq_Inr query_eq_Inr accepted_def charge_def on_token_eq_Inr check_not_paused_def
        ensure_eq_Inr ensure_transfer_authorized_def rbind_eq_Inr rensure_eq_Inr)
  show thesis
  proof (rule that[OF ok ch])
    show "r = Some rcp \<and> c2 = c1 \<and> inbound_verdict self from (target rcp) e c1 = Inr None \<or>
     r = None \<and> delivers e self from rcp v memo c1 c2"
      using inb r unfolding inbound_run delivers_def
      by (auto simp: bind_eq_Inr on_token_eq_Inr on_component_eq_Inr split: sum.splits option.splits)
  qed
qed

lemma reads_emit: "on_token self (emit20 self ev) e c = Inr (x, c', l) \<Longrightarrow> c' = c"
  "on_token self (emit_hop self rcp v) e c = Inr (x', c', l) \<Longrightarrow> c' = c"
  by (rule readsD[of "on_token self m" for m]; simp)+

lemma finish_Inr:
  "finish_transfer self from (Some rcp) v e c = Inr (x, c', l) \<Longrightarrow> inbound_verdict self from (target rcp) e c = Inr None \<Longrightarrow>
     delivers e self from rcp v memo c c'"
  "finish_transfer_memo self from to (Some rcp) v memo e c = Inr (x, c', l) \<Longrightarrow>
     inbound_verdict self from (target rcp) e c = Inr None \<Longrightarrow> delivers e self from rcp v memo c c'"
  by (auto simp: finish_transfer_def finish_transfer_memo_def delivers_def bind_eq_Inr on_token_eq_Inr
      dest!: readsD[OF reads_simps(3)] readsD[OF reads_simps(4)])

lemma validated_Inr:
  assumes run: "bind (validate_transfer self spender from to v memo) f e c = Inr (x, c', l)"
    and none: "\<And>c x c' l. f None e c = Inr (x, c', l) \<Longrightarrow> c' = c"
    and some: "\<And>rcp c x c' l. f (Some rcp) e c = Inr (x, c', l) \<Longrightarrow> inbound_verdict self from (target rcp) e c = Inr None \<Longrightarrow>
      delivers e self from rcp v memo c c'"
  shows "\<exists>rcp c1 l1. accepted e self from to rcp c \<and> charge self spender from v e c = Inr ((), c1, l1) \<and>
      delivers e self from rcp v memo c1 c'"
proof -
  obtain r c2 l2 l3 where vt: "validate_transfer self spender from to v memo e c = Inr (r, c2, l2)"
    and f: "f r e c2 = Inr (x, c', l3)" using run by (auto simp: bind_eq_Inr[of "validate_transfer self spender from to v memo"])
  from vt obtain rcp c1 l1 where ok: "accepted e self from to rcp c" "charge self spender from v e c = Inr ((), c1, l1)"
    and r: "r = Some rcp \<and> c2 = c1 \<and> inbound_verdict self from (target rcp) e c1 = Inr None \<or>
     r = None \<and> delivers e self from rcp v memo c1 c2" by (rule validate_transfer_Inr)
  from r show ?thesis
  proof (elim disjE conjE)
    assume "r = Some rcp" "c2 = c1" "inbound_verdict self from (target rcp) e c1 = Inr None"
    with f some ok show ?thesis by blast
  next
    assume "r = None" "delivers e self from rcp v memo c1 c2"
    with f none ok show ?thesis by blast
  qed
qed

text \<open>All five entry points: the checks passed, the spender was charged, and the amount was delivered.\<close>

lemma transfer_runs:
  "transfer self from to v e c = Inr (x, c', l) \<Longrightarrow>
     \<exists>rcp c1 l1. accepted e self from to rcp c \<and> charge self None from v e c = Inr ((), c1, l1) \<and> delivers e self from rcp v 0 c1 c'"
  "transfer_from self sp from to v e c = Inr (x, c', l) \<Longrightarrow>
     \<exists>rcp c1 l1. accepted e self from to rcp c \<and> charge self (Some sp) from v e c = Inr ((), c1, l1) \<and> delivers e self from rcp v 0 c1 c'"
  "transfer_with_memo self from to v memo e c = Inr (u, c', l) \<Longrightarrow>
     \<exists>rcp c1 l1. accepted e self from to rcp c \<and> charge self None from v e c = Inr ((), c1, l1) \<and> delivers e self from rcp v memo c1 c'"
  "transfer_from_with_memo self sp from to v memo e c = Inr (x, c', l) \<Longrightarrow>
     \<exists>rcp c1 l1. accepted e self from to rcp c \<and> charge self (Some sp) from v e c = Inr ((), c1, l1) \<and> delivers e self from rcp v memo c1 c'"
  unfolding transfer_def transfer_from_def transfer_with_memo_def transfer_from_with_memo_def
  by (erule validated_Inr;
      auto simp: bind_eq_Inr[of "finish_transfer a b d f" for a b d f] bind_eq_Inr[of "finish_transfer_memo a b d f g h" for a b d f g h]
        finish_transfer_def[of _ _ None] finish_transfer_memo_def[of _ _ _ None] bind_ret intro: finish_Inr)+

lemma system_transfer_runs:
  assumes "system_transfer_from self K from v e c = Inr (x, c', l)"
  shows "\<exists>rcp c1 l1. accepted e self from K rcp c \<and> charge self None from v e c = Inr ((), c1, l1) \<and> delivers e self from rcp v 0 c1 c'"
proof -
  have "\<exists>l. transfer self from K v e c = Inr (x, c', l)"
    using assms by (auto simp: system_transfer_from_def transfer_def bind_exec split: if_splits)
  then show ?thesis using transfer_runs(1) by blast
qed

section \<open>Effect on the ledger\<close>

text \<open>The account an accepted transfer credits.\<close>

definition credited :: "env \<Rightarrow> address \<Rightarrow> address \<Rightarrow> recipient \<Rightarrow> chain \<Rightarrow> address" where
  "credited e self from rcp c =
     (case inbound_verdict self from (target rcp) e c of Inr (Some _) \<Rightarrow> RECEIVE_POLICY_GUARD_ADDRESS | _ \<Rightarrow> target rcp)"

lemma delivers_ledger:
  assumes "delivers e self from rcp v memo c c'"
  shows "v \<le> balances (tokens c self) from"
    "credited e self from rcp c \<noteq> 0 \<longrightarrow> unat (((balances (tokens c self))(from := balances (tokens c self) from - v))
       (credited e self from rcp c)) + unat v < 2 ^ 256"
    "balances (tokens c' self) = moved from (credited e self from rcp c) v (balances (tokens c self))"
    "allowances (tokens c' self) = allowances (tokens c self)"
    "total_supply (tokens c' self) = total_supply (tokens c self)"
    "\<And>a. a \<noteq> self \<Longrightarrow> tokens c' a = tokens c a"
    "fees c' = fees c" "keychain c' = keychain c" "tip403 c' = tip403 c" "addresses c' = addresses c" "deployed c' = deployed c"
proof -
  let ?to = "\<lambda>b. if b then direct RECEIVE_POLICY_GUARD_ADDRESS else rcp"
  obtain t' l b g where tr: "transfer_core self from (?to b) v e (tokens c self) = Inr ((), t', l)"
    and c': "c' = c\<lparr>tokens := (tokens c)(self := t'), guard := g\<rparr>" and cr: "credited e self from rcp c = target (?to b)"
  proof -
    from assms consider t' l where "inbound_verdict self from (target rcp) e c = Inr None"
        "transfer_core self from rcp v e (tokens c self) = Inr ((), t', l)" "c' = c\<lparr>tokens := (tokens c)(self := t')\<rparr>"
      | t' l p g where "inbound_verdict self from (target rcp) e c = Inr (Some p)"
        "transfer_core self from (direct RECEIVE_POLICY_GUARD_ADDRESS) v e (tokens c self) = Inr ((), t', l)"
        "c' = c\<lparr>tokens := (tokens c)(self := t'), guard := g\<rparr>" unfolding delivers_def by blast
    then show thesis
    proof cases
      case 1
      then show ?thesis by (intro that[of False t' l "guard c"]) (simp_all add: credited_def)
    next
      case (2 t' l p g)
      then show ?thesis by (intro that[of True t' l g]) (simp_all add: credited_def direct_def)
    qed
  qed
  note m = transfer_core_moves[OF tr] and f = transfer_core_fields[OF tr]
  show "v \<le> balances (tokens c self) from" by (rule m(1))
  show "credited e self from rcp c \<noteq> 0 \<longrightarrow> unat (((balances (tokens c self))(from := balances (tokens c self) from - v))
       (credited e self from rcp c)) + unat v < 2 ^ 256" using m(3) by (simp add: cr)
  show "balances (tokens c' self) = moved from (credited e self from rcp c) v (balances (tokens c self))"
    using m(2) by (simp add: c' cr)
  show "allowances (tokens c' self) = allowances (tokens c self)" "total_supply (tokens c' self) = total_supply (tokens c self)"
    using f by (simp_all add: c')
  show "a \<noteq> self \<Longrightarrow> tokens c' a = tokens c a" for a by (simp add: c')
  show "fees c' = fees c" "keychain c' = keychain c" "tip403 c' = tip403 c" "addresses c' = addresses c" "deployed c' = deployed c"
    by (simp_all add: c')
qed

lemma moved_nat:
  assumes "v \<le> b from" "to \<noteq> 0" "unat ((b(from := b from - v)) to) + unat v < 2 ^ 256"
  shows "to \<noteq> from \<Longrightarrow> unat (moved from to v b from) + unat v = unat (b from)"
    "to \<noteq> from \<Longrightarrow> unat (moved from to v b to) = unat (b to) + unat v"
    "to = from \<Longrightarrow> moved from to v b = b"
    "a \<noteq> from \<Longrightarrow> a \<noteq> to \<Longrightarrow> moved from to v b a = b a"
  using assms by (auto simp: moved_def Let_def unat_sub word_le_nat_alt unat_word_ariths)

text \<open>A core transfer of more than the balance fails with the balance and the amount.\<close>

lemma transfer_core_insufficient:
  assumes "balances t from < v"
  shows "transfer_core self from rcp v e t = Inl (TIP20Err (InsufficientBalance (balances t from) v self))"
proof (cases "is_t8 (spec e)")
  case True
  have "handle_rewards_on_transfer from (target rcp) v e t = Inr ((), t, [])"
    using True by (simp add: handle_rewards_on_transfer_def bind_andthen[of "update_rewards k" for k] update_rewards_t8 exec_simps)
  with True assms show ?thesis
    by (auto simp: transfer_core_def exec_simps bind_andthen[of "handle_rewards_on_transfer a b d" for a b d]
        bind_andthen[of "decrement_balance x a b" for x a b] balance_change_run)
next
  case False
  with assms show ?thesis by (simp add: transfer_core_def exec_simps)
qed

lemma charge_main_key:
  "transaction_key (keychain c) = 0 \<Longrightarrow> check_and_update_spending_limit self a v e c = Inr ((), c, [])"
  by (cases c) (simp add: check_and_update_spending_limit_def authorize_transfer_def exec_simps)

section \<open>What a successful transfer records\<close>

text \<open>
  The access-key check on \<open>v\<close> of \<open>token\<close> out of \<open>account\<close>: the error that refuses it, if any. It applies to
  the account that signed the transaction, when it signed with an access key.
\<close>

definition uses_key :: "address \<Rightarrow> account_keychain \<Rightarrow> bool" where
  "uses_key account k \<longleftrightarrow> transaction_key k \<noteq> 0 \<and> tx_origin k = account"

definition spending_refusal :: "address \<Rightarrow> address \<Rightarrow> u256 \<Rightarrow> env \<Rightarrow> account_keychain \<Rightarrow> tempo_error option" where
  "spending_refusal token account v e k =
     (if \<not> uses_key account k then None
      else case load_active_key account (transaction_key k) (now64 e) k of
        Inl err \<Rightarrow> Some err
      | Inr key \<Rightarrow> if enforce_limits key \<and> get_remaining_limit account (transaction_key k) token e k < v
          then Some (KeychainErr SpendingLimitExceeded) else None)"

text \<open>The keychain afterwards: the reported limit of a key with limits drops by \<open>v\<close>, nothing else changes.\<close>

definition limit_charged :: "address \<Rightarrow> address \<Rightarrow> u256 \<Rightarrow> env \<Rightarrow> account_keychain \<Rightarrow> account_keychain \<Rightarrow> bool" where
  "limit_charged token account v e k k' \<longleftrightarrow>
     (if uses_key account k \<and> enforce_limits (keys k account (transaction_key k))
      then get_remaining_limit account (transaction_key k) token e k' = get_remaining_limit account (transaction_key k) token e k - v \<and>
        k' = k\<lparr>spending_limits := spending_limits k'\<rparr> \<and>
        (\<forall>key t. (key, t) \<noteq> (spending_limit_key e account (transaction_key k), token) \<longrightarrow> spending_limits k' key t = spending_limits k key t)
      else k' = k)"

text \<open>The guard afterwards: a blocked transfer leaves one receipt for the amount, under the next nonce.\<close>

definition receipt_recorded ::
  "address \<Rightarrow> address \<Rightarrow> recipient \<Rightarrow> u256 \<Rightarrow> (blocked_reason \<times> address) option \<Rightarrow> env \<Rightarrow> receive_policy_guard \<Rightarrow> receive_policy_guard \<Rightarrow> bool" where
  "receipt_recorded token sender rcp v blocked e g g' \<longleftrightarrow>
     (case blocked of
        None \<Rightarrow> g' = g
      | Some (reason, recovery) \<Rightarrow>
          (let nonce = max (receipt_nonce g) 1;
               receipt = claim_receipt_new token recovery sender (original_address rcp) (now64 e) nonce
                 (blocked_reason_u8 reason) InboundTransfer 0 in
           g' = \<lparr>receipt_nonce = nonce + 1, receipt_balances = (receipt_balances g)(receipt_key e receipt := v)\<rparr>))"

text \<open>The token afterwards: \<open>v\<close> moved from \<open>sender\<close> to \<open>d\<close>; besides balances only the rewards accounting changes.\<close>

definition amount_moved :: "address \<Rightarrow> address \<Rightarrow> u256 \<Rightarrow> tip20_token \<Rightarrow> tip20_token \<Rightarrow> bool" where
  "amount_moved sender d v t t' \<longleftrightarrow>
     (if d = sender then balances t' = balances t
      else unat (balances t' sender) + unat v = unat (balances t sender) \<and> unat (balances t' d) = unat (balances t d) + unat v) \<and>
     (\<forall>a. a \<noteq> sender \<and> a \<noteq> d \<longrightarrow> balances t' a = balances t a) \<and>
     t' = t\<lparr>balances := balances t', opted_in_supply := opted_in_supply t', reward_infos := reward_infos t'\<rparr>"

lemma spending_limit_outcome:
  assumes t3: "is_t3 (spec e)"
  shows "case spending_refusal token account v e (keychain c) of
      Some err \<Rightarrow> check_and_update_spending_limit token account v e c = Inl err
    | None \<Rightarrow> \<exists>k' l. check_and_update_spending_limit token account v e c = Inr ((), c\<lparr>keychain := k'\<rparr>, l) \<and>
        limit_charged token account v e (keychain c) k'"
proof (cases "uses_key account (keychain c)")
  case False
  then have "authorize_transfer account token v e (keychain c) = Inr ((), keychain c, [])"
    by (auto simp: uses_key_def authorize_transfer_def exec_simps)
  with False show ?thesis
    by (auto simp: spending_refusal_def limit_charged_def check_and_update_spending_limit_def exec_simps)
next
  case True
  let ?k = "keychain c" and ?tk = "transaction_key (keychain c)"
  have tk: "?tk \<noteq> 0" using True by (simp add: uses_key_def)
  have run: "check_and_update_spending_limit token account v e c =
      put_back (\<lambda>r c. c\<lparr>keychain := r\<rparr>) c (verify_and_update_spending account ?tk token v e ?k)"
    using True by (simp add: uses_key_def check_and_update_spending_limit_def authorize_transfer_def exec_simps)
  have rem: "get_remaining_limit account ?tk token e k = fst (get_remaining_limit_with_period account ?tk token e k)" for k
    using t3 by (simp add: get_remaining_limit_def is_fork_mono)
  show ?thesis
  proof (cases "load_active_key account ?tk (now64 e) ?k")
    case (Inl err)
    then show ?thesis using True t3 tk by (simp add: spending_refusal_def run verify_and_update_spending_eq)
  next
    case (Inr key)
    then have key: "keys ?k account ?tk = key" by (auto simp: load_active_key_def Let_def split: if_splits)
    show ?thesis
    proof (cases "enforce_limits key")
      case False
      then show ?thesis using True t3 tk Inr key
        by (simp add: spending_refusal_def run verify_and_update_spending_eq limit_charged_def)
    next
      case lim: True
      note out = verify_spending_limited[OF t3 tk Inr lim, where token = token and amount = v]
      show ?thesis
      proof (cases "get_remaining_limit account ?tk token e ?k < v")
        case less: True
        then show ?thesis using True lim Inr out(1) by (simp add: spending_refusal_def run rem)
      next
        case False
        then obtain st' l where sp: "verify_and_update_spending account ?tk token v e ?k = Inr ((), with_row e account ?tk token st' ?k, l)"
          "fst (get_remaining_limit_with_period account ?tk token e (with_row e account ?tk token st' ?k)) =
            fst (get_remaining_limit_with_period account ?tk token e ?k) - v" using out(2) by (fastforce simp: rem not_less)
        have "with_row e account ?tk token st' ?k = ?k\<lparr>spending_limits := spending_limits (with_row e account ?tk token st' ?k)\<rparr>"
          by (simp add: with_row_def Let_def)
        then have "limit_charged token account v e ?k (with_row e account ?tk token st' ?k)"
          using True lim key sp(2) by (simp add: limit_charged_def rem) (auto simp: with_row_frame)
        then show ?thesis using True lim Inr False sp(1) by (auto simp: spending_refusal_def run rem)
      qed
    qed
  qed
qed

lemma check_receive_policy_reason:
  "check_receive_policy token sender receiver e r = Inr (Some (reason, recovery)) \<Longrightarrow> reason = TOKEN_FILTER \<or> reason = RECEIVE_POLICY"
  by (auto simp: check_receive_policy_def Let_def rbind_eq_Inr split: if_splits)

lemma checked_add_one:
  "checked_add (n :: 'a::len word) 1 = (if n = - 1 then None else Some (n + 1))"
proof (cases "n = - 1")
  case True
  have "2 ^ LENGTH('a) \<le> unat (- 1 :: 'a word) + unat (1 :: 'a word)" by (simp add: unat_max_word)
  with True show ?thesis by (simp add: checked_add_def)
next
  case False
  have "unat n + unat (1 :: 'a word) < 2 ^ LENGTH('a)" using unat_less_max[OF False] by simp
  with False show ?thesis by (simp add: checked_add_def)
qed

lemma store_blocked_outcome:
  assumes "reason = TOKEN_FILTER \<or> reason = RECEIVE_POLICY"
  shows "if max (receipt_nonce g) 1 = - 1
    then store_blocked token sender rcp recovery v reason InboundTransfer 0 e g = Inl under_overflow
    else \<exists>x g' l. store_blocked token sender rcp recovery v reason InboundTransfer 0 e g = Inr (x, g', l) \<and>
      receipt_recorded token sender rcp v (Some (reason, recovery)) e g g'"
proof -
  have "checked_add (max (receipt_nonce g) 1) 1 = (if max (receipt_nonce g) 1 = - 1 then None else Some (max (receipt_nonce g) 1 + 1))"
    by (rule checked_add_one)
  then show ?thesis using assms
    by (auto simp: store_blocked_def next_receipt_nonce_def exec_simps Let_def set_receipt_balance_def emit_guard_def receipt_recorded_def)
qed

text \<open>The part of a transfer after the checks that do not change the state.\<close>

abbreviation deliver :: "address \<Rightarrow> address \<Rightarrow> recipient \<Rightarrow> u256 \<Rightarrow> (chain, bool) op" where
  "deliver token sender rcp v \<equiv>
     bind (validate_inbound_or_block token sender rcp v None 0) (\<lambda>blocked.
     bind (finish_transfer token sender (if blocked then None else Some rcp) v) (\<lambda>_. ret True))"

lemma transfer_run:
  assumes "recipient_resolve to e c = Inr rcp"
  shows "transfer token sender to v e c =
    (if paused (tokens c token) then Inl (TIP20Err ContractPaused)
     else if target rcp = 0 \<or> is_tip20_prefix (target rcp) then Inl (TIP20Err InvalidRecipient)
     else case is_transfer_authorized token sender (target rcp) e c of
       Inl err \<Rightarrow> Inl err
     | Inr auth \<Rightarrow> if \<not> auth then Inl (TIP20Err PolicyForbids)
         else andthen (check_and_update_spending_limit token sender v e c) (\<lambda>_. deliver token sender rcp v) e)"
  using assms
  by (auto simp: transfer_def validate_transfer_def bind_exec bind_assoc bind_ret bind_andthen[of "on_token x m" for x m]
      on_run check_not_paused_def recipient_validate_def ensure_transfer_authorized_def token_lens.put_get ensure_run
      bind_andthen[of "check_and_update_spending_limit x a b" for x a b] split: sum.splits)

lemma core_amount_moved:
  assumes run: "transfer_core token sender rcp v e t = Inr ((), t', l)" and nz: "target rcp \<noteq> 0"
  shows "amount_moved sender (target rcp) v t t'"
  using moved_nat[OF transfer_core_moves(1)[OF run] nz transfer_core_moves(3)[OF run, rule_format, OF nz]]
    transfer_core_moves(2,4)[OF run]
  by (simp add: amount_moved_def)

lemma deliver_outcome:
  assumes inv: "ledger_inv (spec e) token (tokens c token)" and nz: "target rcp \<noteq> 0"
  shows "case inbound_verdict token sender (target rcp) e c of
      Inl err \<Rightarrow> deliver token sender rcp v e c = Inl err
    | Inr blocked \<Rightarrow>
        if balances (tokens c token) sender < v
        then deliver token sender rcp v e c = Inl (TIP20Err (InsufficientBalance (balances (tokens c token) sender) v token))
        else if blocked \<noteq> None \<and> max (receipt_nonce (guard c)) 1 = - 1 then deliver token sender rcp v e c = Inl under_overflow
        else \<exists>t' g' l. deliver token sender rcp v e c = Inr (True, c\<lparr>tokens := (tokens c)(token := t'), guard := g'\<rparr>, l) \<and>
          amount_moved sender (if blocked = None then target rcp else RECEIVE_POLICY_GUARD_ADDRESS) v (tokens c token) t' \<and>
          receipt_recorded token sender rcp v blocked e (guard c) g'"
proof -
  let ?t = "tokens c token" and ?G = "direct RECEIVE_POLICY_GUARD_ADDRESS"
  have core: "\<exists>t' l. transfer_core token sender to v e ?t = Inr ((), t', l)" if "\<not> balances ?t sender < v" for to
    using transfer_core_total[OF inv, of v sender to] that by (simp add: not_less)
  note exec = bind_andthen[of "validate_inbound_or_block a b d f g h" for a b d f g h] inbound_run finish_transfer_def exec_simps
  consider (err) err where "inbound_verdict token sender (target rcp) e c = Inl err"
    | (pass) "inbound_verdict token sender (target rcp) e c = Inr None"
    | (block) reason recovery where "inbound_verdict token sender (target rcp) e c = Inr (Some (reason, recovery))"
    by (metis option.exhaust sum.exhaust surj_pair)
  then show ?thesis
  proof cases
    case err
    then show ?thesis by (simp add: exec)
  next
    case pass
    show ?thesis
    proof (cases "balances ?t sender < v")
      case True
      then show ?thesis using pass by (simp add: exec transfer_core_insufficient)
    next
      case False
      from core[OF this] obtain t' l where tr: "transfer_core token sender rcp v e ?t = Inr ((), t', l)" by blast
      have "\<exists>l. deliver token sender rcp v e c = Inr (True, c\<lparr>tokens := (tokens c)(token := t'), guard := guard c\<rparr>, l)"
        using pass by (cases "virtual_addr rcp") (simp_all add: exec tr token_put_def emit_hop_def build_virtual_transfer_event_def emit20_def)
      with pass False core_amount_moved[OF tr nz] show ?thesis by (fastforce simp: receipt_recorded_def)
    qed
  next
    case block
    have reason: "reason = TOKEN_FILTER \<or> reason = RECEIVE_POLICY"
      using block by (auto simp: inbound_verdict_def rbind_eq_Inr split: if_splits dest: check_receive_policy_reason)
    note st = store_blocked_outcome[OF reason, of "guard c" token sender rcp recovery v e]
    show ?thesis
    proof (cases "balances ?t sender < v")
      case True
      then show ?thesis using block by (simp add: exec transfer_core_insufficient)
    next
      case False
      from core[OF this] obtain t' l where tr: "transfer_core token sender ?G v e ?t = Inr ((), t', l)" by blast
      have "amount_moved sender RECEIVE_POLICY_GUARD_ADDRESS v ?t t'"
        using core_amount_moved[OF tr] by (simp add: direct_def RECEIVE_POLICY_GUARD_ADDRESS_def)
      with block False st tr show ?thesis
        by (auto simp: exec token_put_def split: if_splits) blast
    qed
  qed
qed

section \<open>Properties\<close>

text \<open>Claim C17: the outcome of a transfer, decided check by check. In a reachable state of a chain that
  starts at T5 or later, \<open>transfer\<close> fails with the error of the first of these checks that fails, in this
  order: the recipient resolves; the token is not paused; the recipient is not zero and not a token;
  the policy lookup succeeds and authorizes the pair; if the sender signed with an access key, the key
  is active and the amount within its reported limit; from T6 on, the recipient is not the guard and
  its receive policy can be read; the balance covers the amount; and if the receive policy blocks the
  transfer, the receipt counter can advance. When none fails the transfer succeeds. Exactly the amount
  moves, to the resolved recipient or, when blocked, to the guard; a transfer to oneself leaves every
  balance as it was; besides balances only the token's rewards accounting changes; the limit of the
  key drops by the amount; a blocked transfer leaves exactly one new receipt; and nothing else on the
  chain changes.\<close>

theorem transfer_decided:
  assumes "reachable hash h0 (spec e) c" and "is_t5 h0" and "is_tip20_prefix token"
  shows "case recipient_resolve to e c of
      Inl err \<Rightarrow> transfer token sender to v e c = Inl err
    | Inr rcp \<Rightarrow>
        if paused (tokens c token) then transfer token sender to v e c = Inl (TIP20Err ContractPaused)
        else if target rcp = 0 \<or> is_tip20_prefix (target rcp) then transfer token sender to v e c = Inl (TIP20Err InvalidRecipient)
        else (case is_transfer_authorized token sender (target rcp) e c of
            Inl err \<Rightarrow> transfer token sender to v e c = Inl err
          | Inr False \<Rightarrow> transfer token sender to v e c = Inl (TIP20Err PolicyForbids)
          | Inr True \<Rightarrow> (case spending_refusal token sender v e (keychain c) of
                Some err \<Rightarrow> transfer token sender to v e c = Inl err
              | None \<Rightarrow> (case inbound_verdict token sender (target rcp) e c of
                    Inl err \<Rightarrow> transfer token sender to v e c = Inl err
                  | Inr blocked \<Rightarrow>
                      if balances (tokens c token) sender < v
                      then transfer token sender to v e c = Inl (TIP20Err (InsufficientBalance (balances (tokens c token) sender) v token))
                      else if blocked \<noteq> None \<and> max (receipt_nonce (guard c)) 1 = - 1
                      then transfer token sender to v e c = Inl under_overflow
                      else \<exists>t' k' g' l. transfer token sender to v e c =
                          Inr (True, c\<lparr>tokens := (tokens c)(token := t'), keychain := k', guard := g'\<rparr>, l) \<and>
                        amount_moved sender (if blocked = None then target rcp else RECEIVE_POLICY_GUARD_ADDRESS) v (tokens c token) t' \<and>
                        limit_charged token sender v e (keychain c) k' \<and>
                        receipt_recorded token sender rcp v blocked e (guard c) g')))"
proof (cases "recipient_resolve to e c")
  case (Inl err)
  then show ?thesis by (simp add: transfer_def validate_transfer_def bind_exec bind_assoc)
next
  case (Inr rcp)
  have t3: "is_t3 (spec e)" using reachable_later[OF assms(1)] assms(2) by (cases h0; cases "spec e") (simp_all add: fork_eval)
  note run = transfer_run[OF Inr, of token sender v]
  show ?thesis
  proof (cases "paused (tokens c token) \<or> target rcp = 0 \<or> is_tip20_prefix (target rcp) \<or>
      is_transfer_authorized token sender (target rcp) e c \<noteq> Inr True")
    case True
    then show ?thesis by (auto simp: Inr run split: sum.splits bool.splits)
  next
    case False
    then have deliver: "transfer token sender to v e c =
        andthen (check_and_update_spending_limit token sender v e c) (\<lambda>_. deliver token sender rcp v) e"
      by (simp add: run)
    show ?thesis
    proof (cases "spending_refusal token sender v e (keychain c)")
      case (Some err)
      then show ?thesis using spending_limit_outcome[OF t3, of token sender v c] False by (simp add: Inr deliver)
    next
      case None
      then obtain k' l0 where "check_and_update_spending_limit token sender v e c = Inr ((), c\<lparr>keychain := k'\<rparr>, l0)"
        and k': "limit_charged token sender v e (keychain c) k'" using spending_limit_outcome[OF t3, of token sender v c] by auto
      then have run: "transfer token sender to v e c = logged l0 (deliver token sender rcp v e (c\<lparr>keychain := k'\<rparr>))"
        by (simp add: deliver)
      have inv: "ledger_inv (spec e) token (tokens (c\<lparr>keychain := k'\<rparr>) token)" using reachable_ledger[OF assms] by simp
      have verdict: "inbound_verdict token sender (target rcp) e (c\<lparr>keychain := k'\<rparr>) = inbound_verdict token sender (target rcp) e c"
        by (simp add: inbound_verdict_def)
      have swap: "c\<lparr>keychain := k', tokens := T, guard := g\<rparr> = c\<lparr>tokens := T, keychain := k', guard := g\<rparr>" for T g by simp
      from deliver_outcome[OF inv, of rcp sender v] False None k' show ?thesis
        by (auto simp: Inr run verdict swap split: sum.splits if_splits) blast+
    qed
  qed
qed

text \<open>Alice's transaction, signed with an access key that may spend 700.\<close>

definition key_chain :: chain where
  "key_chain = (demo_chain demo_minted_token)\<lparr>keychain := demo_keychain\<lparr>transaction_key := 7, tx_origin := ALICE\<rparr>\<rparr>"

lemma key_chain_reachable: "reachable demo_hash T5 T5 key_chain"
proof -
  let ?c = "demo_chain demo_minted_token"
  have "chain_step (chain_env T5) ?c (?c\<lparr>keychain := demo_keychain\<lparr>transaction_key := 7\<rparr>\<rparr>)"
    by (rule step_tx_key[of 7 _ _ "()" _ "[]"]) (simp add: set_transaction_key_def exec_simps)
  note reachable_step[of _ _ "chain_env T5", simplified chain_env_facts, OF demo_reachable(1) refl _ this]
  moreover have "chain_step (chain_env T5) (?c\<lparr>keychain := demo_keychain\<lparr>transaction_key := 7\<rparr>\<rparr>) key_chain"
    by (rule step_tx_origin[of ALICE _ _ "()" _ "[]"]) (simp add: set_tx_origin_def exec_simps key_chain_def)
  ultimately show ?thesis using reachable_step[of _ _ "chain_env T5", simplified chain_env_facts] by simp
qed

theorem transfer_decided_witness:
  "transfer PATH_USD_ADDRESS ALICE BOB 701 (chain_env T5) key_chain = Inl (KeychainErr SpendingLimitExceeded) \<and>
   (\<exists>c' l. transfer PATH_USD_ADDRESS ALICE BOB 600 (chain_env T5) key_chain = Inr (True, c', l) \<and>
     unat (balances (tokens c' PATH_USD_ADDRESS) ALICE) = 400 \<and> unat (balances (tokens c' PATH_USD_ADDRESS) BOB) = 1100 \<and>
     get_remaining_limit ALICE 7 PATH_USD_ADDRESS (chain_env T5) (keychain c') = 100) \<and>
   (\<exists>c' l. transfer PATH_USD_ADDRESS ALICE ALICE 600 (chain_env T5) key_chain = Inr (True, c', l) \<and>
     balances (tokens c' PATH_USD_ADDRESS) ALICE = 1000)"
proof -
  let ?e = "chain_env T5" and ?k = "keychain key_chain"
  have now: "now64 ?e = 1000" by (simp add: now64_def chain_env_def demo_env_def saturating_to_def)
  have k: "uses_key ALICE ?k" "transaction_key ?k = 7" "enforce_limits (keys ?k ALICE 7)"
    "load_active_key ALICE 7 1000 ?k = Inr (keys ?k ALICE 7)" "get_remaining_limit ALICE 7 PATH_USD_ADDRESS ?e ?k = 700"
    by (simp_all add: key_chain_def demo_keychain_def uses_key_def load_active_key_def get_remaining_limit_def
        get_remaining_limit_with_period_def effective_limit_state_def effective_limit_state_with_key_def now)
  have limit: "spending_refusal PATH_USD_ADDRESS ALICE v ?e ?k = (if 700 < v then Some (KeychainErr SpendingLimitExceeded) else None)" for v
    by (simp add: spending_refusal_def k now)
  have t: "tokens key_chain PATH_USD_ADDRESS = demo_minted_token" "guard key_chain = guard_init"
    by (simp_all add: key_chain_def demo_chain_def genesis_chain_def)
  have p: "\<not> paused demo_minted_token" "balances demo_minted_token = (\<lambda>_. 0)(ALICE := 1000, BOB := 500)"
    "legacy_transfer_policy_id demo_minted_token = ALLOW_ALL_POLICY_ID"
    by (simp_all add: demo_minted_token_def demo_issuer_token_def demo_token_def token_init_def)
  have r: "recipient_resolve ALICE ?e key_chain = Inr (direct ALICE)" "recipient_resolve BOB ?e key_chain = Inr (direct BOB)"
    "target (direct a) = a" for a by (simp_all add: recipient_resolve_def resolve_recipient_def direct_def)
  have a: "is_transfer_authorized PATH_USD_ADDRESS ALICE to ?e key_chain = Inr True" for to
    by (simp add: is_transfer_authorized_def transfer_policy_id_def t p)
  have v: "inbound_verdict PATH_USD_ADDRESS ALICE to ?e key_chain = Inr None" for to by (simp add: inbound_verdict_def)
  note d = transfer_decided[of _ _ ?e, simplified chain_env_facts, OF key_chain_reachable demo_forks(3) path_usd(1), where sender = ALICE]
  note facts = r t p a v limit amount_moved_def limit_charged_def k
  have "transfer PATH_USD_ADDRESS ALICE BOB 701 ?e key_chain = Inl (KeychainErr SpendingLimitExceeded)"
    using d[where to = BOB and v = 701] by (simp add: facts)
  moreover have "\<exists>c' l. transfer PATH_USD_ADDRESS ALICE BOB 600 ?e key_chain = Inr (True, c', l) \<and>
     unat (balances (tokens c' PATH_USD_ADDRESS) ALICE) = 400 \<and> unat (balances (tokens c' PATH_USD_ADDRESS) BOB) = 1100 \<and>
     get_remaining_limit ALICE 7 PATH_USD_ADDRESS ?e (keychain c') = 100"
    using d[where to = BOB and v = 600] by (force simp: facts)
  moreover have "\<exists>c' l. transfer PATH_USD_ADDRESS ALICE ALICE 600 ?e key_chain = Inr (True, c', l) \<and>
     balances (tokens c' PATH_USD_ADDRESS) ALICE = 1000"
    using d[where to = ALICE and v = 600] by (force simp: facts)
  ultimately show ?thesis by blast
qed

lemma consume_allowance_run:
  "consume_allowance owner spender v e t = Inr (u, t', l) \<longleftrightarrow>
     v \<le> allowances t owner spender \<and> l = [] \<and>
     t' = t\<lparr>allowances := (allowances t)(owner := (allowances t owner)(spender :=
       if allowances t owner spender = - 1 then - 1 else allowances t owner spender - v))\<rparr>"
proof (cases "allowances t owner spender = - 1")
  case True
  then have "(allowances t)(owner := (allowances t owner)(spender := - 1)) = allowances t" by (auto simp: fun_eq_iff)
  with True show ?thesis by (auto simp: consume_allowance_def run_simps not_less)
next
  case False
  then show ?thesis by (auto simp: consume_allowance_def run_simps not_less checked_sub_def set_allowance_def)
qed

text \<open>Claim C18: a delegated transfer spends allowance and balance exactly. Whenever \<open>transfer_from\<close>
  succeeds, the token was not paused, the policy authorized owner and resolved recipient, the
  allowance and the balance covered the amount; an allowance that is not infinite shrinks by the
  amount, no other allowance changes; the amount leaves the owner for the resolved recipient, or
  for the guard when the recipient's receive policy blocks it; no other balance, the supply, or
  any other token changes.\<close>

theorem transfer_from_exact:
  assumes "transfer_from token spender owner to v e c = Inr (ok, c', l)"
  shows "\<exists>rcp. recipient_resolve to e c = Inr rcp \<and> \<not> paused (tokens c token) \<and>
      is_transfer_authorized token owner (target rcp) e c = Inr True \<and>
      v \<le> allowances (tokens c token) owner spender \<and> v \<le> balances (tokens c token) owner \<and>
      allowances (tokens c' token) = (allowances (tokens c token))(owner := (allowances (tokens c token) owner)(spender :=
        if allowances (tokens c token) owner spender = - 1 then - 1 else allowances (tokens c token) owner spender - v)) \<and>
      (let d = (case inbound_verdict token owner (target rcp) e c of
                  Inr (Some _) \<Rightarrow> RECEIVE_POLICY_GUARD_ADDRESS | _ \<Rightarrow> target rcp) in
       (d \<noteq> owner \<longrightarrow> unat (balances (tokens c' token) owner) + unat v = unat (balances (tokens c token) owner) \<and>
          unat (balances (tokens c' token) d) = unat (balances (tokens c token) d) + unat v) \<and>
       (d = owner \<longrightarrow> balances (tokens c' token) = balances (tokens c token)) \<and>
       (\<forall>a. a \<noteq> owner \<and> a \<noteq> d \<longrightarrow> balances (tokens c' token) a = balances (tokens c token) a)) \<and>
      total_supply (tokens c' token) = total_supply (tokens c token) \<and>
      (\<forall>a. a \<noteq> token \<longrightarrow> tokens c' a = tokens c a)"
proof -
  obtain rcp c1 l1 where ok: "accepted e token owner to rcp c" and ch: "charge token (Some spender) owner v e c = Inr ((), c1, l1)"
    and d: "delivers e token owner rcp v 0 c1 c'" using transfer_runs(2)[OF assms] by blast
  let ?t = "tokens c token"
  have al: "v \<le> allowances ?t owner spender" and c1: "c1 = c\<lparr>tokens := (tokens c)(token := ?t\<lparr>allowances :=
      (allowances ?t)(owner := (allowances ?t owner)(spender :=
        if allowances ?t owner spender = - 1 then - 1 else allowances ?t owner spender - v))\<rparr>)\<rparr>"
    using ch by (auto simp: charge_def on_token_eq_Inr consume_allowance_run)
  define d0 where "d0 = (case inbound_verdict token owner (target rcp) e c of
      Inr (Some _) \<Rightarrow> RECEIVE_POLICY_GUARD_ADDRESS | _ \<Rightarrow> target rcp)"
  have cr: "credited e token owner rcp c1 = d0"
    by (simp add: credited_def inbound_verdict_def c1 d0_def)
  have nz: "d0 \<noteq> 0"
    using ok by (auto simp: d0_def accepted_def recipient_validate_def rensure_eq_Inr RECEIVE_POLICY_GUARD_ADDRESS_def
        split: sum.splits option.splits)
  have t1: "balances (tokens c1 token) = balances ?t" "total_supply (tokens c1 token) = total_supply ?t"
    "\<And>a. a \<noteq> token \<Longrightarrow> tokens c1 a = tokens c a"
    "allowances (tokens c1 token) = (allowances ?t)(owner := (allowances ?t owner)(spender :=
        if allowances ?t owner spender = - 1 then - 1 else allowances ?t owner spender - v))"
    by (simp_all add: c1)
  note g = delivers_ledger[OF d, unfolded cr t1(1)]
  note n = moved_nat[OF g(1) nz g(2)[rule_format, OF nz]]
  have eqs: "allowances (tokens c' token) = (allowances ?t)(owner := (allowances ?t owner)(spender :=
        if allowances ?t owner spender = - 1 then - 1 else allowances ?t owner spender - v))"
    "total_supply (tokens c' token) = total_supply ?t" "\<And>a. a \<noteq> token \<Longrightarrow> tokens c' a = tokens c a"
    using g(4-6) t1 by auto
  show ?thesis
    by (rule exI[of _ rcp], unfold d0_def[symmetric] Let_def g(3) eqs(1,2))
      (use ok al g(1) n eqs(3) in \<open>simp add: accepted_def\<close>)
qed

theorem transfer_from_exact_witness:
  "\<exists>c' l. transfer_from PATH_USD_ADDRESS BOB ALICE BOB 300 (chain_env T5)
       (demo_chain (demo_minted_token\<lparr>allowances := (\<lambda>_ _. 0)(ALICE := (\<lambda>_. 0)(BOB := 400))\<rparr>)) = Inr (True, c', l) \<and>
     allowances (tokens c' PATH_USD_ADDRESS) ALICE BOB = 100 \<and> unat (balances (tokens c' PATH_USD_ADDRESS) BOB) = 800"
proof -
  let ?t = "demo_minted_token\<lparr>allowances := (\<lambda>_ _. 0)(ALICE := (\<lambda>_. 0)(BOB := 400))\<rparr>"
    and ?e = "chain_env T5"
  have f: "\<not> paused ?t" "legacy_transfer_policy_id ?t = ALLOW_ALL_POLICY_ID"
    by (simp_all add: demo_minted_token_def demo_issuer_token_def demo_token_def token_init_def)
  have core: "\<exists>t' l. transfer_core PATH_USD_ADDRESS ALICE (direct BOB) 300 ?e
      (?t\<lparr>allowances := (\<lambda>_ _. 0)(ALICE := (\<lambda>_. 0)(BOB := 100))\<rparr>) = Inr ((), t', l)"
    by (simp add: ledger_exec sub_opted_in_def demo_minted_token_def demo_issuer_token_def demo_token_def token_init_def)
  have "\<exists>c' l. transfer_from PATH_USD_ADDRESS BOB ALICE BOB 300 ?e (demo_chain ?t) = Inr (True, c', l)"
    using core f
    by (auto simp: transfer_from_def validate_transfer_def demo_exec bind_assoc recipient_resolve_def resolve_recipient_def
        check_not_paused_def recipient_validate_def direct_def ensure_transfer_authorized_def is_transfer_authorized_def
        transfer_policy_id_def consume_allowance_def checked_sub_def set_allowance_def validate_inbound_or_block_def bind_ret
        finish_transfer_def emit_hop_def build_virtual_transfer_event_def)
  then obtain ok c' l where run: "transfer_from PATH_USD_ADDRESS BOB ALICE BOB 300 ?e (demo_chain ?t) = Inr (ok, c', l)" "ok" by blast
  have r: "recipient_resolve BOB e' c'' = Inr (direct BOB)" for e' c''
    by (simp add: recipient_resolve_def resolve_recipient_def)
  have "balances demo_minted_token = (\<lambda>_. 0)(ALICE := 1000, BOB := 500)" by (simp add: demo_minted_token_def)
  with transfer_from_exact[OF run(1)] run show ?thesis
    by (intro exI[of _ c'] exI[of _ l]) (auto simp: r direct_def inbound_verdict_def Let_def)
qed

end
