(* ===== verification/Token_Fields.thy ===== *)
theory Token_Fields
  imports Token_Laws TIP20_Accounting
begin

text \<open>
  Fields of a token that moving funds does not touch. A field that does not depend on balances,
  supply and rewards is the same after every operation that moves, mints or burns tokens or pays
  rewards. Allowances and the quote token are such fields.
\<close>

locale ledger_free =
  fixes f :: "tip20_token \<Rightarrow> 'f"
  assumes frame: "f (t\<lparr>balances := b\<rparr>) = f t" "f (t\<lparr>total_supply := n\<rparr>) = f t" "f (t\<lparr>supply_cap := n\<rparr>) = f t"
    "f (t\<lparr>opted_in_supply := k\<rparr>) = f t" "f (t\<lparr>reward_infos := r\<rparr>) = f t" "f (t\<lparr>global_reward_per_token := n\<rparr>) = f t"
begin

definition keeps_field :: "env \<Rightarrow> (tip20_token, 'a) op \<Rightarrow> bool" where
  "keeps_field e m \<longleftrightarrow> (\<forall>x. preserves e (\<lambda>t. f t = x) m)"

lemma rewards_only_field:
  assumes "rewards_only e m"
  shows "preserves e (\<lambda>t. f t = x) m"
proof (rule validI)
  fix t a t' l assume "f t = x" and "m e t = Inr (a, t', l)"
  moreover from this have "t' = t\<lparr>opted_in_supply := opted_in_supply t', reward_infos := reward_infos t'\<rparr>"
    using rewards_onlyD[OF assms] by (simp only: only_rewards_def)
  ultimately show "f t' = x" by (metis frame(4,5))
qed

lemma simple_field:
  "preserves e (\<lambda>t. f t = x) (increment_balance a v)" "preserves e (\<lambda>t. f t = x) (decrement_balance self a v)"
  "preserves e (\<lambda>t. f t = x) (set_balance a v)" "preserves e (\<lambda>t. f t = x) (emit20 self ev)"
  "preserves e (\<lambda>t. f t = x) (set_total_supply v)" "preserves e (\<lambda>t. f t = x) (set_reward_info a i)"
  "preserves e (\<lambda>t. f t = x) (check_role a role)"
  by (rule validI; auto simp: increment_balance_Inr decrement_balance_Inr set_balance_def emit20_def set_total_supply_def
      set_reward_info_def with_info_def check_role_def run_simps frame)+

lemma transfer_field: "preserves e (\<lambda>t. f t = x) (transfer_core self from to v)"
  unfolding transfer_core_def by (intro valid_intros simple_field rewards_only_field rewards_only_hooks)

lemmas reward_fields = rewards_only_field[OF rewards_only_update] rewards_only_field[OF rewards_only_opted(1)]
  rewards_only_field[OF rewards_only_opted(2)] rewards_only_field[OF rewards_only_hooks(2)]

lemma keeps_field_ops:
  "keeps_field e (transfer_core self from to v)" "keeps_field e (mint_core self to w v)"
  "keeps_field e (reduce_supply self v)" "keeps_field e (claim_core self a)"
  "keeps_field e (distribute_core self a v)" "keeps_field e (set_recipient_core self a r)"
  "keeps_field e (fee_pre_core self a v)" "keeps_field e (fee_post_core self a v)"
  "keeps_field e (set_supply_cap self a v)"
  unfolding keeps_field_def mint_core_def reduce_supply_def claim_core_def distribute_core_def set_recipient_core_def
    fee_pre_core_def fee_post_core_def set_supply_cap_def Let_def
  by (intro allI valid_intros transfer_field simple_field reward_fields; simp add: frame)+

end

interpretation allowance_field: ledger_free allowances by unfold_locales simp_all

interpretation quote_field: ledger_free quote_token by unfold_locales simp_all

end
