(* ===== verification/Custody.thy ===== *)
theory Custody
  imports Transfer_Spec Token_Fields
begin

text \<open>
  Funds held by a precompile. A custodian is a system account that has no signing key and gives
  no allowance: nothing but the custodian's own methods can take tokens out of its balance.
  \<open>custody\<close> is the token law that says so; the solvency proofs of the components that hold funds
  rest on it.
\<close>

section \<open>The custody law\<close>

definition custody :: "address \<Rightarrow> (address \<Rightarrow> nat) \<Rightarrow> address \<Rightarrow> tip20_token \<Rightarrow> bool" where
  "custody K b self t \<longleftrightarrow> (\<forall>spender. allowances t K spender = 0) \<and> b self \<le> unat (balances t K)"

definition custodian :: "env \<Rightarrow> address \<Rightarrow> bool" where
  "custodian e K \<longleftrightarrow> K \<noteq> 0 \<and> \<not> is_tip20_prefix K \<and> \<not> external_account K \<and> (\<forall>self. is_protected self K (spec e))"

text \<open>Operations that leave one account's balance and all allowances alone.\<close>

definition leaves :: "address \<Rightarrow> u256 \<Rightarrow> (address \<Rightarrow> address \<Rightarrow> u256) \<Rightarrow> tip20_token \<Rightarrow> bool" where
  "leaves K x al t \<longleftrightarrow> balances t K = x \<and> allowances t = al"

lemma rewards_only_leaves: "rewards_only e m \<Longrightarrow> preserves e (leaves K x al) m"
proof (rule validI)
  fix t a t' l assume m: "rewards_only e m" and t: "leaves K x al t" and run: "m e t = Inr (a, t', l)"
  from only_rewards_eqs[OF conjunct1[OF rewards_onlyD[OF m run]]] t show "leaves K x al t'" by (simp add: leaves_def)
qed

lemma leaves_ops [valid_intros]:
  "a \<noteq> K \<Longrightarrow> preserves e (leaves K x al) (set_balance a v)"
  "preserves e (leaves K x al) (set_reward_info b i)"
  "preserves e (leaves K x al) (emit20 self ev)"
  "preserves e (leaves K x al) (update_rewards b)"
  "preserves e (leaves K x al) (add_opted_in w)" "preserves e (leaves K x al) (sub_opted_in w)"
  "preserves e (leaves K x al) (set_total_supply w)"
  "preserves e (leaves K x al) (handle_rewards_on_mint b w)"
  unfolding set_balance_def set_reward_info_def emit20_def set_total_supply_def
  by (intro valid_intros rewards_only_leaves rewards_only_update rewards_only_opted rewards_only_hooks; simp add: leaves_def)+

lemma leaves_balance_change [valid_intros]:
  "a \<noteq> K \<Longrightarrow> preserves e (leaves K x al) (increment_balance a v)"
  "a \<noteq> K \<Longrightarrow> preserves e (leaves K x al) (decrement_balance self a v)"
  by (rule validI; auto simp: increment_balance_Inr decrement_balance_Inr leaves_def)+

lemma leaves_transfer [valid_intros]:
  "from \<noteq> K \<Longrightarrow> target to \<noteq> K \<Longrightarrow> preserves e (leaves K x al) (transfer_core self from to v)"
  by (rule validI) (simp add: leaves_def transfer_core_moves(2) transfer_core_fields(3) moved_def Let_def)

lemma leaves_rewards [valid_intros]:
  "K \<noteq> self \<Longrightarrow> a \<noteq> K \<Longrightarrow> preserves e (leaves K x al) (claim_core self a)"
  "K \<noteq> self \<Longrightarrow> a \<noteq> K \<Longrightarrow> preserves e (leaves K x al) (distribute_core self a v)"
  "preserves e (leaves K x al) (set_recipient_core self a r)"
  unfolding claim_core_def distribute_core_def set_recipient_core_def Let_def
  by (intro valid_intros; simp add: leaves_def direct_def)+

lemma leaves_custody:
  assumes "\<And>x al. preserves e (leaves K x al) m"
  shows "preserves e (custody K b self) m"
proof (rule validI)
  fix t a t' l assume c: "custody K b self t" and run: "m e t = Inr (a, t', l)"
  have "leaves K (balances t K) (allowances t) t" by (simp add: leaves_def)
  from validD[OF assms this run] c show "custody K b self t'" by (simp add: leaves_def custody_def)
qed

lemma custody_credit:
  assumes "increment_balance a v e t = Inr (u, t', l)" "custody K b self t"
  shows "custody K b self t'"
  using assms by (cases "a = K") (auto simp: increment_balance_Inr custody_def unat_word_ariths)

lemma custody_transfer:
  assumes "from \<noteq> K \<or> v = 0" "target to \<noteq> 0"
  shows "preserves e (custody K b self) (transfer_core self from to v)"
proof (rule validI)
  fix t u t' l assume c: "custody K b self t" and run: "transfer_core self from to v e t = Inr (u, t', l)"
  note m = transfer_core_moves[OF run]
  have "unat (balances t K) \<le> unat (balances t' K)"
    unfolding m(2) using assms m(1) m(3)[rule_format, OF assms(2)]
    by (cases "target to = K"; cases "from = K") (auto simp: moved_def Let_def unat_word_ariths)
  with c show "custody K b self t'" by (simp add: custody_def transfer_core_fields(3)[OF run])
qed

lemma custody_burn:
  assumes "from \<noteq> K"
  shows "preserves e (custody K b self) (bind (transfer_core self from (direct ADDRESS_ZERO) v) (\<lambda>_. reduce_supply self v))"
proof (rule validI)
  fix t u t' l assume c: "custody K b self t"
    and "bind (transfer_core self from (direct ADDRESS_ZERO) v) (\<lambda>_. reduce_supply self v) e t = Inr (u, t', l)"
  then obtain t1 l1 w where run: "transfer_core self from (direct ADDRESS_ZERO) v e t = Inr ((), t1, l1)"
    and t': "t' = t1\<lparr>total_supply := w\<rparr>"
    by (auto simp: bind_eq_Inr reduce_supply_def set_total_supply_def ok_or_eq_Inr)
  with c assms show "custody K b self t'"
    by (simp add: custody_def transfer_core_fields(3)[OF run] transfer_core_moves(2)[OF run] moved_def Let_def direct_def)
qed

lemma custody_mint: "preserves e (custody K b self) (bind (gets total_supply) (\<lambda>s. mint_core self to s v))"
proof (rule validI)
  fix t u t' l assume c: "custody K b self t" and "bind (gets total_supply) (\<lambda>s. mint_core self to s v) e t = Inr (u, t', l)"
  then obtain w t1 l1 l2 where h: "handle_rewards_on_mint (target to) v e t = Inr ((), t1, l1)"
    and inc: "increment_balance (target to) v e (t1\<lparr>total_supply := w\<rparr>) = Inr ((), t', l2)"
    by (auto simp: mint_core_def bind_eq_Inr ensure_eq_Inr ok_or_eq_Inr set_total_supply_def emit20_def)
  have "only_rewards t t1" using rewards_onlyD[OF rewards_only_hooks(2) h] by simp
  from only_rewards_eqs[OF this] c have "custody K b self (t1\<lparr>total_supply := w\<rparr>)" by (simp add: custody_def)
  from custody_credit[OF inc this] show "custody K b self t'" .
qed

lemma custody_fee_pre:
  assumes "a \<noteq> K"
  shows "preserves e (custody K b self) (fee_pre_core self a v)"
proof -
  have inc: "preserves e (custody K b self) (increment_balance x v)" for x
    by (rule validI) (blast intro: custody_credit)
  show ?thesis unfolding fee_pre_core_def
    by (intro preserves_bind preserves_whenM inc leaves_custody valid_intros assms)
qed

lemma custody_law:
  assumes K: "custodian e K" and keys: "no_system_keys e"
  shows "token_law e (\<lambda>_. custody K b) (\<lambda>_ a. a \<noteq> K)"
proof unfold_locales
  show "custody K b self t'" if "same_ledger t t'" "custody K b self t" for t t' self
    using that by (simp add: same_ledger_def custody_def)
  show "a \<noteq> K" if "external_account a" for a using K that by (auto simp: custodian_def)
  show "a \<noteq> K" if "\<not> is_protected self a (spec e)" for self a using K that by (auto simp: custodian_def)
  show "preserves e (custody K b self) (set_allowance owner spender v)" if "external_account owner" for owner self spender v
    by (rule validI) (use K that in \<open>auto simp: set_allowance_def custody_def custodian_def\<close>)
  show "preserves e (custody K b self) (permit self owner spender v deadline y r s)" for self owner spender v deadline y r s
  proof (rule validI)
    fix t u t' l assume c: "custody K b self t" and run: "permit self owner spender v deadline y r s e t = Inr (u, t', l)"
    obtain n d where "recover_signer e d y r s = Some owner"
      and t': "t' = t\<lparr>permit_nonces := n, allowances := (allowances t)(owner := (allowances t owner)(spender := v))\<rparr>"
      using run by (auto simp: permit_def run_simps set_allowance_def emit20_def)
    then have "external_account owner" using keys
      by (auto simp: recover_signer_def no_system_keys_def split: if_splits option.splits)
    then have "owner \<noteq> K" using K by (auto simp: custodian_def)
    with c show "custody K b self t'" by (simp add: t' custody_def)
  qed
  show "valid e (custody K b self) (consume_allowance owner spender v) (\<lambda>_ t. custody K b self t \<and> (owner \<noteq> K \<or> v = 0))"
    for self owner spender v
    by (rule validI) (auto simp: consume_allowance_run custody_def)
  show "preserves e (custody K b self) (set_supply_cap self sender v)" for self sender v
    by (rule validI) (auto simp: set_supply_cap_def run_simps check_role_def emit20_def custody_def)
  show "preserves e (custody K b self) (transfer_core self from to v)" if "from \<noteq> K \<or> v = 0" "target to \<noteq> ADDRESS_ZERO"
    for self "from" v to using that by (rule custody_transfer)
  show "preserves e (custody K b self) (claim_core self a)" if "is_tip20_prefix self" "external_account a" for self a
    using K that by (intro leaves_custody valid_intros) (auto simp: custodian_def)
  show "preserves e (custody K b self) (distribute_core self a v)" if "is_tip20_prefix self" "external_account a" for self a v
    using K that by (intro leaves_custody valid_intros) (auto simp: custodian_def)
  show "preserves e (custody K b self) (set_recipient_core self a r)" for self a r
    by (intro leaves_custody valid_intros)
  show "preserves e (custody K b self) (fee_pre_core self a v)" if "external_account a" for self a v
    using K that by (intro custody_fee_pre) (auto simp: custodian_def)
  show "preserves e (custody K b self) (fee_post_core self a v)"
    if "TIP_FEE_MANAGER_ADDRESS \<noteq> K" for self a v
  proof -
    have inc: "preserves e (custody K b self) (increment_balance x v)" for x
      by (rule validI) (blast intro: custody_credit)
    show ?thesis unfolding fee_post_core_def
      by (intro preserves_bind preserves_whenM inc leaves_custody valid_intros that)
  qed
qed (simp_all add: custody_burn custody_mint)

lemma custodians:
  "custodian e TIP_FEE_MANAGER_ADDRESS"
  "custodian e STABLECOIN_DEX_ADDRESS"
  "is_t5 (spec e) \<Longrightarrow> custodian e TIP20_CHANNEL_RESERVE_ADDRESS"
  "is_t6 (spec e) \<Longrightarrow> custodian e RECEIVE_POLICY_GUARD_ADDRESS"
proof -
  have "Genesis \<le> h" for h by (simp add: fork_eval)
  then show "custodian e TIP_FEE_MANAGER_ADDRESS" "custodian e STABLECOIN_DEX_ADDRESS"
    "is_t5 (spec e) \<Longrightarrow> custodian e TIP20_CHANNEL_RESERVE_ADDRESS" "is_t6 (spec e) \<Longrightarrow> custodian e RECEIVE_POLICY_GUARD_ADDRESS"
    by (auto simp: custodian_def is_protected_def PROTECTED_def external_account_def SYSTEM_PRECOMPILES_def
        is_tip20_prefix_def TIP20_TOKEN_PREFIX_def address_defs is_t5_def is_t6_def)
qed

section \<open>System accounts give no allowance\<close>

lemma custody_zero: "custody K (\<lambda>_. 0) self t \<longleftrightarrow> (\<forall>spender. allowances t K spender = 0)"
  by (simp add: custody_def)

lemma keeps_allowances_zero: "allowance_field.keeps_field e m \<Longrightarrow> preserves e (custody K (\<lambda>_. 0) self) m"
  unfolding custody_zero[abs_def] allowance_field.keeps_field_def valid_def by metis

lemma no_allowance_law:
  assumes K: "\<not> external_account K" and keys: "no_system_keys e"
  shows "chain_law e (\<lambda>_. custody K (\<lambda>_. 0)) (\<lambda>_ _. True)"
proof unfold_locales
  show "preserves e (custody K (\<lambda>_. 0) self) (set_allowance owner spender v)" if "external_account owner" for owner self spender v
    by (rule validI) (use K that in \<open>auto simp: set_allowance_def custody_def\<close>)
  show "preserves e (custody K (\<lambda>_. 0) self) (permit self owner spender v deadline y r s)" for self owner spender v deadline y r s
  proof (rule validI)
    fix t u t' l assume c: "custody K (\<lambda>_. 0) self t" and run: "permit self owner spender v deadline y r s e t = Inr (u, t', l)"
    obtain n d where "recover_signer e d y r s = Some owner"
      and t': "t' = t\<lparr>permit_nonces := n, allowances := (allowances t)(owner := (allowances t owner)(spender := v))\<rparr>"
      using run by (auto simp: permit_def run_simps set_allowance_def emit20_def)
    then have "owner \<noteq> K" using keys K
      by (auto simp: recover_signer_def no_system_keys_def split: if_splits option.splits)
    with c show "custody K (\<lambda>_. 0) self t'" by (simp add: t' custody_def)
  qed
  show "valid e (custody K (\<lambda>_. 0) self) (consume_allowance owner spender v) (\<lambda>_ t. custody K (\<lambda>_. 0) self t \<and> (True \<or> v = 0))"
    for self owner spender v by (rule validI) (auto simp: consume_allowance_run custody_def)
  show "preserves e (custody K (\<lambda>_. 0) self) (bind (transfer_core self from (direct ADDRESS_ZERO) v) (\<lambda>_. reduce_supply self v))"
    for self "from" v by (intro preserves_bind keeps_allowances_zero allowance_field.keeps_field_ops)
  show "preserves e (custody K (\<lambda>_. 0) self) (bind (gets total_supply) (\<lambda>supply. mint_core self to supply v))" for self to v
    by (intro preserves_bind preserves_basic keeps_allowances_zero allowance_field.keeps_field_ops)
qed (auto simp: same_ledger_def custody_zero intro!: keeps_allowances_zero allowance_field.keeps_field_ops)

text \<open>Before T6 nothing writes to the guard.\<close>

lemma frozen_guard_law:
  assumes "\<not> is_t6 (spec e)"
  shows "guarded_chain_law e (\<lambda>g _ _. seen_guard g = g0) (\<lambda>_ _. True)"
proof -
  have law: "guarded_law e (\<lambda>g _ _. seen_guard g = g0) (\<lambda>_ _. True)"
    using assms by unfold_locales (auto simp: valid_def)
  show ?thesis
  proof unfold_locales
    show "preserves e (all_tokens (\<lambda>g _ _. seen_guard g = g0)) (reserve_exec m call)" if "external_account m" for m call
      by (rule guarded_law.keeps_reserve_exec[OF law _ _ that]) simp_all
  qed (use assms in \<open>auto simp: valid_def\<close>)
qed

lemma guard_before_t6: "\<not> is_t6 (spec e) \<Longrightarrow> chain_step e c c' \<Longrightarrow> guard c' = guard c"
  using guarded_chain_law.step_keeps[OF frozen_guard_law[of e "guard c"], of c c'] path_usd(1)
  unfolding all_tokens_def by fastforce

end
