(* ===== verification/Channel_Effects.thy ===== *)
theory Channel_Effects
  imports Custody
begin

text \<open>
  What the methods of the channel reserve do when they succeed: the checks that passed, the token
  payments, and the new channel. The storage-credit bookkeeping around them touches neither tokens
  nor channels.
\<close>

section \<open>Channel storage\<close>

text \<open>Everything outside the reserve and the storage credits is as in \<open>c0\<close>; the channels are \<open>S\<close>.\<close>

definition storage_at :: "chain \<Rightarrow> (b256 \<Rightarrow> packed_channel_state) \<Rightarrow> chain \<Rightarrow> bool" where
  "storage_at c0 S c \<longleftrightarrow> (\<exists>r s. c = c0\<lparr>reserve := r, credits := s\<rparr> \<and> channel_states r = S)"

lemma storage_at_refl: "storage_at c (channel_states (reserve c)) c"
  unfolding storage_at_def by (rule exI[of _ "reserve c"], rule exI[of _ "credits c"]) simp

lemma storage_atD:
  assumes "storage_at c0 S c"
  shows "tokens c = tokens c0" "tip403 c = tip403 c0" "guard c = guard c0" "addresses c = addresses c0"
    "keychain c = keychain c0" "deployed c = deployed c0" "channel_states (reserve c) = S"
  using assms by (auto simp: storage_at_def)

lemma storage_at_basic:
  "preserves e (storage_at c0 S) (on_credits m7)"
  "preserves e (storage_at c0 S) (write_channel_storage_credits pay n)"
  "valid e (storage_at c0 S) (write_channel_state cid st) (\<lambda>_. storage_at c0 (S(cid := st)))"
  by (rule validI; auto simp: storage_at_def run_simps write_channel_storage_credits_def write_channel_state_def; fastforce)+

lemma valid_if: "(b \<Longrightarrow> valid e I m J) \<Longrightarrow> (\<not> b \<Longrightarrow> valid e I m' J) \<Longrightarrow> valid e I (if b then m else m') J"
  by simp

text \<open>A tracked or budgeted write does what the write does.\<close>

lemma track_minted_valid:
  assumes f: "valid e I f (\<lambda>_. J)"
  shows "valid e I (track_minted_credits a f) (\<lambda>_. J)"
  unfolding track_minted_credits_def
  by (rule valid_bind[OF preserves_basic(3)] valid_if)+
    (rule valid_bind[OF f] valid_bind[OF preserves_basic(4) valid_bind[OF f]], (intro valid_intros)+)+

lemma with_budget_valid:
  assumes f: "valid e I f (\<lambda>_. J)" and cr: "preserves e I (on_credits (set_budget a n))" "\<And>x. preserves e J (on_credits (write_credit_state_of a x))"
  shows "valid e I (with_budget a n f) (\<lambda>_. J)"
  unfolding with_budget_def
proof (rule valid_bind[OF preserves_basic(3)], intro valid_if)
  show "valid e I (bind f (\<lambda>_. ret 0)) (\<lambda>_. J)" by (rule valid_bind[OF f]) (intro valid_intros)
qed (rule valid_bind[OF preserves_basic(4) valid_bind[OF f]] valid_bind[OF cr(1) valid_bind[OF preserves_basic(4) valid_bind[OF f]]],
     (intro valid_intros cr(2))+)+

lemma credit_slots_storage: "preserves e (storage_at c0 S) (credit_channel_storage_slots pay n)"
  unfolding credit_channel_storage_slots_def Let_def
  by (intro valid_intros with_budget_valid storage_at_basic)

lemma storage_at_writes:
  "valid e (storage_at c0 S) (delete_channel_state_and_credit_payer cid pay) (\<lambda>_. storage_at c0 (S(cid := empty_channel)))"
  "valid e (storage_at c0 S) (write_channel_state_spending_credit pay cid st) (\<lambda>_. storage_at c0 (S(cid := st)))"
proof -
  note w = storage_at_basic(3)
  show "valid e (storage_at c0 S) (delete_channel_state_and_credit_payer cid pay) (\<lambda>_. storage_at c0 (S(cid := empty_channel)))"
    unfolding delete_channel_state_and_credit_payer_def by (rule valid_bind[OF track_minted_valid[OF w] credit_slots_storage])
  have b: "valid e (storage_at c0 S) (with_budget a n (write_channel_state cid st)) (\<lambda>_. storage_at c0 (S(cid := st)))" for a n
    by (rule with_budget_valid[OF w storage_at_basic(1) storage_at_basic(1)])
  show "valid e (storage_at c0 S) (write_channel_state_spending_credit pay cid st) (\<lambda>_. storage_at c0 (S(cid := st)))"
    unfolding write_channel_state_spending_credit_def Let_def
    by (rule w valid_bind[OF preserves_basic(3)] valid_bind[OF preserves_basic(4)] valid_bind[OF b] valid_if
        valid_bind[OF storage_at_basic(2)] valid_bind[OF preserves_basic(7)] credit_slots_storage)+
qed

section \<open>Payments\<close>

text \<open>
  \<open>paid tok from to v T T'\<close>: the tokens \<open>T'\<close> after \<open>v\<close> of \<open>tok\<close> moved from one account to another. A
  payment of nothing may leave all tokens as they are.
\<close>

definition paid :: "address \<Rightarrow> address \<Rightarrow> address \<Rightarrow> u256 \<Rightarrow> (address \<Rightarrow> tip20_token) \<Rightarrow> (address \<Rightarrow> tip20_token) \<Rightarrow> bool" where
  "paid tok from to v T T' \<longleftrightarrow> (\<forall>a. a \<noteq> tok \<longrightarrow> T' a = T a) \<and> v \<le> balances (T tok) from \<and> to \<noteq> 0 \<and>
     unat (((balances (T tok))(from := balances (T tok) from - v)) to) + unat v < 2 ^ 256 \<and>
     balances (T' tok) = moved from to v (balances (T tok)) \<and> allowances (T' tok) = allowances (T tok)"

lemma paid_balances:
  assumes "paid tok from to v T T'"
  shows "from \<noteq> to \<Longrightarrow> unat (balances (T' tok) from) + unat v = unat (balances (T tok) from)"
    "from \<noteq> to \<Longrightarrow> unat (balances (T' tok) to) = unat (balances (T tok) to) + unat v"
    "a \<noteq> from \<Longrightarrow> a \<noteq> to \<Longrightarrow> balances (T' tok) a = balances (T tok) a"
    "from = to \<Longrightarrow> balances (T' tok) = balances (T tok)"
  using assms by (auto simp: paid_def moved_def Let_def unat_sub word_le_nat_alt unat_word_ariths)

lemma paid_core:
  assumes "transfer_core tok from to v e (T tok) = Inr (u, t', l)" "target to \<noteq> 0"
  shows "paid tok from (target to) v T (T(tok := t'))"
  using transfer_core_moves[OF assms(1)] transfer_core_fields(3)[OF assms(1)] assms(2) by (simp add: paid_def)

lemma channel_transfer_paid:
  assumes run: "channel_reserve_transfer tok from rcp v s e c = Inr (u, c', l)"
  shows "paid tok from (target rcp) v (tokens c) (tokens c')" "\<not> paused (tokens c tok)"
    "reserve c' = reserve c" "credits c' = credits c" "tip403 c' = tip403 c" "addresses c' = addresses c" "guard c' = guard c"
    "check_receive_policy tok s (target rcp) e (tip403 c) = Inr None"
proof -
  have lim: "\<exists>k. c1 = c\<lparr>keychain := k\<rparr>" if "check_and_update_spending_limit tok from v e c = Inr (x, c1, l1)" for x c1 l1
    using that by (auto simp: check_and_update_spending_limit_def run_simps)
  obtain k t' l1 where np: "\<not> paused (tokens c tok)" and val: "recipient_validate rcp = Inr ()"
    and rp: "check_receive_policy tok s (target rcp) e (tip403 c) = Inr None"
    and tr: "transfer_core tok from rcp v e (tokens c tok) = Inr ((), t', l1)"
    and c': "c' = c\<lparr>keychain := k, tokens := (tokens c)(tok := t')\<rparr>"
    using run unfolding channel_reserve_transfer_def
    by (auto simp: bind_eq_Inr query_eq_Inr ensure_eq_Inr on_token_eq_Inr check_not_paused_def ensure_receive_policy_authorized_def
        validate_receive_policy_def rbind_eq_Inr rensure_eq_Inr dest!: lim readsD[OF reads_simps(4)])
  have "target rcp \<noteq> 0" using val by (auto simp: recipient_validate_def rensure_eq_Inr)
  from paid_core[of tok "from" rcp v e "tokens c", OF tr this] show "paid tok from (target rcp) v (tokens c) (tokens c')" by (simp add: c')
  show "\<not> paused (tokens c tok)" "reserve c' = reserve c" "credits c' = credits c" "tip403 c' = tip403 c" "addresses c' = addresses c"
    "guard c' = guard c" "check_receive_policy tok s (target rcp) e (tip403 c) = Inr None" using np rp by (simp_all add: c')
qed

lemma transfer_paid:
  assumes run: "transfer tok from to v e c = Inr (u, c', l)"
  obtains rcp where "accepted e tok from to rcp c" "paid tok from (credited e tok from rcp c) v (tokens c) (tokens c')"
    "reserve c' = reserve c" "credits c' = credits c" "tip403 c' = tip403 c" "addresses c' = addresses c"
proof -
  obtain rcp c1 l1 where ok: "accepted e tok from to rcp c" and ch: "charge tok None from v e c = Inr ((), c1, l1)"
    and del: "delivers e tok from rcp v 0 c1 c'" using transfer_runs(1)[OF run] by blast
  obtain k where c1: "c1 = c\<lparr>keychain := k\<rparr>"
    using ch by (auto simp: charge_def check_and_update_spending_limit_def run_simps)
  have cr: "credited e tok from rcp c1 = credited e tok from rcp c" by (simp add: c1 credited_def inbound_verdict_def)
  have "target rcp \<noteq> 0" using ok by (auto simp: accepted_def recipient_validate_def rensure_eq_Inr)
  then have nz: "credited e tok from rcp c \<noteq> 0"
    by (auto simp: credited_def RECEIVE_POLICY_GUARD_ADDRESS_def split: sum.splits option.splits)
  note d = delivers_ledger[OF del]
  show thesis
  proof (rule that[OF ok])
    show "paid tok from (credited e tok from rcp c) v (tokens c) (tokens c')"
      using d(1,2,3,4,6) nz unfolding cr by (simp add: paid_def c1)
    show "reserve c' = reserve c" "credits c' = credits c" using del by (auto simp: delivers_def c1)
    show "tip403 c' = tip403 c" "addresses c' = addresses c" using d(9,10) by (simp_all add: c1)
  qed
qed

text \<open>The reserve has no receive policy, so a deposit reaches it.\<close>

abbreviation reserve_open :: "tip403_registry \<Rightarrow> bool" where
  "reserve_open r \<equiv> \<not> has_receive_policy (config (receive_policies r RESERVE))"

lemma resolve_reserve: "recipient_resolve RESERVE e c = Inr (direct RESERVE)" "target (direct a) = a"
  by (simp_all add: recipient_resolve_def resolve_recipient_def decode_virtual_def is_virtual_def VIRTUAL_MAGIC_def
      TIP20_CHANNEL_RESERVE_ADDRESS_def direct_def)

lemma system_transfer_paid:
  assumes run: "system_transfer_from tok RESERVE from v e c = Inr (u, c', l)" and rp: "reserve_open (tip403 c)"
  shows "paid tok from RESERVE v (tokens c) (tokens c')" "reserve c' = reserve c" "credits c' = credits c"
    "tip403 c' = tip403 c" "addresses c' = addresses c"
proof -
  have "\<exists>l. transfer tok from RESERVE v e c = Inr (u, c', l)"
    using run by (auto simp: system_transfer_from_def transfer_def bind_exec split: if_splits)
  then obtain l2 where "transfer tok from RESERVE v e c = Inr (u, c', l2)" ..
  then obtain rcp where ok: "accepted e tok from RESERVE rcp c"
    and p: "paid tok from (credited e tok from rcp c) v (tokens c) (tokens c')"
    "reserve c' = reserve c" "credits c' = credits c" "tip403 c' = tip403 c" "addresses c' = addresses c" by (rule transfer_paid)
  have r: "target rcp = RESERVE" using ok by (auto simp: accepted_def resolve_reserve)
  then have "credited e tok from rcp c = RESERVE"
    using rp by (auto simp: credited_def inbound_verdict_def check_receive_policy_def TIP20_CHANNEL_RESERVE_ADDRESS_def
        RECEIVE_POLICY_GUARD_ADDRESS_def rensure_def)
  with p show "paid tok from RESERVE v (tokens c) (tokens c')" "reserve c' = reserve c" "credits c' = credits c"
    "tip403 c' = tip403 c" "addresses c' = addresses c" by simp_all
qed

section \<open>Methods\<close>

text \<open>
  The account a payment out of the reserve credits: from T12 on the resolved recipient, whose
  receive policy accepted the payment; before, whatever an ordinary transfer credits.
\<close>

definition pays_out :: "env \<Rightarrow> address \<Rightarrow> address \<Rightarrow> u256 \<Rightarrow> chain \<Rightarrow> (address \<Rightarrow> tip20_token) \<Rightarrow> (address \<Rightarrow> tip20_token) \<Rightarrow> bool" where
  "pays_out e tok to v c T T' \<longleftrightarrow>
     (if v = 0 then T' = T
      else \<exists>rcp. recipient_resolve to e c = Inr rcp \<and>
        paid tok RESERVE (if is_t12 (spec e) then target rcp else credited e tok RESERVE rcp c) v T T')"

lemma pays_out_bound:
  assumes "pays_out e tok to v c T T'"
  shows "a \<noteq> tok \<Longrightarrow> T' a = T a" "unat (balances (T tok) RESERVE) \<le> unat (balances (T' tok) RESERVE) + unat v"
    "allowances (T' tok) = allowances (T tok)"
proof -
  have "T' = T \<or> (\<exists>x. paid tok RESERVE x v T T')" using assms unfolding pays_out_def by (meson)
  then consider (same) "T' = T" | (pay) x where "paid tok RESERVE x v T T'" by blast
  then show "a \<noteq> tok \<Longrightarrow> T' a = T a" "unat (balances (T tok) RESERVE) \<le> unat (balances (T' tok) RESERVE) + unat v"
    "allowances (T' tok) = allowances (T tok)"
  proof (atomize (full), cases)
    case same
    then show "(a \<noteq> tok \<longrightarrow> T' a = T a) \<and> unat (balances (T tok) RESERVE) \<le> unat (balances (T' tok) RESERVE) + unat v \<and>
        allowances (T' tok) = allowances (T tok)" by simp
  next
    case pay
    then show "(a \<noteq> tok \<longrightarrow> T' a = T a) \<and> unat (balances (T tok) RESERVE) \<le> unat (balances (T' tok) RESERVE) + unat v \<and>
        allowances (T' tok) = allowances (T tok)"
      using paid_balances(1,4)[OF pay] by (cases "x = RESERVE") (auto simp: paid_def)
  qed
qed

lemma unat_difference: "a \<le> b \<Longrightarrow> unat (ucast (b - a :: u96) :: u256) = unat b - unat a"
  by (simp add: unat_ucast_up unat_sub)

lemma difference_nonzero: "a < b \<Longrightarrow> (ucast (b - a :: u96) :: u256) \<noteq> 0"
  using unat_difference[of a b] by (auto simp: word_less_nat_alt word_le_nat_alt)

lemmas method_Inr = bind_eq_Inr query_eq_Inr ensure_eq_Inr whenM_eq_Inr ok_or_eq_Inr discard_eq_Inr Let_def rensure_eq_Inr rbind_eq_Inr
  load_existing_state_def channel_exists_def ensure_payee_or_operator_def from_address_def emit_reserve_def

lemma pays_out_t12:
  assumes "is_t12 (spec e)" "recipient_resolve to e c = Inr rcp" "channel_reserve_transfer tok RESERVE rcp v s e c = Inr (u, c1, l)" "v \<noteq> 0"
  shows "pays_out e tok to v c (tokens c) (tokens c1)" "reserve c1 = reserve c" "tip403 c1 = tip403 c" "addresses c1 = addresses c"
  using assms(1,2,4) channel_transfer_paid[OF assms(3)] by (simp_all add: pays_out_def)

lemma pays_out_before_t12:
  assumes "\<not> is_t12 (spec e)" "transfer tok RESERVE to v e c1 = Inr (u, c2, l)" "v \<noteq> 0" "addresses c1 = addresses c" "tip403 c1 = tip403 c"
  shows "pays_out e tok to v c (tokens c1) (tokens c2)" "reserve c2 = reserve c1" "tip403 c2 = tip403 c1" "addresses c2 = addresses c1"
proof -
  obtain rcp where ok: "accepted e tok RESERVE to rcp c1" and p: "paid tok RESERVE (credited e tok RESERVE rcp c1) v (tokens c1) (tokens c2)"
    "reserve c2 = reserve c1" "tip403 c2 = tip403 c1" "addresses c2 = addresses c1" using assms(2) by (rule transfer_paid)
  have "recipient_resolve to e c = Inr rcp" using ok assms(4) by (simp add: accepted_def recipient_resolve_def)
  moreover have "credited e tok RESERVE rcp c1 = credited e tok RESERVE rcp c" using assms(5) by (simp add: credited_def inbound_verdict_def)
  ultimately show "pays_out e tok to v c (tokens c1) (tokens c2)" using assms(1,3) p(1) by (auto simp: pays_out_def)
  show "reserve c2 = reserve c1" "tip403 c2 = tip403 c1" "addresses c2 = addresses c1" by (rule p)+
qed

lemma write_state_Inr:
  assumes "write_channel_state cid st e c = Inr (u, c', l)"
  shows "tokens c' = tokens c" "tip403 c' = tip403 c" "addresses c' = addresses c"
    "channel_states (reserve c') = (channel_states (reserve c))(cid := st)"
  using storage_atD[OF validD[OF storage_at_basic(3) storage_at_refl assms]] by simp_all

lemma delete_state_Inr:
  assumes "delete_channel_state_and_credit_payer cid pay e c = Inr (u, c', l)"
  shows "tokens c' = tokens c" "tip403 c' = tip403 c" "addresses c' = addresses c"
    "channel_states (reserve c') = (channel_states (reserve c))(cid := empty_channel)"
  using storage_atD[OF validD[OF storage_at_writes(1) storage_at_refl assms]] by simp_all

lemma settle_Inr:
  assumes run: "channel_settle m d cumulative signature e c = Inr (u, c', l)"
  obtains st where "channel_states (reserve c) (channel_id d e) = st" "deposit st \<noteq> 0"
    "m = ch_payee d \<or> ch_operator d \<noteq> 0 \<and> m = ch_operator d" "settled st < cumulative" "cumulative \<le> deposit st"
    "validate_voucher d (channel_id d e) cumulative signature e = Inr ()" "is_tip20_prefix (ch_token d)"
    "pays_out e (ch_token d) (ch_payee d) (ucast (cumulative - settled st)) c (tokens c) (tokens c')"
    "channel_states (reserve c') = (channel_states (reserve c))(channel_id d e := st\<lparr>settled := cumulative\<rparr>)"
    "tip403 c' = tip403 c"
proof -
  let ?cid = "channel_id d e" and ?st = "channel_states (reserve c) (channel_id d e)"
  let ?v = "ucast (cumulative - settled ?st) :: u256" and ?tok = "ch_token d" and ?new = "?st\<lparr>settled := cumulative\<rparr>"
  have pre: "deposit ?st \<noteq> 0" "m = ch_payee d \<or> ch_operator d \<noteq> 0 \<and> m = ch_operator d" "settled ?st < cumulative"
    "cumulative \<le> deposit ?st" "validate_voucher d ?cid cumulative signature e = Inr ()" "is_tip20_prefix ?tok"
    using run unfolding channel_settle_def by (auto simp: method_Inr not_le not_less split: if_splits)
  have nz: "?v \<noteq> 0" by (rule difference_nonzero[OF pre(3)])
  note here = that[OF refl pre]
  show thesis
  proof (cases "is_t12 (spec e)")
    case True
    then obtain rcp s c1 l1 l2 where r: "recipient_resolve (ch_payee d) e c = Inr rcp"
      and tr: "channel_reserve_transfer ?tok RESERVE rcp ?v s e c = Inr ((), c1, l1)"
      and w: "write_channel_state ?cid ?new e c1 = Inr ((), c', l2)"
      using run unfolding channel_settle_def by (auto simp: method_Inr split: if_splits)
    note p = pays_out_t12[OF True r tr nz] and w' = write_state_Inr[OF w]
    show thesis by (rule here) (use p w' in simp_all)
  next
    case False
    then obtain c1 x l1 l2 where w: "write_channel_state ?cid ?new e c = Inr ((), c1, l1)"
      and tr: "transfer ?tok RESERVE (ch_payee d) ?v e c1 = Inr (x, c', l2)"
      using run unfolding channel_settle_def by (auto simp: method_Inr split: if_splits)
    note w' = write_state_Inr[OF w] note p = pays_out_before_t12[OF False tr nz w'(3,2)]
    show thesis by (rule here) (use p w' in simp_all)
  qed
qed

lemma no_payment: "pays_out e tok to 0 c T T" by (simp add: pays_out_def)

lemma reserve_deposit:
  assumes rp: "reserve_open (tip403 c)"
    and run: "(if is_t12 h then
        bind (query (recipient_resolve payee)) (\<lambda>rcp.
        bind (query (ensure_transfer_authorized tok m (target rcp))) (\<lambda>_.
        bind (query (ensure_receive_policy_authorized tok s (target rcp))) (\<lambda>_.
        channel_reserve_transfer tok m (direct RESERVE) v m)))
      else
        bind (query (recipient_resolve payee)) (\<lambda>rcp.
        bind (query (ensure_authorized_as tok [(target rcp, RoleRecipient)])) (\<lambda>_.
        discard (system_transfer_from tok RESERVE m v)))) e c = Inr (u, c', l)"
  shows "paid tok m RESERVE v (tokens c) (tokens c')" "reserve c' = reserve c" "tip403 c' = tip403 c" "addresses c' = addresses c"
  using run
  by (auto simp: method_Inr resolve_reserve(2) split: if_splits
      dest: channel_transfer_paid system_transfer_paid[OF _ rp])

lemma context_hash_Inr: "enclosing_channel_open_context_hash c = Inr h \<longleftrightarrow> h = channel_open_context_hash (reserve c) \<and> h \<noteq> 0"
  by (auto simp: enclosing_channel_open_context_hash_def Let_def)

lemma open_Inr:
  assumes run: "channel_open m call e c = Inr (cid, c', l)" and rp: "reserve_open (tip403 c)"
  obtains nonce where "nonce = channel_open_context_hash (reserve c)" "nonce \<noteq> 0"
    "cid = compute_channel_id_inner e m (oc_payee call) (oc_operator call) (oc_token call) (oc_salt call) (oc_authorized_signer call) nonce"
    "deposit (channel_states (reserve c) cid) = 0" "\<not> opened_this_tx (reserve c) cid" "oc_deposit call \<noteq> 0" "is_tip20_prefix (oc_token call)"
    "paid (oc_token call) m RESERVE (ucast (oc_deposit call)) (tokens c) (tokens c')"
    "channel_states (reserve c') = (channel_states (reserve c))(cid :=
       \<lparr>settled = 0, deposit = oc_deposit call, close_requested_at = 0, uses_logical_receive_policy_sender = is_t12 (spec e)\<rparr>)"
    "tip403 c' = tip403 c"
proof -
  let ?nonce = "channel_open_context_hash (reserve c)"
  let ?cid = "compute_channel_id_inner e m (oc_payee call) (oc_operator call) (oc_token call) (oc_salt call) (oc_authorized_signer call) ?nonce"
  let ?new = "\<lparr>settled = 0, deposit = oc_deposit call, close_requested_at = 0, uses_logical_receive_policy_sender = is_t12 (spec e)\<rparr>"
  obtain c1 l1 c2 l2 where pre: "?nonce \<noteq> 0" "cid = ?cid" "deposit (channel_states (reserve c) cid) = 0" "\<not> opened_this_tx (reserve c) cid"
    "oc_deposit call \<noteq> 0" "is_tip20_prefix (oc_token call)"
    and fund: "(if is_t12 (spec e) then
        bind (query (recipient_resolve (oc_payee call))) (\<lambda>rcp.
        bind (query (ensure_transfer_authorized (oc_token call) m (target rcp))) (\<lambda>_.
        bind (query (ensure_receive_policy_authorized (oc_token call) m (target rcp))) (\<lambda>_.
        channel_reserve_transfer (oc_token call) m (direct RESERVE) (ucast (oc_deposit call)) m)))
      else
        bind (query (recipient_resolve (oc_payee call))) (\<lambda>rcp.
        bind (query (ensure_authorized_as (oc_token call) [(target rcp, RoleRecipient)])) (\<lambda>_.
        discard (system_transfer_from (oc_token call) RESERVE m (ucast (oc_deposit call)))))) e c = Inr ((), c1, l1)"
    and w: "write_channel_state_spending_credit m ?cid ?new e c1 = Inr ((), c2, l2)"
    and c': "c' = c2\<lparr>reserve := (reserve c2)\<lparr>opened_this_tx := (opened_this_tx (reserve c2))(cid := True)\<rparr>\<rparr>"
    using run unfolding channel_open_def
    by (auto simp: method_Inr context_hash_Inr on_component_eq_Inr)
  note p = reserve_deposit[OF rp fund] and s = storage_atD[OF validD[OF storage_at_writes(2) storage_at_refl w]]
  show thesis by (rule that[OF refl pre(1) _ pre(3-6)]) (use p s in \<open>simp_all add: c' pre(2)\<close>)
qed

lemma load_Inr: "load_existing_state cid c = Inr st \<longleftrightarrow> st = channel_states (reserve c) cid \<and> deposit st \<noteq> 0"
  by (auto simp: load_existing_state_def channel_exists_def Let_def)

lemma close_request_None: "close_request st = None \<longleftrightarrow> close_requested_at st = 0"
  by (simp add: close_request_def)

lemma emit_reserve_Inr:
  "emit_reserve ev e c = Inr (x, c', l) \<longleftrightarrow> c' = c \<and> l = [(RESERVE, ChannelReserveEvent ev)]"
  "whenM b (emit_reserve ev) e c = Inr (x, c', l) \<longleftrightarrow> c' = c \<and> l = (if b then [(RESERVE, ChannelReserveEvent ev)] else [])"
  by (auto simp: emit_reserve_def whenM_def)

lemma same_close: "close_requested_at (S cid) = x \<Longrightarrow> S(cid := S cid\<lparr>close_requested_at := x\<rparr>) = S"
  by auto

lemma top_up_Inr:
  assumes run: "channel_top_up m d additional e c = Inr (u, c', l)" and rp: "reserve_open (tip403 c)"
  obtains st where "channel_states (reserve c) (channel_id d e) = st" "deposit st \<noteq> 0" "m = ch_payer d"
    "unat (deposit st) + unat additional < 2 ^ 96" "additional \<noteq> 0 \<Longrightarrow> is_tip20_prefix (ch_token d)"
    "if additional = 0 then tokens c' = tokens c else paid (ch_token d) m RESERVE (ucast additional) (tokens c) (tokens c')"
    "channel_states (reserve c') = (channel_states (reserve c))(channel_id d e := st\<lparr>deposit := deposit st + additional, close_requested_at := 0\<rparr>)"
    "tip403 c' = tip403 c"
proof -
  let ?cid = "channel_id d e" and ?st = "channel_states (reserve c) (channel_id d e)"
  let ?new = "?st\<lparr>deposit := deposit ?st + additional, close_requested_at := 0\<rparr>"
  have pre: "deposit ?st \<noteq> 0" "m = ch_payer d" using run unfolding channel_top_up_def
    by (auto simp: bind_eq_Inr query_eq_Inr ensure_eq_Inr load_Inr)
  have bound: "unat (deposit ?st) < 2 ^ 96" using unat_bound[of "deposit ?st"] by simp
  show thesis
  proof (cases "additional = 0")
    case True
    show thesis
    proof (cases "close_requested_at ?st = 0")
      case closed: True
      then have "c' = c" using run True pre unfolding channel_top_up_def
        by (auto simp: bind_eq_Inr query_eq_Inr ensure_eq_Inr load_Inr close_request_def)
      then show thesis by (intro that[OF refl pre]) (use True closed bound in \<open>simp_all add: same_close\<close>)
    next
      case False
      then obtain c1 l1 where w: "write_channel_state ?cid (?st\<lparr>close_requested_at := 0\<rparr>) e c = Inr ((), c1, l1)" and "c' = c1"
        using run True unfolding channel_top_up_def
        by (auto simp: bind_eq_Inr query_eq_Inr ensure_eq_Inr load_Inr close_request_def emit_reserve_Inr Let_def)
      then show thesis using write_state_Inr[OF w] by (intro that[OF refl pre]) (use True bound in simp_all)
    qed
  next
    case False
    then obtain n c1 l1 l2 where sum: "checked_add (deposit ?st) additional = Some n" "is_tip20_prefix (ch_token d)"
      and fund: "(if is_t12 (spec e) then
        bind (query (recipient_resolve (ch_payee d))) (\<lambda>rcp.
        bind (query (ensure_transfer_authorized (ch_token d) m (target rcp))) (\<lambda>_.
        bind (query (ensure_receive_policy_authorized (ch_token d) (receive_policy_sender ?st m) (target rcp))) (\<lambda>_.
        channel_reserve_transfer (ch_token d) m (direct RESERVE) (ucast additional) m)))
      else
        bind (query (recipient_resolve (ch_payee d))) (\<lambda>rcp.
        bind (query (ensure_authorized_as (ch_token d) [(target rcp, RoleRecipient)])) (\<lambda>_.
        discard (system_transfer_from (ch_token d) RESERVE m (ucast additional))))) e c = Inr ((), c1, l1)"
      and w: "write_channel_state ?cid (if close_request ?st \<noteq> None then ?st\<lparr>deposit := n, close_requested_at := 0\<rparr> else ?st\<lparr>deposit := n\<rparr>) e c1 = Inr ((), c', l2)"
      using run unfolding channel_top_up_def
      by (auto simp: bind_eq_Inr query_eq_Inr ensure_eq_Inr load_Inr emit_reserve_Inr Let_def ok_or_eq_Inr
          from_address_def rensure_eq_Inr simp del: not_None_eq)
    have b: "unat (deposit ?st) + unat additional < 2 ^ 96" using sum(1) unat_bound[of n] by (simp add: checked_add_Some)
    then have n: "n = deposit ?st + additional" using sum(1) by (simp add: checked_add_Some word_unat_eq_iff unat_word_ariths)
    have new: "(if close_request ?st \<noteq> None then ?st\<lparr>deposit := n, close_requested_at := 0\<rparr> else ?st\<lparr>deposit := n\<rparr>) = ?new"
      by (auto simp: close_request_def n)
    note p = reserve_deposit[OF rp fund] and w' = write_state_Inr[OF w[unfolded new]]
    show thesis by (rule that[OF refl pre]) (use sum(2) b p w' False in simp_all)
  qed
qed

lemma request_close_Inr:
  assumes run: "channel_request_close m d e c = Inr (u, c', l)"
  obtains st where "channel_states (reserve c) (channel_id d e) = st" "deposit st \<noteq> 0" "m = ch_payer d" "tokens c' = tokens c"
    "channel_states (reserve c') = (channel_states (reserve c))(channel_id d e :=
       st\<lparr>close_requested_at := if close_requested_at st = 0 then now_u32 e else close_requested_at st\<rparr>)" "tip403 c' = tip403 c"
proof -
  let ?cid = "channel_id d e" and ?st = "channel_states (reserve c) (channel_id d e)"
  have pre: "deposit ?st \<noteq> 0" "m = ch_payer d" using run unfolding channel_request_close_def
    by (auto simp: bind_eq_Inr query_eq_Inr ensure_eq_Inr load_Inr)
  show thesis
  proof (cases "close_requested_at ?st = 0")
    case True
    then obtain l1 where "write_channel_state ?cid (?st\<lparr>close_requested_at := now_u32 e\<rparr>) e c = Inr ((), c', l1)"
      using run unfolding channel_request_close_def
      by (auto simp: bind_eq_Inr query_eq_Inr ensure_eq_Inr load_Inr close_request_def emit_reserve_Inr)
    from write_state_Inr[OF this] show thesis by (intro that[OF refl pre]) (use True in simp_all)
  next
    case False
    then have "c' = c" using run unfolding channel_request_close_def
      by (auto simp: bind_eq_Inr query_eq_Inr ensure_eq_Inr load_Inr close_request_def)
    then show thesis by (intro that[OF refl pre]) (use False in simp_all)
  qed
qed

text \<open>
  Closing pays the captured amount to the payee and the rest of the deposit to the payer, and
  deletes the channel. The payments are made in this order, in one token.
\<close>

definition pays_both :: "env \<Rightarrow> address \<Rightarrow> address \<Rightarrow> u256 \<Rightarrow> address \<Rightarrow> u256 \<Rightarrow> chain \<Rightarrow> (address \<Rightarrow> tip20_token) \<Rightarrow> (address \<Rightarrow> tip20_token) \<Rightarrow> bool" where
  "pays_both e tok to v to' v' c T T' \<longleftrightarrow> (\<exists>T1. pays_out e tok to v c T T1 \<and> pays_out e tok to' v' c T1 T')"

lemma ucast_nonzero: "w \<noteq> 0 \<Longrightarrow> (ucast (w :: u96) :: u256) \<noteq> 0"
  using difference_nonzero[of 0 w] by (simp add: word_neq_0_conv)

lemma optional_t12:
  assumes "is_t12 (spec e)" "addresses c1 = addresses c"
    and "if w \<noteq> 0 then \<exists>rcp s x l. recipient_resolve to e c1 = Inr rcp \<and>
        channel_reserve_transfer tok RESERVE rcp (ucast (w :: u96)) s e c1 = Inr (x, c2, l) else c2 = c1"
  shows "pays_out e tok to (ucast w) c (tokens c1) (tokens c2)" "reserve c2 = reserve c1" "tip403 c2 = tip403 c1" "addresses c2 = addresses c1"
proof -
  have "recipient_resolve to e c1 = recipient_resolve to e c" using assms(2) by (simp add: recipient_resolve_def)
  with assms(1,3) ucast_nonzero[of w] show "pays_out e tok to (ucast w) c (tokens c1) (tokens c2)"
    by (auto simp: pays_out_def dest: channel_transfer_paid(1) split: if_splits)
  show "reserve c2 = reserve c1" "tip403 c2 = tip403 c1" "addresses c2 = addresses c1"
    using assms(3) by (auto dest: channel_transfer_paid split: if_splits)
qed

lemma optional_before_t12:
  assumes "\<not> is_t12 (spec e)" "addresses c1 = addresses c" "tip403 c1 = tip403 c"
    and "if w \<noteq> 0 then \<exists>x l. transfer tok RESERVE to (ucast (w :: u96)) e c1 = Inr (x, c2, l) else c2 = c1"
  shows "pays_out e tok to (ucast w) c (tokens c1) (tokens c2)" "reserve c2 = reserve c1" "tip403 c2 = tip403 c1" "addresses c2 = addresses c1"
  using assms pays_out_before_t12[OF assms(1) _ _ assms(2,3)] ucast_nonzero[of w]
  by (auto simp: no_payment split: if_splits)

lemma close_Inr:
  assumes run: "channel_close m d cumulative capture signature e c = Inr (u, c', l)"
  obtains st where "channel_states (reserve c) (channel_id d e) = st" "deposit st \<noteq> 0"
    "m = ch_payee d \<or> ch_operator d \<noteq> 0 \<and> m = ch_operator d" "settled st \<le> capture" "capture \<le> cumulative" "capture \<le> deposit st"
    "settled st < capture \<Longrightarrow> validate_voucher d (channel_id d e) cumulative signature e = Inr ()" "is_tip20_prefix (ch_token d)"
    "pays_both e (ch_token d) (ch_payee d) (ucast (capture - settled st)) (ch_payer d) (ucast (deposit st - capture)) c (tokens c) (tokens c')"
    "channel_states (reserve c') = (channel_states (reserve c))(channel_id d e := empty_channel)"
    "tip403 c' = tip403 c"
proof -
  let ?cid = "channel_id d e" and ?st = "channel_states (reserve c) (channel_id d e)" and ?tok = "ch_token d"
  let ?delta = "capture - settled ?st" and ?refund = "deposit ?st - capture"
  have pre: "deposit ?st \<noteq> 0" "m = ch_payee d \<or> ch_operator d \<noteq> 0 \<and> m = ch_operator d" "settled ?st \<le> capture" "capture \<le> cumulative"
    "capture \<le> deposit ?st" "settled ?st < capture \<Longrightarrow> validate_voucher d ?cid cumulative signature e = Inr ()" "is_tip20_prefix ?tok"
    using run unfolding channel_close_def
    by (auto simp: bind_eq_Inr query_eq_Inr ensure_eq_Inr load_Inr ensure_payee_or_operator_def rensure_eq_Inr whenM_def Let_def
        from_address_def split: if_splits)
  note here = that[OF refl pre]
  show thesis
  proof (cases "is_t12 (spec e)")
    case True
    then obtain c1 c2 l3 where
      one: "if ?delta \<noteq> 0 then \<exists>rcp s x l. recipient_resolve (ch_payee d) e c = Inr rcp \<and>
          channel_reserve_transfer ?tok RESERVE rcp (ucast ?delta) s e c = Inr (x, c1, l) else c1 = c"
      and two: "if ?refund \<noteq> 0 then \<exists>rcp s x l. recipient_resolve (ch_payer d) e c1 = Inr rcp \<and>
          channel_reserve_transfer ?tok RESERVE rcp (ucast ?refund) s e c1 = Inr (x, c2, l) else c2 = c1"
      and del: "delete_channel_state_and_credit_payer ?cid (ch_payer d) e c2 = Inr ((), c', l3)"
      using run unfolding channel_close_def
      by (auto simp: bind_eq_Inr query_eq_Inr ensure_eq_Inr load_Inr Let_def emit_reserve_Inr whenM_def split: if_splits) blast+
    note p1 = optional_t12[OF True refl one]
    note p2 = optional_t12[OF True p1(4) two] and del' = delete_state_Inr[OF del]
    show thesis by (rule here) (use p1 p2 del' in \<open>auto simp: pays_both_def\<close>)
  next
    case False
    then obtain c1 c2 l1 where
      del: "delete_channel_state_and_credit_payer ?cid (ch_payer d) e c = Inr ((), c1, l1)"
      and one: "if ?delta \<noteq> 0 then \<exists>x l. transfer ?tok RESERVE (ch_payee d) (ucast ?delta) e c1 = Inr (x, c2, l) else c2 = c1"
      and two: "if ?refund \<noteq> 0 then \<exists>x l. transfer ?tok RESERVE (ch_payer d) (ucast ?refund) e c2 = Inr (x, c', l) else c' = c2"
      using run unfolding channel_close_def
      by (auto simp: bind_eq_Inr query_eq_Inr ensure_eq_Inr load_Inr Let_def emit_reserve_Inr whenM_def discard_eq_Inr split: if_splits)
    note del' = delete_state_Inr[OF del]
    note p1 = optional_before_t12[OF False del'(3,2) one]
    note p2 = optional_before_t12[OF False trans[OF p1(4) del'(3)] trans[OF p1(3) del'(2)] two]
    show thesis by (rule here) (use p1 p2 del' in \<open>auto simp: pays_both_def\<close>)
  qed
qed

lemma checked_sub_eq: "checked_sub a b = Some x \<longleftrightarrow> b \<le> a \<and> x = a - b"
  by (auto simp: checked_sub_def)

lemma withdraw_Inr:
  assumes run: "channel_withdraw m d e c = Inr (u, c', l)"
  obtains st where "channel_states (reserve c) (channel_id d e) = st" "deposit st \<noteq> 0" "m = ch_payer d" "close_requested_at st \<noteq> 0"
    "ucast (close_requested_at st) + CLOSE_GRACE_PERIOD \<le> now64 e" "settled st \<le> deposit st"
    "settled st < deposit st \<Longrightarrow> is_tip20_prefix (ch_token d)"
    "pays_out e (ch_token d) (ch_payer d) (ucast (deposit st - settled st)) c (tokens c) (tokens c')"
    "channel_states (reserve c') = (channel_states (reserve c))(channel_id d e := empty_channel)"
    "tip403 c' = tip403 c"
proof -
  let ?cid = "channel_id d e" and ?st = "channel_states (reserve c) (channel_id d e)" and ?tok = "ch_token d"
  let ?refund = "deposit ?st - settled ?st"
  have pre: "deposit ?st \<noteq> 0" "m = ch_payer d" "close_requested_at ?st \<noteq> 0"
    "ucast (close_requested_at ?st) + CLOSE_GRACE_PERIOD \<le> now64 e" "settled ?st \<le> deposit ?st"
    using run unfolding channel_withdraw_def
    by (auto simp: bind_eq_Inr query_eq_Inr ensure_eq_Inr load_Inr ok_or_eq_Inr Let_def checked_sub_eq close_request_def split: if_splits)
  have prefix: "is_tip20_prefix ?tok" if "settled ?st < deposit ?st"
  proof -
    have "?refund \<noteq> 0" using difference_nonzero[OF that] by auto
    then show ?thesis using run unfolding channel_withdraw_def
      by (auto simp: bind_eq_Inr query_eq_Inr ensure_eq_Inr load_Inr ok_or_eq_Inr Let_def checked_sub_eq whenM_def from_address_def
          rensure_eq_Inr split: if_splits)
  qed
  note here = that[OF refl pre prefix]
  show thesis
  proof (cases "is_t12 (spec e)")
    case True
    then obtain c1 l1 where
      pay: "if ?refund \<noteq> 0 then \<exists>rcp s x l. recipient_resolve (ch_payer d) e c = Inr rcp \<and>
          channel_reserve_transfer ?tok RESERVE rcp (ucast ?refund) s e c = Inr (x, c1, l) else c1 = c"
      and del: "delete_channel_state_and_credit_payer ?cid (ch_payer d) e c1 = Inr ((), c', l1)"
      using run unfolding channel_withdraw_def
      by (auto simp: bind_eq_Inr query_eq_Inr ensure_eq_Inr load_Inr ok_or_eq_Inr Let_def emit_reserve_Inr whenM_def checked_sub_eq
          split: if_splits) blast+
    note p = optional_t12[OF True refl pay] and del' = delete_state_Inr[OF del]
    show thesis by (rule here) (use p del' in simp_all)
  next
    case False
    then obtain c1 l1 where
      del: "delete_channel_state_and_credit_payer ?cid (ch_payer d) e c = Inr ((), c1, l1)"
      and pay: "if ?refund \<noteq> 0 then \<exists>x l. transfer ?tok RESERVE (ch_payer d) (ucast ?refund) e c1 = Inr (x, c', l) else c' = c1"
      using run unfolding channel_withdraw_def
      by (auto simp: bind_eq_Inr query_eq_Inr ensure_eq_Inr load_Inr ok_or_eq_Inr Let_def emit_reserve_Inr whenM_def discard_eq_Inr checked_sub_eq
          split: if_splits)
    note del' = delete_state_Inr[OF del]
    note p = optional_before_t12[OF False del'(3,2) pay]
    show thesis by (rule here) (use p del' in simp_all)
  qed
qed

end
