(* ===== verification/Guard_Solvency.thy ===== *)
theory Guard_Solvency
  imports Custody
begin

text \<open>
  The receive policy guard is solvent: the blocked amounts it has recorded for a token are
  covered by its balance in that token, in every reachable state. Receipts are stored under
  their hash, so the accounting per token needs that receipts of different tokens do not have
  the same hash; nothing else is assumed of the hash function.
\<close>

section \<open>Blocked funds per token\<close>

definition separates_tokens :: "(u8 list \<Rightarrow> b256) \<Rightarrow> bool" where
  "separates_tokens hash \<longleftrightarrow>
     (\<forall>r s. hash (receipt_encode r) = hash (receipt_encode s) \<longrightarrow> cr_token r = cr_token s)"

definition blocked_for :: "(u8 list \<Rightarrow> b256) \<Rightarrow> address \<Rightarrow> b256 \<Rightarrow> bool" where
  "blocked_for hash token k \<longleftrightarrow> (\<exists>r. hash (receipt_encode r) = k \<and> cr_token r = token)"

definition held :: "(u8 list \<Rightarrow> b256) \<Rightarrow> receive_policy_guard \<Rightarrow> address \<Rightarrow> nat" where
  "held hash g token = (\<Sum>k \<in> UNIV. if blocked_for hash token k then unat (receipt_balances g k) else 0)"

abbreviation with_receipt :: "b256 \<Rightarrow> u256 \<Rightarrow> receive_policy_guard \<Rightarrow> receive_policy_guard" where
  "with_receipt k v g \<equiv> g\<lparr>receipt_balances := (receipt_balances g)(k := v)\<rparr>"

lemma held_upd:
  assumes "separates_tokens hash"
  shows "held hash (with_receipt (hash (receipt_encode r)) v g) token +
      (if cr_token r = token then unat (receipt_balances g (hash (receipt_encode r))) else 0) =
    held hash g token + (if cr_token r = token then unat v else 0)"
proof -
  have b: "blocked_for hash token (hash (receipt_encode r)) \<longleftrightarrow> cr_token r = token"
    using assms unfolding blocked_for_def separates_tokens_def by metis
  let ?G = "\<lambda>k w. if blocked_for hash token k then unat w else 0" and ?k = "hash (receipt_encode r)"
  have h: "held hash (with_receipt ?k v g) token = (\<Sum>k \<in> UNIV. ?G k (((receipt_balances g)(?k := v)) k))"
    unfolding held_def by (rule sum.cong[OF refl]) (simp cong: if_cong)
  show ?thesis
    using sum_fun_upd[of ?G "receipt_balances g" ?k v] unfolding h held_def[of hash g] b .
qed

lemma held_nonce [simp]: "held hash (g\<lparr>receipt_nonce := n\<rparr>) token = held hash g token"
  by (simp add: held_def cong: if_cong)

lemma store_blocked_Inr:
  assumes run: "store_blocked token originator to recovery v reason kind memo e g = Inr (n, g', l)"
  obtains r m where "cr_token r = token" "g' = with_receipt (receipt_key e r) v (g\<lparr>receipt_nonce := m\<rparr>)"
proof -
  let ?r = "claim_receipt_new token recovery originator (original_address to) (now64 e) (max (receipt_nonce g) 1)
      (blocked_reason_u8 reason) kind memo"
  obtain m where "g' = with_receipt (receipt_key e ?r) v (g\<lparr>receipt_nonce := m\<rparr>)"
    using run by (auto simp: store_blocked_def next_receipt_nonce_def set_receipt_balance_def emit_guard_def run_simps Let_def)
  then show thesis by (rule that[rotated]) (simp add: claim_receipt_new_def)
qed

section \<open>Every step keeps the guard covered\<close>

abbreviation covered :: "(u8 list \<Rightarrow> b256) \<Rightarrow> surroundings \<Rightarrow> address \<Rightarrow> tip20_token \<Rightarrow> bool" where
  "covered hash g \<equiv> custody RECEIVE_POLICY_GUARD_ADDRESS (held hash (seen_guard g))"

lemma covered_after_block:
  assumes sep: "separates_tokens hash" and hash: "keccak256 e = hash" and all: "all_tokens (covered hash) c"
    and bal: "unat (balances t' RECEIVE_POLICY_GUARD_ADDRESS) = unat (balances (tokens c self) RECEIVE_POLICY_GUARD_ADDRESS) + unat v"
    and al: "allowances t' = allowances (tokens c self)"
    and store: "store_blocked self originator rcp recovery v reason kind memo e (guard c) = Inr (n, g', l2)"
  shows "all_tokens (covered hash) (c\<lparr>tokens := (tokens c)(self := t'), guard := g'\<rparr>)"
proof -
  from store obtain r m where r: "cr_token r = self" and g': "g' = with_receipt (receipt_key e r) v (guard c\<lparr>receipt_nonce := m\<rparr>)"
    by (rule store_blocked_Inr)
  have h: "held hash g' token \<le> held hash (guard c) token + (if token = self then unat v else 0)" for token
    using held_upd[OF sep, where r = r and v = v and g = "guard c\<lparr>receipt_nonce := m\<rparr>" and token = token] by (auto simp: g' r receipt_key_def hash)
  show ?thesis unfolding all_tokens_def
  proof (intro allI impI)
    fix a assume a: "is_tip20_prefix a"
    then have old: "covered hash (surroundings_of c) a (tokens c a)" using all by (simp add: all_tokens_def)
    show "covered hash (surroundings_of (c\<lparr>tokens := (tokens c)(self := t'), guard := g'\<rparr>)) a (tokens (c\<lparr>tokens := (tokens c)(self := t'), guard := g'\<rparr>) a)"
      using old h[of a] bal al by (cases "a = self") (auto simp: custody_def)
  qed
qed

lemma mint_core_effect:
  assumes "mint_core self to s v e t = Inr (u, t', l)"
  shows "unat (balances t' (target to)) = unat (balances t (target to)) + unat v" "allowances t' = allowances t"
proof -
  obtain w t1 l1 l2 where h: "handle_rewards_on_mint (target to) v e t = Inr ((), t1, l1)"
    and inc: "increment_balance (target to) v e (t1\<lparr>total_supply := w\<rparr>) = Inr ((), t', l2)"
    using assms by (auto simp: mint_core_def bind_eq_Inr ensure_eq_Inr ok_or_eq_Inr set_total_supply_def emit20_def)
  have "only_rewards t t1" using rewards_onlyD[OF rewards_only_hooks(2) h] by simp
  from only_rewards_eqs[OF this] inc
  show "unat (balances t' (target to)) = unat (balances t (target to)) + unat v" "allowances t' = allowances t"
    by (auto simp: increment_balance_Inr unat_word_ariths)
qed

text \<open>Paying out of the guard, or burning from it, takes exactly the amount.\<close>

lemma guard_debit:
  assumes "transfer_core self K to v e t = Inr (u, t', l)"
  shows "unat (balances t K) \<le> unat (balances t' K) + unat v" "allowances t' = allowances t"
proof -
  note m = transfer_core_moves[OF assms]
  show "allowances t' = allowances t" by (rule transfer_core_fields(3)[OF assms])
  show "unat (balances t K) \<le> unat (balances t' K) + unat v"
    unfolding m(2) using m(1,3) by (auto simp: moved_def Let_def unat_sub word_le_nat_alt unat_word_ariths)
qed

lemma covered_after_release:
  assumes sep: "separates_tokens hash" and hash: "keccak256 e = hash" and all: "all_tokens (covered hash) c"
    and amount: "receipt_balances (guard c) (receipt_key e r) = v"
    and bal: "unat (balances (tokens c (cr_token r)) RECEIVE_POLICY_GUARD_ADDRESS) \<le> unat (balances t' RECEIVE_POLICY_GUARD_ADDRESS) + unat v"
    and al: "allowances t' = allowances (tokens c (cr_token r))"
    and c': "tokens c' = (tokens c)(cr_token r := t')" "guard c' = with_receipt (receipt_key e r) 0 (guard c)"
  shows "all_tokens (covered hash) c'"
proof -
  have h: "held hash (guard c') token + (if cr_token r = token then unat v else 0) = held hash (guard c) token" for token
    using held_upd[OF sep, where r = r and v = 0 and g = "guard c" and token = token] amount
    by (auto simp: c' receipt_key_def hash split: if_splits)
  show ?thesis unfolding all_tokens_def
  proof (intro allI impI)
    fix a assume a: "is_tip20_prefix a"
    then have old: "covered hash (surroundings_of c) a (tokens c a)" using all by (simp add: all_tokens_def)
    show "covered hash (surroundings_of c') a (tokens c' a)"
      using old h[of a] bal al by (cases "a = cr_token r") (auto simp: custody_def c'(1))
  qed
qed

text \<open>Releasing funds: checks that leave tokens and guard alone, then one core transfer.\<close>

lemma release_Inr:
  assumes run: "release_blocked_funds self originator receiver to v mode auth e c = Inr (u, c', l)"
  obtains d t' l' where "recipient_resolve to e c = Inr d" "recipient_validate d = Inr ()" "\<not> paused (tokens c self)"
    "transfer_core self RECEIVE_POLICY_GUARD_ADDRESS d v e (tokens c self) = Inr ((), t', l')"
    "tokens c' = (tokens c)(self := t')" "guard c' = guard c"
proof -
  define mid where "mid d = (if is_reroute mode to receiver
     then bind (query (ensure_transfer_authorized self (policy_subject mode originator receiver) (target d))) (\<lambda>_.
          bind (query (\<lambda>e c. validate_receive_policy self (policy_subject mode originator receiver) (target d) e (tip403 c))) (\<lambda>blocked.
          bind (ensure (blocked = None) (TIP20Err PolicyForbids)) (\<lambda>_.
          case spending_account mode auth of Some a \<Rightarrow> check_and_update_spending_limit self a v | None \<Rightarrow> ret ())))
     else query (\<lambda>e. ensure_authorized_as self [(target d, auth_recipient (spec e))] e))" for d :: recipient
  have mid: "preserves e (\<lambda>c. tokens c = T \<and> guard c = G) (mid d)" for T G d
    unfolding mid_def check_and_update_spending_limit_def
    by (intro valid_intros; (rule validI)?; auto simp: on_component_eq_Inr)
  have "release_blocked_funds self originator receiver to v mode auth = bind (on_token self check_not_paused) (\<lambda>_.
      bind (query (recipient_resolve to)) (\<lambda>d. bind (query (\<lambda>_ _. recipient_validate d)) (\<lambda>_. bind (mid d) (\<lambda>_.
      bind (on_token self (transfer_core self RECEIVE_POLICY_GUARD_ADDRESS d v)) (\<lambda>_. on_token self (emit_hop self d v))))))"
    unfolding release_blocked_funds_def mid_def Let_def ..
  with run obtain d c1 u1 l1 t' l' where d: "recipient_resolve to e c = Inr d" "recipient_validate d = Inr ()" "\<not> paused (tokens c self)"
    and m: "mid d e c = Inr (u1, c1, l1)"
    and tr: "transfer_core self RECEIVE_POLICY_GUARD_ADDRESS d v e (tokens c1 self) = Inr ((), t', l')"
    and c': "c' = c1\<lparr>tokens := (tokens c1)(self := t')\<rparr>"
    by (auto simp: bind_eq_Inr query_eq_Inr on_token_eq_Inr check_not_paused_def ensure_eq_Inr dest!: readsD[OF reads_simps(4)])
  from validD[OF mid _ m, of "tokens c" "guard c"] have "tokens c1 = tokens c" "guard c1 = guard c" by simp_all
  with d tr c' show thesis by (intro that[of d t' l']) simp_all
qed

lemma resolve_receipt_Inr:
  "resolve_receipt bytes e c = Inr (r, receiver, mode) \<longleftrightarrow>
     bytes = Some r \<and> resolve_recipient (cr_recipient r) e (addresses c) = Inr receiver \<and> mode = recovery_from r receiver"
  by (cases bytes) (auto simp: resolve_receipt_def split: sum.splits)

lemma claim_Inr:
  assumes run: "claim m to bytes e c = Inr (u, c', l)"
  obtains r receiver d t' l' where "bytes = Some r" "resolve_recipient (cr_recipient r) e (addresses c) = Inr receiver"
    "recovery_authority (recovery_from r receiver) r = m" "receipt_balances (guard c) (receipt_key e r) \<noteq> 0"
    "recipient_resolve to e c = Inr d" "recipient_validate d = Inr ()" "is_tip20_prefix (cr_token r)"
    "transfer_core (cr_token r) RECEIVE_POLICY_GUARD_ADDRESS d (receipt_balances (guard c) (receipt_key e r)) e
       (tokens c (cr_token r)) = Inr ((), t', l')"
    "tokens c' = (tokens c)(cr_token r := t')" "guard c' = with_receipt (receipt_key e r) 0 (guard c)"
proof -
  obtain r receiver c1 l1 where r: "bytes = Some r" "resolve_recipient (cr_recipient r) e (addresses c) = Inr receiver"
    "recovery_authority (recovery_from r receiver) r = m" "receipt_balances (guard c) (receipt_key e r) \<noteq> 0"
    "is_tip20_prefix (cr_token r)"
    and rel: "release_blocked_funds (cr_token r) (cr_originator r) receiver to (receipt_balances (guard c) (receipt_key e r))
       (recovery_from r receiver) (recovery_authority (recovery_from r receiver) r) e
       (c\<lparr>guard := with_receipt (receipt_key e r) 0 (guard c)\<rparr>) = Inr ((), c1, l1)"
    and c': "c' = c1"
    using run unfolding claim_def Let_def
    by (auto simp: bind_eq_Inr query_eq_Inr ensure_eq_Inr on_component_eq_Inr resolve_receipt_Inr
        set_receipt_balance_def emit_guard_def from_address_def rensure_eq_Inr)
  from rel obtain d t' l' where "recipient_resolve to e (c\<lparr>guard := with_receipt (receipt_key e r) 0 (guard c)\<rparr>) = Inr d"
    "recipient_validate d = Inr ()"
    "transfer_core (cr_token r) RECEIVE_POLICY_GUARD_ADDRESS d (receipt_balances (guard c) (receipt_key e r)) e
       (tokens (c\<lparr>guard := with_receipt (receipt_key e r) 0 (guard c)\<rparr>) (cr_token r)) = Inr ((), t', l')"
    "tokens c1 = (tokens (c\<lparr>guard := with_receipt (receipt_key e r) 0 (guard c)\<rparr>))(cr_token r := t')"
    "guard c1 = guard (c\<lparr>guard := with_receipt (receipt_key e r) 0 (guard c)\<rparr>)"
    by (rule release_Inr)
  with r c' show thesis by (intro that[of r receiver d t' l']) (simp_all add: recipient_resolve_def)
qed

lemma burn_receipt_Inr:
  assumes run: "burn_blocked_receipt m bytes e c = Inr (u, c', l)"
  obtains r t1 l1 w where "bytes = Some r" "receipt_balances (guard c) (receipt_key e r) \<noteq> 0" "is_tip20_prefix (cr_token r)"
    "transfer_core (cr_token r) RECEIVE_POLICY_GUARD_ADDRESS (direct ADDRESS_ZERO) (receipt_balances (guard c) (receipt_key e r)) e
       (tokens c (cr_token r)) = Inr ((), t1, l1)"
    "tokens c' = (tokens c)(cr_token r := t1\<lparr>total_supply := w\<rparr>)" "guard c' = with_receipt (receipt_key e r) 0 (guard c)"
proof -
  obtain r receiver c1 l1 where r: "bytes = Some r" "receipt_balances (guard c) (receipt_key e r) \<noteq> 0" "is_tip20_prefix (cr_token r)"
    and burn: "burn_blocked (cr_token r) m (policy_subject (recovery_from r receiver) (cr_originator r) receiver)
       (receipt_balances (guard c) (receipt_key e r)) False e c = Inr ((), c1, l1)"
    and c': "c' = c1\<lparr>guard := with_receipt (receipt_key e r) 0 (guard c1)\<rparr>"
    using run unfolding burn_blocked_receipt_def Let_def
    by (auto simp: bind_eq_Inr query_eq_Inr ensure_eq_Inr on_component_eq_Inr resolve_receipt_Inr
        set_receipt_balance_def emit_guard_def from_address_def rensure_eq_Inr)
  obtain t1 l2 w where "transfer_core (cr_token r) RECEIVE_POLICY_GUARD_ADDRESS (direct ADDRESS_ZERO) (receipt_balances (guard c) (receipt_key e r)) e
       (tokens c (cr_token r)) = Inr ((), t1, l2)" "c1 = c\<lparr>tokens := (tokens c)(cr_token r := t1\<lparr>total_supply := w\<rparr>)\<rparr>"
    using burn unfolding burn_blocked_def Let_def
    by (auto simp: bind_eq_Inr query_eq_Inr ensure_eq_Inr whenM_eq_Inr on_token_eq_Inr check_role_def check_not_paused_def
        reduce_supply_def set_total_supply_def ok_or_eq_Inr emit20_def split: if_splits)
  with r c' show thesis by (intro that[of r t1 l2 w]) simp_all
qed

lemma guard_law_covered:
  assumes sep: "separates_tokens (keccak256 e)" and t6: "is_t6 (spec e)" and keys: "no_system_keys e"
  shows "guarded_chain_law e (covered (keccak256 e)) (\<lambda>_ a. a \<noteq> RECEIVE_POLICY_GUARD_ADDRESS)"
proof -
  let ?K = RECEIVE_POLICY_GUARD_ADDRESS
  have law: "guarded_law e (covered (keccak256 e)) (\<lambda>_ a. a \<noteq> ?K)"
  proof (rule guarded_law_of_token_laws[where Q = "\<lambda>_. True", unfolded simp_thms, OF custody_law[OF custodians(4)[OF t6] keys]])
    fix self c v t' l originator rcp recovery reason kind memo n g' l2 and "from" :: address
    assume all: "all_tokens (covered (keccak256 e)) c"
      and core: "(from \<noteq> ?K \<or> v = 0) \<and> transfer_core self from (direct ?K) v e (tokens c self) = Inr ((), t', l) \<or>
        mint_core self (direct ?K) (total_supply (tokens c self)) v e (tokens c self) = Inr ((), t', l)"
      and store: "store_blocked self originator rcp recovery v reason kind memo e (guard c) = Inr (n, g', l2)"
    have nz: "?K \<noteq> 0" by (simp add: RECEIVE_POLICY_GUARD_ADDRESS_def)
    have "unat (balances t' ?K) = unat (balances (tokens c self) ?K) + unat v \<and> allowances t' = allowances (tokens c self)"
      using core
    proof (elim disjE conjE)
      assume tr: "transfer_core self from (direct ?K) v e (tokens c self) = Inr ((), t', l)" and "from \<noteq> ?K"
      note m = transfer_core_moves[OF tr]
      have k: "target (direct ?K) = ?K" by (simp add: direct_def)
      from moved_nat(2)[of v "balances (tokens c self)" "from" ?K] m(1,3) \<open>from \<noteq> ?K\<close> nz
      show ?thesis by (simp add: m(2) k transfer_core_fields(3)[OF tr])
    next
      assume tr: "transfer_core self from (direct ?K) v e (tokens c self) = Inr ((), t', l)" and "v = 0"
      then show ?thesis
        by (simp add: transfer_core_moves(2)[OF tr] transfer_core_fields(3)[OF tr] moved_def Let_def)
    next
      assume "mint_core self (direct ?K) (total_supply (tokens c self)) v e (tokens c self) = Inr ((), t', l)"
      from mint_core_effect[OF this] show ?thesis by (simp add: direct_def)
    qed
    with covered_after_block[OF sep refl all _ _ store]
    show "all_tokens (covered (keccak256 e)) (c\<lparr>tokens := (tokens c)(self := t'), guard := g'\<rparr>)" by blast
  qed simp_all
  show ?thesis
  proof (rule guarded_chain_law.intro[OF guarded_calls_law.intro[OF law]]; unfold_locales)
    fix m call assume m: "external_account m"
    show "preserves e (all_tokens (covered (keccak256 e))) (reserve_exec m rcall)" for rcall
      by (rule guarded_law.keeps_reserve_exec[OF law _ _ m]) (simp_all add: address_defs)
    show "preserves e (all_tokens (covered (keccak256 e))) (guard_exec m call)"
    proof (rule validI)
      fix c u c' l assume all: "all_tokens (covered (keccak256 e)) c" and run: "guard_exec m call e c = Inr (u, c', l)"
      show "all_tokens (covered (keccak256 e)) c'"
      proof (cases call)
        case (ClaimCall to bytes)
        with run have "claim m to bytes e c = Inr (u, c', l)" by simp
        then obtain r d t' l' where
          "transfer_core (cr_token r) ?K d (receipt_balances (guard c) (receipt_key e r)) e (tokens c (cr_token r)) = Inr ((), t', l')"
          and c': "tokens c' = (tokens c)(cr_token r := t')" "guard c' = with_receipt (receipt_key e r) 0 (guard c)"
          by (rule claim_Inr)
        from covered_after_release[OF sep refl all refl guard_debit[OF this(1)] c'] show ?thesis .
      next
        case (BurnBlockedReceiptCall bytes)
        with run have "burn_blocked_receipt m bytes e c = Inr (u, c', l)" by simp
        then obtain r t1 l1 w where
          tr: "transfer_core (cr_token r) ?K (direct ADDRESS_ZERO) (receipt_balances (guard c) (receipt_key e r)) e (tokens c (cr_token r)) = Inr ((), t1, l1)"
          and c': "tokens c' = (tokens c)(cr_token r := t1\<lparr>total_supply := w\<rparr>)" "guard c' = with_receipt (receipt_key e r) 0 (guard c)"
          by (rule burn_receipt_Inr)
        from covered_after_release[OF sep refl all refl _ _ c'] guard_debit[OF tr] show ?thesis by simp
      qed
    qed
  next
    show "K \<noteq> ?K" if "K \<in> {TIP_FEE_MANAGER_ADDRESS, STABLECOIN_DEX_ADDRESS}" for K
      using that by (auto simp: address_defs)
  qed (simp_all add: custody_def)
qed

lemma held_zero: "(\<forall>k. receipt_balances g k = 0) \<Longrightarrow> held hash g token = 0"
  by (simp add: held_def)

lemma guard_invariant:
  assumes sep: "separates_tokens hash"
  shows "chain_invariant hash h0 (\<lambda>h c. all_tokens (\<lambda>_. custody RECEIVE_POLICY_GUARD_ADDRESS (\<lambda>_. 0)) c \<and>
     (if is_t6 h then all_tokens (covered hash) c else \<forall>k. receipt_balances (guard c) k = 0))"
proof unfold_locales
  let ?K = RECEIVE_POLICY_GUARD_ADDRESS
  show "all_tokens (\<lambda>_. custody ?K (\<lambda>_. 0)) (genesis_chain k) \<and>
     (if is_t6 h0 then all_tokens (covered hash) (genesis_chain k) else \<forall>k'. receipt_balances (guard (genesis_chain k)) k' = 0)" for k
    by (auto simp: all_tokens_def custody_def genesis_chain_def token_init_def guard_init_def held_zero)
  show "all_tokens (\<lambda>_. custody ?K (\<lambda>_. 0)) c \<and>
     (if is_t6 h' then all_tokens (covered hash) c else \<forall>k. receipt_balances (guard c) k = 0)"
    if "all_tokens (\<lambda>_. custody ?K (\<lambda>_. 0)) c \<and>
     (if is_t6 h then all_tokens (covered hash) c else \<forall>k. receipt_balances (guard c) k = 0)" "h \<le> h'" for h h' c
    using that by (auto simp: is_t6_def all_tokens_def custody_def held_zero split: if_splits)
  show "all_tokens (\<lambda>_. custody ?K (\<lambda>_. 0)) c' \<and>
     (if is_t6 (spec e) then all_tokens (covered hash) c' else \<forall>k. receipt_balances (guard c') k = 0)"
    if inv: "all_tokens (\<lambda>_. custody ?K (\<lambda>_. 0)) c \<and>
     (if is_t6 (spec e) then all_tokens (covered hash) c else \<forall>k. receipt_balances (guard c) k = 0)"
      and hash: "keccak256 e = hash" and keys: "no_system_keys e" and step: "chain_step e c c'" for e c c'
  proof
    have "\<not> external_account ?K" by (simp add: external_account_def SYSTEM_PRECOMPILES_def)
    from chain_law.law_keeps[OF no_allowance_law[OF this keys] step] inv
    show "all_tokens (\<lambda>_. custody ?K (\<lambda>_. 0)) c'" by blast
    show "if is_t6 (spec e) then all_tokens (covered hash) c' else \<forall>k. receipt_balances (guard c') k = 0"
      using inv guard_before_t6[OF _ step] guarded_chain_law.step_keeps[OF guard_law_covered[OF _ _ keys] step] sep hash
      by auto
  qed
qed

section \<open>An example: Alice refuses all tokens, Bob's transfer is blocked\<close>

definition refusing_registry :: tip403_registry where
  "refusing_registry = tip403_init\<lparr>receive_policies := (receive_policies tip403_init)(ALICE :=
     \<lparr>config = \<lparr>has_receive_policy = True, rp_sender_policy_id = ALLOW_ALL_POLICY_ID, rp_sender_policy_type = 1,
        token_filter_id = REJECT_ALL_POLICY_ID, token_filter_type = 0, recovery_mode = Receiver\<rparr>, recovery_address = 0\<rparr>)\<rparr>"

definition blocked_receipt :: claim_receipt where
  "blocked_receipt = \<lparr>cr_version = 1, cr_token = PATH_USD_ADDRESS, cr_recovery_authority = ALICE, cr_originator = BOB,
     cr_recipient = ALICE, cr_blocked_at = 1000, cr_blocked_nonce = 1, cr_blocked_reason = 1, cr_kind = InboundTransfer, cr_memo = 0\<rparr>"

definition blocked_chain :: chain where
  "blocked_chain = (demo_chain (demo_minted_token\<lparr>balances := (\<lambda>_. 0)(ALICE := 1000, BOB := 400, RECEIVE_POLICY_GUARD_ADDRESS := 100)\<rparr>))
     \<lparr>tip403 := refusing_registry, guard := \<lparr>receipt_nonce = 2,
        receipt_balances = (\<lambda>_. 0)(demo_hash (receipt_encode blocked_receipt) := 100)\<rparr>\<rparr>"

lemma t6_facts [simp]: "is_t6 T6" "is_t3 T6" "is_t2 T6" "is_t5 T6" "\<not> is_t8 T6" "\<not> is_t9 T6" "T6 \<le> T6" "T5 \<le> T6" "\<not> is_precompile ALICE T6"
  "ALICE \<noteq> RECOVERY_ORIGINATOR"
  by (simp_all add: fork_eval is_precompile_def is_tip20_prefix_def TIP20_TOKEN_PREFIX_def SYSTEM_PRECOMPILES_def address_defs
      RECOVERY_ORIGINATOR_def)

lemma refuse_step:
  "\<exists>l. chain_exec 0 ALICE (TIP403Call (SetReceivePolicy ALLOW_ALL_POLICY_ID REJECT_ALL_POLICY_ID ALICE)) (chain_env T6) (demo_chain demo_minted_token) =
    Inr ((), (demo_chain demo_minted_token)\<lparr>tip403 := refusing_registry\<rparr>, l)"
  by (simp add: exec_simps set_receive_policy_def since_def recovery_encode_def validate_receive_policy_id_def builtin_authorization_def
    ALLOW_ALL_POLICY_ID_def REJECT_ALL_POLICY_ID_def emit403_def query_run refusing_registry_def)

lemma blocked_core:
  "\<exists>l. transfer_core PATH_USD_ADDRESS BOB (direct RECEIVE_POLICY_GUARD_ADDRESS) 100 (chain_env T6) demo_minted_token =
     Inr ((), demo_minted_token\<lparr>balances := (\<lambda>_. 0)(ALICE := 1000, BOB := 400, RECEIVE_POLICY_GUARD_ADDRESS := 100)\<rparr>, l)"
  by (simp add: ledger_exec demo_minted_token_def demo_issuer_token_def demo_token_def token_init_def RECEIVE_POLICY_GUARD_ADDRESS_def)

lemma blocked_store:
  "\<exists>l. store_blocked PATH_USD_ADDRESS BOB (direct ALICE) ALICE 100 TOKEN_FILTER InboundTransfer 0 (chain_env T6) guard_init =
     Inr ((1, 1000), \<lparr>receipt_nonce = 2, receipt_balances = (\<lambda>_. 0)(demo_hash (receipt_encode blocked_receipt) := 100)\<rparr>, l)"
proof -
  have "now64 (chain_env T6) = 1000" by (simp add: now64_def chain_env_def demo_env_def saturating_to_def)
  then show ?thesis
    by (simp add: store_blocked_def next_receipt_nonce_def exec_simps guard_init_def checked_add_def Let_def set_receipt_balance_def
        emit_guard_def receipt_key_def claim_receipt_new_def direct_def original_address_def blocked_receipt_def max_def)
qed

lemma blocked_step:
  "\<exists>l. chain_exec 0 BOB (TokenCall PATH_USD_ADDRESS (TransferCall ALICE 100)) (chain_env T6)
      ((demo_chain demo_minted_token)\<lparr>tip403 := refusing_registry\<rparr>) = Inr ((), blocked_chain, l)"
proof -
  let ?c = "(demo_chain demo_minted_token)\<lparr>tip403 := refusing_registry\<rparr>" and ?e = "chain_env T6"
  have f: "\<not> paused demo_minted_token" "legacy_transfer_policy_id demo_minted_token = ALLOW_ALL_POLICY_ID"
    by (simp_all add: demo_minted_token_def demo_issuer_token_def demo_token_def token_init_def)
  have res: "recipient_resolve ALICE ?e ?c = Inr (direct ALICE)" by (simp add: recipient_resolve_def resolve_recipient_def)
  have verdict: "inbound_verdict PATH_USD_ADDRESS BOB ALICE ?e ?c = Inr (Some (TOKEN_FILTER, ALICE))"
    by (simp add: inbound_verdict_def check_receive_policy_def refusing_registry_def Let_def is_authorized_simple_def
        builtin_authorization_def REJECT_ALL_POLICY_ID_def ALLOW_ALL_POLICY_ID_def receive_policy_recovery_def RECEIVE_POLICY_GUARD_ADDRESS_def)
  have key: "check_and_update_spending_limit PATH_USD_ADDRESS BOB 100 ?e ?c = Inr ((), ?c, [])"
    by (rule charge_main_key) (simp add: demo_keychain_def)
  obtain l1 l2 where core: "transfer_core PATH_USD_ADDRESS BOB (direct RECEIVE_POLICY_GUARD_ADDRESS) 100 ?e demo_minted_token =
       Inr ((), demo_minted_token\<lparr>balances := (\<lambda>_. 0)(ALICE := 1000, BOB := 400, RECEIVE_POLICY_GUARD_ADDRESS := 100)\<rparr>, l1)"
    and store: "store_blocked PATH_USD_ADDRESS BOB (direct ALICE) ALICE 100 TOKEN_FILTER InboundTransfer 0 ?e guard_init =
     Inr ((1, 1000), \<lparr>receipt_nonce = 2, receipt_balances = (\<lambda>_. 0)(demo_hash (receipt_encode blocked_receipt) := 100)\<rparr>, l2)"
    using blocked_core blocked_store by blast
  have g: "guard ((demo_chain t)\<lparr>tip403 := r\<rparr>) = guard_init"
    "token_put PATH_USD_ADDRESS t' ((demo_chain t)\<lparr>tip403 := r\<rparr>) = (demo_chain t')\<lparr>tip403 := r\<rparr>" for t t' r
    by (simp_all add: demo_chain_def genesis_chain_def token_put_def)
  have auth: "is_transfer_authorized PATH_USD_ADDRESS BOB ALICE ?e ?c = Inr True"
    using f by (simp add: is_transfer_authorized_def transfer_policy_id_def)
  have tgt: "target (direct ALICE) = ALICE" by (simp add: direct_def)
  have val: "validate_transfer PATH_USD_ADDRESS None BOB ALICE 100 0 ?e ?c = Inr (None, blocked_chain, l1 @ l2)"
    using f
    by (simp add: validate_transfer_def exec_simps res bind_andthen[of "check_and_update_spending_limit a b d" for a b d] key
        check_not_paused_def recipient_validate_def ensure_transfer_authorized_def auth inbound_run verdict tgt
        bind_andthen[of "validate_inbound_or_block a b d f g h" for a b d f g h] core store g blocked_chain_def)
  show ?thesis
    by (simp add: token_exec_def discard_def transfer_def exec_simps bind_andthen[of "validate_transfer a b d f g h" for a b d f g h] val
        finish_transfer_def)
qed

lemma blocked_reachable: "reachable demo_hash T5 T6 blocked_chain"
proof -
  have call: "reachable demo_hash T5 T6 c'" if "reachable demo_hash T5 T6 c" "external_account m" "chain_exec 0 m call (chain_env T6) c = Inr ((), c', l)"
    for c m call c' l using reachable_step[of demo_hash T5 "chain_env T6" c c'] step_call[OF that(2,3)] that(1) by simp
  have "reachable demo_hash T5 T6 (demo_chain demo_minted_token)" by (rule reachable_fork[OF demo_reachable(1)]) simp
  from call[OF this demo_external(2)] refuse_step have "reachable demo_hash T5 T6 ((demo_chain demo_minted_token)\<lparr>tip403 := refusing_registry\<rparr>)" by blast
  from call[OF this demo_external(3)] blocked_step show ?thesis by blast
qed

lemma demo_separates: "separates_tokens demo_hash"
proof (unfold separates_tokens_def, intro allI impI)
  fix r s assume eq: "demo_hash (receipt_encode r) = demo_hash (receipt_encode s)"
  have h: "unat (demo_hash (receipt_encode q)) mod 2 ^ 160 = unat (cr_token q)" for q
  proof -
    have two: "take 32 (drop 32 (receipt_encode q)) = abi_address (cr_token q)" by (simp add: receipt_encode_def)
    let ?a = "be_nat (take 32 (receipt_encode q)) mod 2 ^ 64"
    have t: "unat (cr_token q) < 2 ^ 160" using unat_bound[of "cr_token q"] by simp
    have "?a * 2 ^ 160 + unat (cr_token q) < 2 ^ 256"
    proof -
      have "?a \<le> 2 ^ 64 - 1" using mod_less_divisor[of "2 ^ 64" "be_nat (take 32 (receipt_encode q))"] by simp
      then have "?a * 2 ^ 160 \<le> (2 ^ 64 - 1) * 2 ^ 160" by (rule mult_right_mono) simp
      with t show ?thesis by simp
    qed
    moreover have n: "length (receipt_encode q) \<noteq> 288" by (simp add: receipt_encode_def)
    ultimately have "unat (demo_hash (receipt_encode q)) = ?a * 2 ^ 160 + unat (cr_token q)"
      using t unfolding demo_hash_def two be_nat_abi if_not_P[OF n] by (subst unat_of_nat_small) simp_all
    with t show ?thesis by simp
  qed
  from arg_cong[OF eq, of "\<lambda>w. unat w mod 2 ^ 160"] show "cr_token r = cr_token s"
    unfolding h by (simp add: word_unat_eq_iff)
qed

section \<open>Properties\<close>

text \<open>Claim C19: blocked funds are always covered. In every reachable state, the recorded amounts of all
  receipts for a token add up to at most what the guard holds of that token, provided that no
  two receipts for different tokens have the same hash.\<close>

theorem guard_solvent:
  assumes "reachable hash h0 h c" and "separates_tokens hash" and "is_tip20_prefix token"
  shows "(\<Sum>k \<in> UNIV. if \<exists>r. hash (receipt_encode r) = k \<and> cr_token r = token
      then unat (receipt_balances (guard c) k) else 0) \<le> unat (balances (tokens c token) RECEIVE_POLICY_GUARD_ADDRESS)"
  using chain_invariant.reachable_inv[OF guard_invariant[OF assms(2)] assms(1)] assms(3)
    held_zero[of "guard c" hash token]
  unfolding held_def blocked_for_def
  by (auto simp: all_tokens_def custody_def held_def blocked_for_def split: if_splits cong: if_cong)

theorem guard_solvent_witness:
  "receipt_balances (guard blocked_chain) (demo_hash (receipt_encode blocked_receipt)) = 100 \<and>
   (\<Sum>k \<in> UNIV. if \<exists>r. demo_hash (receipt_encode r) = k \<and> cr_token r = PATH_USD_ADDRESS
      then unat (receipt_balances (guard blocked_chain) k) else 0) \<le> 100"
  using guard_solvent[OF blocked_reachable demo_separates path_usd(1)]
  by (simp add: blocked_chain_def)

text \<open>Claim C20: a blocked amount is claimed once, by its recovery authority, in full. A successful claim
  comes from the authority the receipt designates; it pays exactly the recorded amount out of
  the guard to the resolved destination, which is not zero and not a token, changes no other
  balance of the token and no other receipt, and afterwards every claim and every burn of the
  same receipt fails, whoever tries.\<close>

theorem claim_pays_once:
  assumes "claim m to (Some r) e c = Inr (u, c', l)"
  shows "let k = receipt_key e r; v = receipt_balances (guard c) k; token = cr_token r; K = RECEIVE_POLICY_GUARD_ADDRESS in
    v \<noteq> 0 \<and>
    (\<exists>receiver. resolve_recipient (cr_recipient r) e (addresses c) = Inr receiver \<and>
       m = (if cr_recovery_authority r = RECOVERY_ORIGINATOR then cr_originator r else cr_recovery_authority r)) \<and>
    (\<exists>d. recipient_resolve to e c = Inr d \<and> target d \<noteq> 0 \<and> \<not> is_tip20_prefix (target d) \<and>
       (target d \<noteq> K \<longrightarrow>
          unat (balances (tokens c' token) (target d)) = unat (balances (tokens c token) (target d)) + unat v \<and>
          unat (balances (tokens c' token) K) + unat v = unat (balances (tokens c token) K)) \<and>
       (\<forall>a. a \<noteq> K \<and> a \<noteq> target d \<longrightarrow> balances (tokens c' token) a = balances (tokens c token) a)) \<and>
    (\<forall>a. a \<noteq> token \<longrightarrow> tokens c' a = tokens c a) \<and>
    receipt_balances (guard c') = (receipt_balances (guard c))(k := 0) \<and>
    (\<forall>m' to'. \<exists>err. claim m' to' (Some r) e c' = Inl err) \<and>
    (\<forall>m'. \<exists>err. burn_blocked_receipt m' (Some r) e c' = Inl err)"
proof -
  let ?v = "receipt_balances (guard c) (receipt_key e r)"
  from assms obtain receiver d t' l' where
    rec: "resolve_recipient (cr_recipient r) e (addresses c) = Inr receiver" "recovery_authority (recovery_from r receiver) r = m"
    and v: "?v \<noteq> 0" and d: "recipient_resolve to e c = Inr d" "recipient_validate d = Inr ()"
    and tr: "transfer_core (cr_token r) RECEIVE_POLICY_GUARD_ADDRESS d ?v e (tokens c (cr_token r)) = Inr ((), t', l')"
    and c': "tokens c' = (tokens c)(cr_token r := t')" "guard c' = with_receipt (receipt_key e r) 0 (guard c)"
    by (rule claim_Inr) auto
  have nz: "target d \<noteq> 0" "\<not> is_tip20_prefix (target d)" using d(2) by (auto simp: recipient_validate_def rensure_eq_Inr)
  have auth: "m = (if cr_recovery_authority r = RECOVERY_ORIGINATOR then cr_originator r else cr_recovery_authority r)"
    using rec(2) by (auto simp: recovery_from_def split: if_splits)
  note mv = transfer_core_moves[OF tr]
  note n = moved_nat[OF mv(1) nz(1) mv(3)[rule_format, OF nz(1)]]
  have again: "\<exists>err. claim m' to' (Some r) e c' = Inl err" for m' to'
  proof (cases "claim m' to' (Some r) e c'")
    case (Inr x)
    then obtain u2 c2 l2 where "claim m' to' (Some r) e c' = Inr (u2, c2, l2)" by (cases x) auto
    then have False by (rule claim_Inr) (use c'(2) in auto)
    then show ?thesis ..
  qed blast
  have burn: "\<exists>err. burn_blocked_receipt m' (Some r) e c' = Inl err" for m'
  proof (cases "burn_blocked_receipt m' (Some r) e c'")
    case (Inr x)
    then obtain u2 c2 l2 where "burn_blocked_receipt m' (Some r) e c' = Inr (u2, c2, l2)" by (cases x) auto
    then have False by (rule burn_receipt_Inr) (use c'(2) in auto)
    then show ?thesis ..
  qed blast
  show ?thesis
    unfolding Let_def using v rec auth d(1) nz n again burn c' mv(2) by auto
qed

lemma claim_succeeds_example:
  "\<exists>c' l. claim ALICE BOB (Some blocked_receipt) (chain_env T6) blocked_chain = Inr ((), c', l)"
proof -
  let ?k = "demo_hash (receipt_encode blocked_receipt)" and ?e = "chain_env T6"
  let ?t = "demo_minted_token\<lparr>balances := (\<lambda>_. 0)(ALICE := 1000, BOB := 400, RECEIVE_POLICY_GUARD_ADDRESS := 100)\<rparr>"
  let ?c = "blocked_chain\<lparr>guard := with_receipt ?k 0 (guard blocked_chain)\<rparr>"
  have f: "\<not> paused (tokens ?c PATH_USD_ADDRESS)" "legacy_transfer_policy_id (tokens ?c PATH_USD_ADDRESS) = ALLOW_ALL_POLICY_ID"
    "tokens ?c PATH_USD_ADDRESS = ?t" "transaction_key (keychain ?c) = 0" "addresses blocked_chain = registry_init"
    by (simp_all add: blocked_chain_def demo_minted_token_def demo_issuer_token_def demo_token_def token_init_def demo_keychain_def)
  have r: "cr_token blocked_receipt = PATH_USD_ADDRESS" "cr_originator blocked_receipt = BOB" "cr_recipient blocked_receipt = ALICE"
    "recovery_from blocked_receipt ALICE = Receiver" "cr_recovery_authority blocked_receipt = ALICE"
    by (simp_all add: blocked_receipt_def recovery_from_def)
  have res: "recipient_resolve BOB ?e ?c = Inr (direct BOB)" by (simp add: recipient_resolve_def resolve_recipient_def)
  have auth: "ensure_transfer_authorized PATH_USD_ADDRESS ALICE BOB ?e ?c = Inr ()"
    using f by (simp add: ensure_transfer_authorized_def is_transfer_authorized_def transfer_policy_id_def)
  have rp: "validate_receive_policy PATH_USD_ADDRESS ALICE BOB ?e (tip403 blocked_chain) = Inr None"
    by (simp add: validate_receive_policy_def check_receive_policy_def blocked_chain_def refusing_registry_def tip403_init_def Let_def)
  have core: "\<exists>t' l. transfer_core PATH_USD_ADDRESS RECEIVE_POLICY_GUARD_ADDRESS (direct BOB) 100 ?e ?t = Inr ((), t', l)"
    by (simp add: ledger_exec demo_minted_token_def demo_issuer_token_def demo_token_def token_init_def RECEIVE_POLICY_GUARD_ADDRESS_def)
  have key: "check_and_update_spending_limit PATH_USD_ADDRESS ALICE 100 ?e ?c = Inr ((), ?c, [])"
    by (rule charge_main_key[OF f(4)])
  have put: "token_put PATH_USD_ADDRESS ?t ?c = ?c" using token_lens.put_get[of PATH_USD_ADDRESS ?c] unfolding f(3) .
  have tgt: "target (direct BOB) = BOB" "virtual_addr (direct BOB) = None" by (simp_all add: direct_def)
  have rel: "\<exists>c' l. release_blocked_funds PATH_USD_ADDRESS BOB ALICE BOB 100 Receiver ALICE ?e ?c = Inr ((), c', l)"
    using core f(1,3)
    by (auto simp: release_blocked_funds_def exec_simps check_not_paused_def res recipient_validate_def tgt Let_def auth rp
        bind_andthen[of "check_and_update_spending_limit a b d" for a b d] key put emit_hop_def
        build_virtual_transfer_event_def)
  have "receipt_balances (guard blocked_chain) ?k = 100" by (simp add: blocked_chain_def)
  then show ?thesis using rel
    by (auto simp: claim_def exec_simps Let_def resolve_receipt_def r resolve_recipient_def receipt_key_def set_receipt_balance_def
        from_address_def bind_andthen[of "release_blocked_funds a b d f g h i" for a b d f g h i] emit_guard_def
        RECEIVE_POLICY_GUARD_ADDRESS_def)
qed

theorem claim_pays_once_witness:
  "\<exists>c' l. claim ALICE BOB (Some blocked_receipt) (chain_env T6) blocked_chain = Inr ((), c', l) \<and>
     unat (balances (tokens c' PATH_USD_ADDRESS) BOB) = 500 \<and>
     (\<exists>err. claim ALICE BOB (Some blocked_receipt) (chain_env T6) c' = Inl err)"
proof -
  obtain c' l where run: "claim ALICE BOB (Some blocked_receipt) (chain_env T6) blocked_chain = Inr ((), c', l)"
    using claim_succeeds_example by blast
  have res: "recipient_resolve BOB e c = Inr (direct BOB)" for e c by (simp add: recipient_resolve_def resolve_recipient_def)
  have v: "receipt_balances (guard blocked_chain) (receipt_key (chain_env T6) blocked_receipt) = 100" "cr_token blocked_receipt = PATH_USD_ADDRESS"
    "balances (tokens blocked_chain PATH_USD_ADDRESS) = (\<lambda>_. 0)(ALICE := 1000, BOB := 400, RECEIVE_POLICY_GUARD_ADDRESS := 100)"
    by (simp_all add: blocked_chain_def receipt_key_def blocked_receipt_def)
  from claim_pays_once[OF run] run show ?thesis
    unfolding Let_def v by (auto simp: res direct_def RECEIVE_POLICY_GUARD_ADDRESS_def)
qed

end
