(* ===== verification/Channel_Solvency.thy ===== *)
theory Channel_Solvency
  imports Channel_Effects Guard_Solvency
begin

text \<open>
  The channel reserve is solvent: what its open channels still lock of a token is covered by the
  reserve's balance in that token, in every reachable state, and no channel has paid out more than
  was deposited. Channels are stored under the hash of their descriptor, so the accounting per
  token needs that channels of different tokens do not have the same id.
\<close>

section \<open>Locked funds per token\<close>

definition channel_encode :: "channel_descriptor \<Rightarrow> u64 \<Rightarrow> u8 list" where
  "channel_encode d chain = abi_address (ch_payer d) @ abi_address (ch_payee d) @ abi_address (ch_operator d) @ abi_address (ch_token d) @
     abi_word (ch_salt d) @ abi_address (ch_signer d) @ abi_word (ch_nonce_hash d) @ abi_address RESERVE @ abi_word (ucast chain)"

lemma channel_id_encode: "channel_id d e = keccak256 e (channel_encode d (chain_id e))"
  by (simp add: channel_id_def compute_channel_id_inner_def channel_encode_def)

definition separates_channels :: "(u8 list \<Rightarrow> b256) \<Rightarrow> bool" where
  "separates_channels hash \<longleftrightarrow>
     (\<forall>d d' n n'. hash (channel_encode d n) = hash (channel_encode d' n') \<longrightarrow> ch_token d = ch_token d')"

definition channel_of :: "(u8 list \<Rightarrow> b256) \<Rightarrow> address \<Rightarrow> b256 \<Rightarrow> bool" where
  "channel_of hash token cid \<longleftrightarrow> (\<exists>d n. hash (channel_encode d n) = cid \<and> ch_token d = token)"

definition locked :: "packed_channel_state \<Rightarrow> nat" where
  "locked st = unat (deposit st) - unat (settled st)"

definition owed :: "(u8 list \<Rightarrow> b256) \<Rightarrow> (b256 \<Rightarrow> packed_channel_state) \<Rightarrow> address \<Rightarrow> nat" where
  "owed hash S token = (\<Sum>cid \<in> UNIV. if channel_of hash token cid then locked (S cid) else 0)"

definition channels_ok :: "(b256 \<Rightarrow> packed_channel_state) \<Rightarrow> bool" where
  "channels_ok S \<longleftrightarrow> (\<forall>cid. settled (S cid) \<le> deposit (S cid) \<and> (deposit (S cid) = 0 \<longrightarrow> S cid = empty_channel))"

lemma owed_upd:
  assumes sep: "separates_channels hash" and cid: "cid = hash (channel_encode d n)"
  shows "owed hash (S(cid := st)) token + (if ch_token d = token then locked (S cid) else 0) =
    owed hash S token + (if ch_token d = token then locked st else 0)"
proof -
  have b: "channel_of hash token cid \<longleftrightarrow> ch_token d = token"
    using sep unfolding channel_of_def separates_channels_def cid by metis
  let ?G = "\<lambda>k x. if channel_of hash token k then locked x else 0"
  have "owed hash (S(cid := st)) token = (\<Sum>k \<in> UNIV. ?G k ((S(cid := st)) k))"
    unfolding owed_def by (rule sum.cong[OF refl]) (simp cong: if_cong)
  with sum_fun_upd[of ?G S cid st] show ?thesis unfolding owed_def[of hash S] b by simp
qed

lemma owed_zero: "owed hash (\<lambda>_. empty_channel) token = 0"
  by (simp add: owed_def locked_def)

section \<open>Every step keeps the channels backed\<close>

abbreviation reserve_quiet :: "surroundings \<Rightarrow> bool" where
  "reserve_quiet s \<equiv> \<not> has_receive_policy (config (seen_receive s RESERVE)) \<and> channels_ok (channel_states (seen_reserve s))"

abbreviation backed :: "(u8 list \<Rightarrow> b256) \<Rightarrow> surroundings \<Rightarrow> address \<Rightarrow> tip20_token \<Rightarrow> bool" where
  "backed hash \<equiv> \<lambda>s self t. reserve_quiet s \<and> custody RESERVE (owed hash (channel_states (seen_reserve s))) self t"

lemma all_backed:
  assumes "all_tokens (backed hash) c"
  shows "reserve_open (tip403 c)" "channels_ok (channel_states (reserve c))"
    "is_tip20_prefix a \<Longrightarrow> custody RESERVE (owed hash (channel_states (reserve c))) a (tokens c a)"
  using assms[unfolded all_tokens_def, rule_format, OF path_usd(1)] assms by (simp_all add: all_tokens_def)

lemma all_backedI:
  assumes "reserve_open (tip403 c)" "channels_ok (channel_states (reserve c))"
    "\<And>a. is_tip20_prefix a \<Longrightarrow> custody RESERVE (owed hash (channel_states (reserve c))) a (tokens c a)"
  shows "all_tokens (backed hash) c"
  using assms by (simp add: all_tokens_def)

text \<open>One channel and the reserve's balance in its token change, together.\<close>

lemma backed_change:
  assumes sep: "separates_channels (keccak256 e)" and all: "all_tokens (backed (keccak256 e)) c"
    and tip: "tip403 c' = tip403 c"
    and S: "channel_states (reserve c') = (channel_states (reserve c))(channel_id d e := st')"
    and ok: "settled st' \<le> deposit st'" "deposit st' = 0 \<longrightarrow> st' = empty_channel"
    and frame: "\<And>a. a \<noteq> ch_token d \<Longrightarrow> tokens c' a = tokens c a"
    and al: "allowances (tokens c' (ch_token d)) = allowances (tokens c (ch_token d))"
    and bal: "unat (balances (tokens c (ch_token d)) RESERVE) + locked st' \<le>
        unat (balances (tokens c' (ch_token d)) RESERVE) + locked (channel_states (reserve c) (channel_id d e))"
  shows "all_tokens (backed (keccak256 e)) c'"
proof (rule all_backedI)
  note old = all_backed[OF all] and o = owed_upd[OF sep channel_id_encode, where S = "channel_states (reserve c)"  and st = st']
  show "reserve_open (tip403 c')" using old(1) by (simp add: tip)
  show "channels_ok (channel_states (reserve c'))" using old(2) ok by (simp add: S channels_ok_def)
  show "custody RESERVE (owed (keccak256 e) (channel_states (reserve c'))) a (tokens c' a)" if "is_tip20_prefix a" for a
    using old(3)[OF that] o[of d a] frame[of a] al bal unfolding S custody_def by (cases "a = ch_token d") auto
qed

lemma locked_simps:
  "locked empty_channel = 0" "deposit st = 0 \<Longrightarrow> locked st = 0"
  by (simp_all add: locked_def)

lemma reserve_not_external: "\<not> external_account RESERVE"
  by (simp add: external_account_def SYSTEM_PRECOMPILES_def)

lemma keeps_backed_methods:
  assumes sep: "separates_channels (keccak256 e)" and m: "external_account m" and all: "all_tokens (backed (keccak256 e)) c"
  shows "channel_open m call e c = Inr (x, c', l) \<Longrightarrow> all_tokens (backed (keccak256 e)) c'"
    "channel_settle m d cumulative signature e c = Inr (u, c', l) \<Longrightarrow> all_tokens (backed (keccak256 e)) c'"
    "channel_top_up m d additional e c = Inr (u, c', l) \<Longrightarrow> all_tokens (backed (keccak256 e)) c'"
    "channel_request_close m d e c = Inr (u, c', l) \<Longrightarrow> all_tokens (backed (keccak256 e)) c'"
    "channel_close m d cumulative capture signature e c = Inr (u, c', l) \<Longrightarrow> all_tokens (backed (keccak256 e)) c'"
    "channel_withdraw m d e c = Inr (u, c', l) \<Longrightarrow> all_tokens (backed (keccak256 e)) c'"
proof -
  have mR: "m \<noteq> RESERVE" using m reserve_not_external by auto
  note old = all_backed[OF all] and change = backed_change[OF sep all]
  let ?S = "channel_states (reserve c)"
  have ok: "settled (?S k) \<le> deposit (?S k)" for k using old(2) by (simp add: channels_ok_def)
  have unat_le: "unat a \<le> unat b" if "a \<le> b" for a b :: u96 using that by (simp add: word_le_nat_alt)
  show "all_tokens (backed (keccak256 e)) c'" if "channel_open m call e c = Inr (x, c', l)"
  using that proof (rule open_Inr[OF _ old(1)])
    fix nonce
    let ?d = "\<lparr>ch_payer = m, ch_payee = oc_payee call, ch_operator = oc_operator call, ch_token = oc_token call, ch_salt = oc_salt call,
      ch_signer = oc_authorized_signer call, ch_nonce_hash = nonce\<rparr>"
    assume "x = compute_channel_id_inner e m (oc_payee call) (oc_operator call) (oc_token call) (oc_salt call) (oc_authorized_signer call) nonce"
    then have x: "x = channel_id ?d e" by (simp add: channel_id_def)
    assume "deposit (?S x) = 0" "oc_deposit call \<noteq> 0" and p: "paid (oc_token call) m RESERVE (ucast (oc_deposit call)) (tokens c) (tokens c')"
      and "channel_states (reserve c') = ?S(x := \<lparr>settled = 0, deposit = oc_deposit call, close_requested_at = 0,
        uses_logical_receive_policy_sender = is_t12 (spec e)\<rparr>)" "tip403 c' = tip403 c"
    with paid_balances(2)[OF p mR] p show ?thesis
      by (intro change[where d = ?d and st' = "\<lparr>settled = 0, deposit = oc_deposit call, close_requested_at = 0,
        uses_logical_receive_policy_sender = is_t12 (spec e)\<rparr>"]) (simp_all add: x locked_def paid_def unat_ucast_up)
  qed
  show "all_tokens (backed (keccak256 e)) c'" if "channel_settle m d cumulative signature e c = Inr (u, c', l)"
  using that proof (rule settle_Inr)
    fix st assume st: "?S (channel_id d e) = st" and b: "deposit st \<noteq> 0" "settled st < cumulative" "cumulative \<le> deposit st"
      and p: "pays_out e (ch_token d) (ch_payee d) (ucast (cumulative - settled st)) c (tokens c) (tokens c')"
      and S: "channel_states (reserve c') = ?S(channel_id d e := st\<lparr>settled := cumulative\<rparr>)" "tip403 c' = tip403 c"
    from pays_out_bound[OF p] b S st unat_le[OF less_imp_le[OF b(2)]] unat_le[OF b(3)] show ?thesis
      by (intro change[where d = d and st' = "st\<lparr>settled := cumulative\<rparr>"]) (simp_all add: locked_def unat_difference)
  qed
  show "all_tokens (backed (keccak256 e)) c'" if "channel_top_up m d additional e c = Inr (u, c', l)"
  using that proof (rule top_up_Inr[OF _ old(1)])
    fix st assume st: "?S (channel_id d e) = st" and b: "deposit st \<noteq> 0" "unat (deposit st) + unat additional < 2 ^ 96"
      and p: "if additional = 0 then tokens c' = tokens c else paid (ch_token d) m RESERVE (ucast additional) (tokens c) (tokens c')"
      and S: "channel_states (reserve c') = ?S(channel_id d e := st\<lparr>deposit := deposit st + additional, close_requested_at := 0\<rparr>)"
        "tip403 c' = tip403 c"
    have sum: "unat (deposit st + additional) = unat (deposit st) + unat additional" using b(2) by (simp add: unat_word_ariths)
    have "unat (balances (tokens c' (ch_token d)) RESERVE) = unat (balances (tokens c (ch_token d)) RESERVE) + unat additional"
      "allowances (tokens c' (ch_token d)) = allowances (tokens c (ch_token d))" "\<And>a. a \<noteq> ch_token d \<Longrightarrow> tokens c' a = tokens c a"
      using p paid_balances(2)[OF _ mR, of "ch_token d" "ucast additional" "tokens c" "tokens c'"]
      by (auto simp: unat_ucast_up paid_def split: if_splits)
    moreover have "unat (settled st) \<le> unat (deposit st)" using unat_le[OF ok[of "channel_id d e"]] st by simp
    ultimately show ?thesis using S b st sum
      by (intro change[where d = d and st' = "st\<lparr>deposit := deposit st + additional, close_requested_at := 0\<rparr>"]) (simp_all add: locked_def word_le_nat_alt word_unat_eq_iff)
  qed
  show "all_tokens (backed (keccak256 e)) c'" if "channel_request_close m d e c = Inr (u, c', l)"
  using that proof (rule request_close_Inr)
    fix st assume "?S (channel_id d e) = st" "deposit st \<noteq> 0" "tokens c' = tokens c" "tip403 c' = tip403 c"
      "channel_states (reserve c') = ?S(channel_id d e := st\<lparr>close_requested_at :=
         if close_requested_at st = 0 then now_u32 e else close_requested_at st\<rparr>)"
    with ok[of "channel_id d e"] show ?thesis by (intro change[where d = d and st' = "st\<lparr>close_requested_at :=
         if close_requested_at st = 0 then now_u32 e else close_requested_at st\<rparr>"]) (simp_all add: locked_def)
  qed
  show "all_tokens (backed (keccak256 e)) c'" if "channel_close m d cumulative capture signature e c = Inr (u, c', l)"
  using that proof (rule close_Inr)
    fix st assume st: "?S (channel_id d e) = st" and b: "settled st \<le> capture" "capture \<le> deposit st"
      and "pays_both e (ch_token d) (ch_payee d) (ucast (capture - settled st)) (ch_payer d) (ucast (deposit st - capture)) c (tokens c) (tokens c')"
      and S: "channel_states (reserve c') = ?S(channel_id d e := empty_channel)" "tip403 c' = tip403 c"
    then obtain T1 where p: "pays_out e (ch_token d) (ch_payee d) (ucast (capture - settled st)) c (tokens c) T1"
      "pays_out e (ch_token d) (ch_payer d) (ucast (deposit st - capture)) c T1 (tokens c')" by (auto simp: pays_both_def)
    from pays_out_bound[OF p(1)] pays_out_bound[OF p(2)] S st unat_le[OF b(1)] unat_le[OF b(2)] b show ?thesis
      by (intro change[where d = d and st' = "empty_channel"]) (simp_all add: locked_def unat_difference)
  qed
  show "all_tokens (backed (keccak256 e)) c'" if "channel_withdraw m d e c = Inr (u, c', l)"
  using that proof (rule withdraw_Inr)
    fix st assume st: "?S (channel_id d e) = st" and b: "settled st \<le> deposit st"
      and p: "pays_out e (ch_token d) (ch_payer d) (ucast (deposit st - settled st)) c (tokens c) (tokens c')"
      and S: "channel_states (reserve c') = ?S(channel_id d e := empty_channel)" "tip403 c' = tip403 c"
    from pays_out_bound[OF p] S st unat_le[OF b] b show ?thesis
      by (intro change[where d = d and st' = "empty_channel"]) (simp_all add: locked_def unat_difference)
  qed
qed

lemma backed_blocked:
  assumes K: "custodian e RESERVE" and keys: "no_system_keys e" and self: "is_tip20_prefix self" and all: "all_tokens (backed hash) c"
    and core: "(from \<noteq> RESERVE \<or> v = 0) \<and> transfer_core self from (direct RECEIVE_POLICY_GUARD_ADDRESS) v e (tokens c self) = Inr ((), t', l) \<or>
      mint_core self (direct RECEIVE_POLICY_GUARD_ADDRESS) (total_supply (tokens c self)) v e (tokens c self) = Inr ((), t', l)"
  shows "all_tokens (backed hash) (c\<lparr>tokens := (tokens c)(self := t'), guard := g'\<rparr>)"
proof (rule all_backedI)
  note old = all_backed[OF all]
  show "reserve_open (tip403 (c\<lparr>tokens := (tokens c)(self := t'), guard := g'\<rparr>))"
    "channels_ok (channel_states (reserve (c\<lparr>tokens := (tokens c)(self := t'), guard := g'\<rparr>)))" using old by simp_all
  have guard: "target (direct RECEIVE_POLICY_GUARD_ADDRESS) \<noteq> 0" by (simp add: direct_def RECEIVE_POLICY_GUARD_ADDRESS_def)
  let ?C = "custody RESERVE (owed hash (channel_states (reserve c))) self"
  have "?C t'" using core
  proof (elim disjE[of "_ \<and> _"] conjE)
    assume src: "from \<noteq> RESERVE \<or> v = 0" and run: "transfer_core self from (direct RECEIVE_POLICY_GUARD_ADDRESS) v e (tokens c self) = Inr ((), t', l)"
    show "?C t'" by (rule validD[OF custody_transfer[OF src guard] old(3)[OF self] run])
  next
    assume "mint_core self (direct RECEIVE_POLICY_GUARD_ADDRESS) (total_supply (tokens c self)) v e (tokens c self) = Inr ((), t', l)"
    then have "bind (gets total_supply) (\<lambda>s. mint_core self (direct RECEIVE_POLICY_GUARD_ADDRESS) s v) e (tokens c self) = Inr ((), t', l)"
      by (simp add: bind_exec)
    from validD[OF custody_mint old(3)[OF self] this] show "?C t'" .
  qed
  then show "custody RESERVE (owed hash (channel_states (reserve (c\<lparr>tokens := (tokens c)(self := t'), guard := g'\<rparr>)))) a
      (tokens (c\<lparr>tokens := (tokens c)(self := t'), guard := g'\<rparr>) a)" if "is_tip20_prefix a" for a
    using old(3)[OF that] by simp
qed

lemma reserve_law_backed:
  assumes sep: "separates_channels (keccak256 e)" and t5: "is_t5 (spec e)" and keys: "no_system_keys e"
  shows "guarded_chain_law e (backed (keccak256 e)) (\<lambda>_ a. a \<noteq> RESERVE)"
proof -
  note K = custodians(3)[OF t5]
  have law: "guarded_law e (backed (keccak256 e)) (\<lambda>_ a. a \<noteq> RESERVE)"
    by (rule guarded_law_of_token_laws[where R = "custody RESERVE", OF custody_law[OF K keys]])
      (rule backed_blocked[OF K keys] | simp)+
  show ?thesis
  proof (rule guarded_chain_law.intro[OF guarded_calls_law.intro[OF law]]; unfold_locales)
    show "preserves e (all_tokens (backed (keccak256 e))) (guard_exec m call)" for m call
      by (rule guarded_law.keeps_guard_exec[OF law]) (simp_all add: address_defs)
    show "preserves e (all_tokens (backed (keccak256 e))) (reserve_exec m call)" if m: "external_account m" for m call
    proof -
      have "preserves e (all_tokens (backed (keccak256 e))) (reserve_method m call)"
      proof (rule validI)
        fix c u c' l assume all: "all_tokens (backed (keccak256 e)) c" and run: "reserve_method m call e c = Inr (u, c', l)"
        note keeps = keeps_backed_methods[OF sep m all]
        show "all_tokens (backed (keccak256 e)) c'"
        proof (cases call)
          case (OpenCall oc)
          with run have "\<exists>x. channel_open m oc e c = Inr (x, c', l)" by (simp add: discard_eq_Inr)
          then show ?thesis using keeps(1) by blast
        qed (rule keeps(2-6), use run in fastforce)+
      qed
      then show ?thesis unfolding reserve_exec_def by (intro valid_intros guarded_law.keeps_on_credits[OF law])
    qed
    show "backed (keccak256 e) (s\<lparr>seen_receive := (seen_receive s)(m := x)\<rparr>) self t"
      if "external_account m" "backed (keccak256 e) s self t" for m s x self t
      using that reserve_not_external by (cases "m = RESERVE") auto
    show "K \<noteq> RESERVE" if "K \<in> {TIP_FEE_MANAGER_ADDRESS, STABLECOIN_DEX_ADDRESS}" for K
      using that by (auto simp: address_defs)
  qed (simp_all add: custody_def)
qed

text \<open>Before T5 there are no channels, and no account but an external one ever sets a receive policy.\<close>

lemma quiet_law:
  "guarded_law e (\<lambda>s _ _. Q (seen_receive s) (channel_states (seen_reserve s))) (\<lambda>_ _. True)"
  by unfold_locales (auto simp: valid_def all_tokens_def)

lemma no_channels_law:
  assumes "\<not> is_t5 (spec e)"
  shows "guarded_chain_law e (\<lambda>s _ _. channel_states (seen_reserve s) = S) (\<lambda>_ _. True)"
proof (rule guarded_chain_law.intro[OF guarded_calls_law.intro[OF quiet_law]]; unfold_locales)
  show "preserves e (all_tokens (\<lambda>s _ _. channel_states (seen_reserve s) = S)) (guard_exec m call)" for m call
    by (rule guarded_law.keeps_guard_exec[OF quiet_law]) simp_all
qed (use assms in simp_all)

lemma no_policy_law:
  assumes "\<not> external_account K"
  shows "guarded_chain_law e (\<lambda>s _ _. \<not> has_receive_policy (config (seen_receive s K))) (\<lambda>_ _. True)"
proof (rule guarded_chain_law.intro[OF guarded_calls_law.intro[OF quiet_law]]; unfold_locales)
  show "preserves e (all_tokens (\<lambda>s _ _. \<not> has_receive_policy (config (seen_receive s K)))) (guard_exec m call)" for m call
    by (rule guarded_law.keeps_guard_exec[OF quiet_law]) simp_all
  show "preserves e (all_tokens (\<lambda>s _ _. \<not> has_receive_policy (config (seen_receive s K)))) (reserve_exec m call)" if "external_account m" for m call
    by (rule guarded_law.keeps_reserve_exec[OF quiet_law _ _ that]) simp_all
qed (use assms in auto)

lemma reserve_invariant:
  assumes sep: "separates_channels hash"
  shows "chain_invariant hash h0 (\<lambda>h c. all_tokens (\<lambda>_. custody RESERVE (\<lambda>_. 0)) c \<and> reserve_open (tip403 c) \<and>
     (if is_t5 h then all_tokens (backed hash) c else channel_states (reserve c) = (\<lambda>_. empty_channel)))"
    (is "chain_invariant hash h0 ?I")
proof unfold_locales
  have start: "all_tokens (backed hash) c"
    if "all_tokens (\<lambda>_. custody RESERVE (\<lambda>_. 0)) c" "reserve_open (tip403 c)" "channel_states (reserve c) = (\<lambda>_. empty_channel)" for c
    using that by (intro all_backedI) (simp_all add: all_tokens_def custody_def channels_ok_def owed_zero)
  show "?I h0 (genesis_chain k)" for k
  proof -
    have "all_tokens (\<lambda>_. custody RESERVE (\<lambda>_. 0)) (genesis_chain k)" "reserve_open (tip403 (genesis_chain k))"
      "channel_states (reserve (genesis_chain k)) = (\<lambda>_. empty_channel)"
      by (simp_all add: all_tokens_def custody_def genesis_chain_def token_init_def reserve_init_def tip403_init_def)
    with start show ?thesis by simp
  qed
  show "?I h' c" if "?I h c" "h \<le> h'" for h h' c
    using that start[of c] by (auto simp: is_t5_def split: if_splits)
  show "?I (spec e) c'" if inv: "?I (spec e) c" and hash: "keccak256 e = hash" and keys: "no_system_keys e" and step: "chain_step e c c'" for e c c'
  proof (intro conjI)
    from chain_law.law_keeps[OF no_allowance_law[OF reserve_not_external keys] step] inv
    show "all_tokens (\<lambda>_. custody RESERVE (\<lambda>_. 0)) c'" by blast
    from guarded_chain_law.step_keeps[OF no_policy_law[OF reserve_not_external] step] inv path_usd(1)
    show "reserve_open (tip403 c')" unfolding all_tokens_def by fastforce
    show "if is_t5 (spec e) then all_tokens (backed hash) c' else channel_states (reserve c') = (\<lambda>_. empty_channel)"
    proof (cases "is_t5 (spec e)")
      case True
      with guarded_chain_law.step_keeps[OF reserve_law_backed[OF _ True keys] step] inv sep hash show ?thesis by simp
    next
      case False
      with guarded_chain_law.step_keeps[OF no_channels_law[OF False, of "\<lambda>_. empty_channel"] step] inv path_usd(1)
      show ?thesis unfolding all_tokens_def by fastforce
    qed
  qed
qed

lemma reachable_backed:
  assumes "reachable hash h0 h c" "separates_channels hash"
  shows "reserve_open (tip403 c)" "channels_ok (channel_states (reserve c))"
    "is_tip20_prefix a \<Longrightarrow> owed hash (channel_states (reserve c)) a \<le> unat (balances (tokens c a) RESERVE)"
proof -
  note inv = chain_invariant.reachable_inv[OF reserve_invariant[OF assms(2)] assms(1)]
  show "reserve_open (tip403 c)" using inv by blast
  show "channels_ok (channel_states (reserve c))"
    using inv all_backed(2)[of hash c] by (cases "is_t5 h") (simp_all add: channels_ok_def)
  show "owed hash (channel_states (reserve c)) a \<le> unat (balances (tokens c a) RESERVE)" if "is_tip20_prefix a"
    using inv all_backed(3)[of hash c, OF _ that] by (cases "is_t5 h") (simp_all add: custody_def owed_zero)
qed

end
