(* ===== verification/Channel_Liveness.thy ===== *)
theory Channel_Liveness
  imports Channel_Solvency
begin

text \<open>
  The payer of a channel gets the unspent deposit back. Deleting a channel mints a storage credit,
  and the bookkeeping of it for the payer never fails; the reserve is solvent, so the refund is
  covered; and after the grace period nothing else can stop the withdrawal.
\<close>

section \<open>Storage credits of a deletion\<close>

abbreviation decodable :: "chain \<Rightarrow> bool" where
  "decodable c \<equiv> word_ok (credit_words (credits c) RESERVE)"

text \<open>The transient words decode in every reachable state: transactions start with empty ones.\<close>

lemma decodable_law: "guarded_chain_law e (\<lambda>s _ _. seen_words s) (\<lambda>_ _. True)"
proof -
  have law: "guarded_law e (\<lambda>s _ _. seen_words s) (\<lambda>_ _. True)"
    by unfold_locales (auto simp: valid_def all_tokens_def)
  show ?thesis
  proof (rule guarded_chain_law.intro[OF guarded_calls_law.intro[OF law]]; unfold_locales)
    show "preserves e (all_tokens (\<lambda>s _ _. seen_words s)) (guard_exec m call)" for m call
      by (rule guarded_law.keeps_guard_exec[OF law]) simp_all
    show "preserves e (all_tokens (\<lambda>s _ _. seen_words s)) (reserve_exec m call)" if "external_account m" for m call
      by (rule guarded_law.keeps_reserve_exec[OF law _ _ that]) simp_all
  qed simp_all
qed

lemma reachable_decodable:
  assumes "reachable hash h0 h c"
  shows "decodable c"
proof -
  have "chain_invariant hash h0 (\<lambda>_. all_tokens (\<lambda>s _ _. seen_words s))"
    by unfold_locales
      (simp add: all_tokens_def genesis_chain_def credits_init_def words_ok_def word_ok_zero,
       assumption, rule guarded_chain_law.step_keeps[OF decodable_law])
  from chain_invariant.reachable_inv[OF this assms] path_usd(1) have "words_ok (credits c)" unfolding all_tokens_def by fastforce
  then show ?thesis by (simp add: words_ok_def)
qed

abbreviation credit :: "storage_credits \<Rightarrow> u64" where
  "credit s \<equiv> credit_balances s RESERVE"

lemma reserve_not_credits: "RESERVE \<noteq> STORAGE_CREDITS_ADDRESS" "STORAGE_CREDITS_ADDRESS \<noteq> RESERVE"
  by (simp_all add: address_defs)

lemma minting_write:
  "is_t7 (spec e) \<Longrightarrow> tracked_write RESERVE False True e s =
     Inr ((), s\<lparr>credit_balances := (credit_balances s)(RESERVE := saturating_add (credit s) 1)\<rparr>, [])"
  by (simp add: tracked_write_def sstore_storage_credits_def exec_simps reserve_not_credits credit_balance_of_def)

lemma plain_write: "tracked_write RESERVE b b e s = Inr ((), s, [])"
  by (simp add: tracked_write_def sstore_storage_credits_def exec_simps)

lemma spending_write:
  assumes "is_t7 (spec e)" "credit s \<noteq> 0" "n \<noteq> 0" "credit_words s RESERVE = word_of_transient \<lparr>cr_mode = DirectMode, budget = n, pending_refunds = k\<rparr>"
  shows "\<exists>w. tracked_write RESERVE True False e s =
     Inr ((), s\<lparr>credit_words := (credit_words s)(RESERVE := word_of_transient w), credit_balances := (credit_balances s)(RESERVE := credit s - 1)\<rparr>, [])"
proof (rule exI[of _ "\<lparr>cr_mode = DirectMode, budget = if n = - 1 then n else n - 1, pending_refunds = k\<rparr>"])
  have "0 < credit s" "0 < n" using assms by (simp_all add: word_neq_0_conv)
  moreover have "(credit_words s)(RESERVE := word_of_transient \<lparr>cr_mode = DirectMode, budget = n, pending_refunds = k\<rparr>) = credit_words s"
    using assms(4) by (metis fun_upd_triv)
  ultimately show "tracked_write RESERVE True False e s = Inr ((), s\<lparr>credit_words := (credit_words s)(RESERVE :=
      word_of_transient \<lparr>cr_mode = DirectMode, budget = if n = - 1 then n else n - 1, pending_refunds = k\<rparr>),
      credit_balances := (credit_balances s)(RESERVE := credit s - 1)\<rparr>, [])"
    using assms by (cases "n = - 1") (simp_all add: tracked_write_def sstore_storage_credits_def exec_simps reserve_not_credits
        credit_balance_of_def query_run credit_state_of_def write_credit_state_of_def)
qed

text \<open>A budgeted write to an empty slot spends exactly one credit.\<close>

lemma budgeted_write:
  assumes t7: "is_t7 (spec e)" and ok: "decodable c" and cr: "credit (credits c) \<noteq> 0" and n: "n \<noteq> 0"
    and f: "\<And>s. f e (c\<lparr>credits := s\<rparr>) = put_back (\<lambda>s c. c\<lparr>credits := s\<rparr>) (c\<lparr>reserve := r\<rparr>) (tracked_write RESERVE True False e s)"
  shows "\<exists>s. with_budget RESERVE n f e c = Inr (- 1, c\<lparr>reserve := r, credits := s\<rparr>, []) \<and>
     credit_balances s = (credit_balances (credits c))(RESERVE := credit (credits c) - 1) \<and> word_ok (credit_words s RESERVE)"
proof -
  from ok obtain st where st: "credit_words (credits c) RESERVE = word_of_transient st" by (auto simp: word_ok_def)
  let ?w = "word_of_transient (st\<lparr>cr_mode := DirectMode, budget := n\<rparr>)"
  let ?s = "(credits c)\<lparr>credit_words := (credit_words (credits c))(RESERVE := ?w)\<rparr>"
  have set: "set_budget RESERVE n e (credits c) = Inr ((), ?s, [])"
    by (simp add: set_budget_def write_mode_with_budget_def exec_simps query_run credit_state_of_def st write_credit_state_of_def)
  have "?w = word_of_transient \<lparr>cr_mode = DirectMode, budget = n, pending_refunds = pending_refunds st\<rparr>" by (cases st) simp
  then obtain w where w: "tracked_write RESERVE True False e ?s = Inr ((), ?s\<lparr>credit_words := (credit_words ?s)(RESERVE := word_of_transient w),
      credit_balances := (credit_balances ?s)(RESERVE := credit ?s - 1)\<rparr>, [])"
    using spending_write[of e ?s n "pending_refunds st"] t7 cr n by auto
  have "uint (credit (credits c) - 1) = uint (credit (credits c)) - 1"
    using unat_minus_one[OF cr] cr unfolding uint_nat by (simp add: of_nat_diff Suc_leI unat_gt_0)
  then show ?thesis using t7 n
    by (auto simp: with_budget_def exec_simps set bind_andthen[of f] f w query_run credit_state_of_def write_credit_state_of_def credit_balance_of_def)
qed

lemma saturating_succ: "saturating_add (b :: u64) 1 = b \<or> saturating_add b 1 = b + 1 \<and> b + 1 \<noteq> 0 \<and> b < b + 1"
proof (cases "unat b + 1 < 2 ^ 64")
  case True
  then have "unat (b + 1) = unat b + 1" by (simp add: unat_word_ariths)
  with True show ?thesis by (auto simp: saturating_add_def word_less_nat_alt)
next
  case False
  with unat_bound[of b] have "unat b = 2 ^ 64 - 1" by simp
  then have "b = - 1" using unat_max_word[where ?'a = 64] by (simp add: word_unat_eq_iff)
  then show ?thesis by (simp add: saturating_add_def)
qed

lemma credit_slots_total:
  assumes t7: "is_t7 (spec e)" and ok: "decodable c" and cr: "credit (credits c) \<noteq> 0"
  shows "\<exists>c'. credit_channel_storage_slots pay 1 e c = Inr ((), c', [])"
proof (cases "channel_storage_credits (reserve c) pay = 0")
  case True
  let ?r = "(reserve c)\<lparr>channel_storage_credits := (channel_storage_credits (reserve c))(pay := 1)\<rparr>"
  have f: "write_channel_storage_credits pay 1 e (c\<lparr>credits := s\<rparr>) =
      put_back (\<lambda>s c. c\<lparr>credits := s\<rparr>) (c\<lparr>reserve := ?r\<rparr>) (tracked_write RESERVE True False e s)" for s
    using True by (simp add: write_channel_storage_credits_def exec_simps put_back_def cong: sum.case_cong)
  obtain s where "with_budget RESERVE 1 (write_channel_storage_credits pay 1) e c = Inr (- 1, c\<lparr>reserve := ?r, credits := s\<rparr>, [])"
    using budgeted_write[OF t7 ok cr, of 1 "write_channel_storage_credits pay 1" ?r] f by auto
  with True show ?thesis
    by (simp add: credit_channel_storage_slots_def exec_simps saturating_add_def bind_andthen[of "with_budget a n f" for a n f])
next
  case False
  then have "saturating_add (channel_storage_credits (reserve c) pay) 1 \<noteq> 0" using saturating_succ[of "channel_storage_credits (reserve c) pay"] by auto
  with False show ?thesis by (simp add: credit_channel_storage_slots_def write_channel_storage_credits_def exec_simps plain_write Let_def)
qed

lemma delete_state_total:
  assumes t7: "is_t7 (spec e)" and ok: "decodable c" and used: "channel_states (reserve c) cid \<noteq> empty_channel"
  shows "\<exists>c'. delete_channel_state_and_credit_payer cid pay e c = Inr ((), c', [])"
proof -
  let ?b = "credit (credits c)" and ?b' = "saturating_add (credit (credits c)) 1"
  let ?c = "c\<lparr>reserve := (reserve c)\<lparr>channel_states := (channel_states (reserve c))(cid := empty_channel)\<rparr>,
      credits := (credits c)\<lparr>credit_balances := (credit_balances (credits c))(RESERVE := ?b')\<rparr>\<rparr>"
  have w: "write_channel_state cid empty_channel e c = Inr ((), ?c, [])"
    using used t7 by (simp add: write_channel_state_def exec_simps minting_write)
  have "\<not> ?b' < ?b" using saturating_succ[of ?b] by auto
  then have tr: "track_minted_credits RESERVE (write_channel_state cid empty_channel) e c = Inr (?b' - ?b, ?c, [])"
    using t7 by (simp add: track_minted_credits_def exec_simps bind_andthen[of "write_channel_state a b" for a b] w credit_balance_of_def)
  consider "?b' - ?b = 0" | "?b' - ?b = 1" "?b' \<noteq> 0" using saturating_succ[of ?b] by fastforce
  then show ?thesis
  proof cases
    case 1
    then show ?thesis
      by (simp add: delete_channel_state_and_credit_payer_def bind_andthen[of "track_minted_credits a f" for a f] tr credit_channel_storage_slots_def exec_simps)
  next
    case 2
    from credit_slots_total[OF t7, of ?c pay] ok 2(2) obtain c' where "credit_channel_storage_slots pay 1 e ?c = Inr ((), c', [])" by auto
    then show ?thesis
      by (simp add: delete_channel_state_and_credit_payer_def bind_andthen[of "track_minted_credits a f" for a f] tr 2(1) exec_simps)
  qed
qed

section \<open>Paying the refund\<close>

lemma transfer_core_t8_total:
  assumes t8: "is_t8 (spec e)" and sok: "supply_ok t" and v: "v \<le> balances t from"
  shows "\<exists>t' l. transfer_core self from to v e t = Inr ((), t', l)"
proof -
  let ?t = "t\<lparr>balances := (balances t)(from := balances t from - v)\<rparr>"
  have "unat (balances ?t k) + unat v < 2 ^ 256" for k
    using balance_bound[OF sok, of k] balance_bound[OF sok, of "from"] v by (auto simp: word_le_nat_alt unat_sub)
  then show ?thesis using t8 v
    by (cases "target to = 0")
      (auto simp: transfer_core_def exec_simps bind_andthen[of "handle_rewards_on_transfer x y z" for x y z] handle_rewards_on_transfer_t8
        balance_change_run bind_andthen[of "decrement_balance x y z" for x y z] bind_andthen[of "increment_balance x y" for x y] emit20_def)
qed

text \<open>A payment out of the reserve goes through when the token and the recipient accept it.\<close>

definition accepts :: "env \<Rightarrow> chain \<Rightarrow> address \<Rightarrow> address \<Rightarrow> recipient \<Rightarrow> bool" where
  "accepts e c tok s rcp \<longleftrightarrow> recipient_validate rcp = Inr () \<and> target rcp \<noteq> RECEIVE_POLICY_GUARD_ADDRESS \<and>
     check_receive_policy tok s (target rcp) e (tip403 c) = Inr None"

definition can_pay :: "chain \<Rightarrow> address \<Rightarrow> nat \<Rightarrow> bool" where
  "can_pay c tok n \<longleftrightarrow> supply_ok (tokens c tok) \<and> n \<le> unat (balances (tokens c tok) RESERVE) \<and> \<not> paused (tokens c tok) \<and>
     (transaction_key (keychain c) = 0 \<or> tx_origin (keychain c) \<noteq> RESERVE)"

lemma channel_transfer_total:
  assumes t8: "is_t8 (spec e)" and can: "can_pay c tok n" and v: "unat v \<le> n" and acc: "accepts e c tok s rcp"
  shows "\<exists>t' l. channel_reserve_transfer tok RESERVE rcp v s e c = Inr ((), c\<lparr>tokens := (tokens c)(tok := t')\<rparr>, l) \<and>
     can_pay (c\<lparr>tokens := (tokens c)(tok := t')\<rparr>) tok (n - unat v)"
proof -
  have lim: "check_and_update_spending_limit tok RESERVE v e c = Inr ((), c, [])"
    using can by (cases c) (auto simp: can_pay_def check_and_update_spending_limit_def authorize_transfer_def exec_simps)
  obtain t' l where tr: "transfer_core tok RESERVE rcp v e (tokens c tok) = Inr ((), t', l)"
    using transfer_core_t8_total[OF t8, of "tokens c tok" v RESERVE tok rcp] can v by (auto simp: can_pay_def word_le_nat_alt)
  have nz: "target rcp \<noteq> 0" using acc by (auto simp: accepts_def recipient_validate_def rensure_eq_Inr)
  have "supply_ok t'" using validD[OF transfer_core_supply[OF nz] _ tr] can by (simp add: can_pay_def)
  moreover have "paused t' = paused (tokens c tok)" by (subst transfer_core_moves(4)[OF tr]) simp
  moreover have "unat (balances (tokens c tok) RESERVE) \<le> unat (balances t' RESERVE) + unat v" by (rule guard_debit(1)[OF tr])
  ultimately have "can_pay (c\<lparr>tokens := (tokens c)(tok := t')\<rparr>) tok (n - unat v)" using can by (auto simp: can_pay_def)
  moreover have "\<exists>l. channel_reserve_transfer tok RESERVE rcp v s e c = Inr ((), c\<lparr>tokens := (tokens c)(tok := t')\<rparr>, l)"
    using can acc tr
    by (auto simp: can_pay_def accepts_def channel_reserve_transfer_def exec_simps check_not_paused_def query_run
        bind_andthen[of "check_and_update_spending_limit a b d" for a b d]
        lim ensure_receive_policy_authorized_def validate_receive_policy_def token_put_def emit_hop_def emit20_def split: option.splits)
  ultimately show ?thesis by blast
qed

text \<open>The same for a payment that is skipped when there is nothing to pay.\<close>

lemma optional_payment_total:
  assumes "is_t8 (spec e)" "can_pay c tok n" "unat w \<le> n" "accepts e c tok s rcp"
  shows "\<exists>c1 l t'. (w = (0 :: u96) \<longrightarrow> c1 = c) \<and> c1 = c\<lparr>tokens := (tokens c)(tok := t')\<rparr> \<and>
    (w \<noteq> 0 \<longrightarrow> channel_reserve_transfer tok RESERVE rcp (ucast w) s e c = Inr ((), c1, l)) \<and> can_pay c1 tok (n - unat w)"
proof (cases "w = 0")
  case True
  with assms show ?thesis by (intro exI[of _ c] exI[of _ "[]"] exI[of _ "tokens c tok"]) simp
next
  case False
  obtain t' l where "channel_reserve_transfer tok RESERVE rcp (ucast w) s e c = Inr ((), c\<lparr>tokens := (tokens c)(tok := t')\<rparr>, l)"
    "can_pay (c\<lparr>tokens := (tokens c)(tok := t')\<rparr>) tok (n - unat (ucast w :: u256))"
    using channel_transfer_total[OF assms(1,2), of "ucast w" s rcp] assms(3,4) by (auto simp: unat_ucast_up)
  with False show ?thesis by (intro exI[of _ "c\<lparr>tokens := (tokens c)(tok := t')\<rparr>"] exI[of _ l] exI[of _ t']) (simp add: unat_ucast_up)
qed

lemma locked_covered:
  assumes "reachable hash h0 h c" "separates_channels hash" "is_tip20_prefix (ch_token d)" "cid = hash (channel_encode d n)"
  shows "locked (channel_states (reserve c) cid) \<le> unat (balances (tokens c (ch_token d)) RESERVE)"
proof -
  have "(if channel_of hash (ch_token d) cid then locked (channel_states (reserve c) cid) else 0) \<le> owed hash (channel_states (reserve c)) (ch_token d)"
    unfolding owed_def by (rule member_le_sum) auto
  moreover have "channel_of hash (ch_token d) cid" using assms(4) by (auto simp: channel_of_def)
  ultimately show ?thesis using reachable_backed(3)[OF assms(1-3)] by simp
qed

lemma reachable_can_pay:
  assumes reach: "reachable (keccak256 e) h0 h c" and sep: "separates_channels (keccak256 e)"
    and tok: "is_tip20_prefix (ch_token d)" "\<not> paused (tokens c (ch_token d))"
    and key: "transaction_key (keychain c) = 0 \<or> tx_origin (keychain c) \<noteq> RESERVE"
  shows "can_pay c (ch_token d) (locked (channel_states (reserve c) (channel_id d e)))"
  using supply_inv.reachable_inv[OF reach] locked_covered[OF reach sep tok(1) channel_id_encode] tok key
  by (auto simp: can_pay_def all_tokens_def)

lemma t12_implies: "is_t12 h \<Longrightarrow> is_t8 h" "is_t12 h \<Longrightarrow> is_t7 h"
  by (cases h; simp add: fork_eval)+

text \<open>Success of a composed operation, step by step.\<close>

lemma succeeds_bind:
  "m e s = Inr (a, s1, l1) \<Longrightarrow> \<exists>s2 l2. f a e s1 = Inr (b, s2, l2) \<Longrightarrow> \<exists>s2 l2. bind m f e s = Inr (b, s2, l2)"
  by (auto simp: bind_eq_Inr)

lemma succeeds_steps:
  "\<exists>s2 l2. f1 (g e) e s = Inr (b, s2, l2) \<Longrightarrow> \<exists>s2 l2. bind (ask g) f1 e s = Inr (b, s2, l2)"
  "q e s = Inr x2 \<Longrightarrow> \<exists>s2 l2. f2 x2 e s = Inr (b, s2, l2) \<Longrightarrow> \<exists>s2 l2. bind (query q) f2 e s = Inr (b, s2, l2)"
  "x \<Longrightarrow> \<exists>s2 l2. f3 () e s = Inr (b, s2, l2) \<Longrightarrow> \<exists>s2 l2. bind (ensure x err) f3 e s = Inr (b, s2, l2)"
  "opt = Some x4 \<Longrightarrow> \<exists>s2 l2. f4 x4 e s = Inr (b, s2, l2) \<Longrightarrow> \<exists>s2 l2. bind (ok_or opt err) f4 e s = Inr (b, s2, l2)"
  "x \<Longrightarrow> \<exists>s2 l2. bind m5 f5 e s = Inr (b, s2, l2) \<Longrightarrow> \<exists>s2 l2. bind (if x then m5 else m5') f5 e s = Inr (b, s2, l2)"
  "\<exists>s2 l2. bind m6 (\<lambda>a. bind (h a) f6) e s = Inr (b, s2, l2) \<Longrightarrow> \<exists>s2 l2. bind (bind m6 h) f6 e s = Inr (b, s2, l2)"
  by (auto simp: bind_exec bind_assoc)

lemma emit_reserve_succeeds: "\<exists>s2 l2. emit_reserve ev e s = Inr ((), s2, l2)"
  by (simp add: emit_reserve_def)

text \<open>The refund of a withdrawal, from T12 on.\<close>

lemma withdraw_total:
  assumes t12: "is_t12 (spec e)" and can: "can_pay c (ch_token d) (locked st)" and tok: "is_tip20_prefix (ch_token d)"
    and st: "st = channel_states (reserve c) (channel_id d e)" "deposit st \<noteq> 0" "settled st \<le> deposit st" "close_requested_at st \<noteq> 0"
    and time: "ucast (close_requested_at st) + CLOSE_GRACE_PERIOD \<le> now64 e"
    and rcp: "recipient_resolve (ch_payer d) e c = Inr rcp" "accepts e c (ch_token d) RESERVE rcp" and ok: "decodable c"
  shows "\<exists>c' l. channel_withdraw (ch_payer d) d e c = Inr ((), c', l)"
proof -
  let ?cid = "channel_id d e" and ?refund = "deposit st - settled st"
  note t = t12_implies[OF t12]
  have used: "st \<noteq> empty_channel" using st(2) by auto
  have n: "unat ?refund \<le> locked st" using st(3) by (simp add: locked_def unat_sub)
  obtain c1 l t' where zero: "?refund = 0 \<longrightarrow> c1 = c" and c1: "c1 = c\<lparr>tokens := (tokens c)(ch_token d := t')\<rparr>"
    and pay: "?refund \<noteq> 0 \<longrightarrow> channel_reserve_transfer (ch_token d) RESERVE rcp (ucast ?refund) RESERVE e c = Inr ((), c1, l)"
    and "can_pay c1 (ch_token d) (locked st - unat ?refund)"
    using optional_payment_total[OF t(1) can n rcp(2)] by (elim exE conjE) (rule that)
  have "decodable c1" "channel_states (reserve c1) ?cid \<noteq> empty_channel" using ok used unfolding c1 by (simp_all flip: st(1))
  from delete_state_total[OF t(2) this] obtain c2 where del: "delete_channel_state_and_credit_payer ?cid (ch_payer d) e c1 = Inr ((), c2, [])" by blast
  have load: "load_existing_state ?cid c = Inr st" using st by (simp add: load_Inr)
  have ready: "case close_request st of None \<Rightarrow> False | Some requested_at \<Rightarrow> now64 e \<ge> ucast requested_at + CLOSE_GRACE_PERIOD"
    using st(4) time by (simp add: close_request_def)
  have refund: "checked_sub (deposit st) (settled st) = Some ?refund" using st(3) by (simp add: checked_sub_eq)
  have token: "from_address (ch_token d) = Inr ()" using tok by (simp add: from_address_def)
  have paid: "\<exists>l. whenM (?refund \<noteq> 0) (bind (query (\<lambda>_ _. from_address (ch_token d))) (\<lambda>_. bind (query (recipient_resolve (ch_payer d))) (\<lambda>rcp.
      channel_reserve_transfer (ch_token d) RESERVE rcp (ucast ?refund) RESERVE))) e c = Inr ((), c1, l)"
    using zero pay rcp(1) token by (cases "?refund = 0") (simp_all add: whenM_run bind_exec)
  then obtain l1 where paid: "whenM (?refund \<noteq> 0) (bind (query (\<lambda>_ _. from_address (ch_token d))) (\<lambda>_. bind (query (recipient_resolve (ch_payer d))) (\<lambda>rcp.
      channel_reserve_transfer (ch_token d) RESERVE rcp (ucast ?refund) RESERVE))) e c = Inr ((), c1, l1)" ..
  show ?thesis unfolding channel_withdraw_def Let_def
    by (rule succeeds_steps(1), rule succeeds_steps(2), rule load, rule succeeds_steps(3), rule refl, rule succeeds_steps(1),
        rule succeeds_steps(3), rule ready, rule succeeds_steps(4), rule refund, rule succeeds_steps(1), rule succeeds_steps(5), rule t12,
        rule succeeds_steps(6), rule succeeds_bind, rule paid, rule succeeds_bind, rule del, rule emit_reserve_succeeds)
qed

text \<open>A close by the payee, from T12 on.\<close>

lemma close_total:
  assumes t12: "is_t12 (spec e)" and can: "can_pay c (ch_token d) (locked st)" and tok: "is_tip20_prefix (ch_token d)"
    and st: "st = channel_states (reserve c) (channel_id d e)" "deposit st \<noteq> 0" "settled st \<le> capture" "capture \<le> deposit st" "capture \<le> cumulative"
    and voucher: "validate_voucher d (channel_id d e) cumulative signature e = Inr ()"
    and payee: "recipient_resolve (ch_payee d) e c = Inr p" "ensure_transfer_authorized (ch_token d) (ch_payer d) (target p) e c = Inr ()"
      "accepts e c (ch_token d) (receive_policy_sender st (ch_payer d)) p"
    and payer: "recipient_resolve (ch_payer d) e c = Inr q" "accepts e c (ch_token d) RESERVE q" and ok: "decodable c"
  shows "\<exists>c' l. channel_close (ch_payee d) d cumulative capture signature e c = Inr ((), c', l)"
proof -
  let ?cid = "channel_id d e" and ?delta = "capture - settled st" and ?refund = "deposit st - capture" and ?tok = "ch_token d"
  note t = t12_implies[OF t12]
  have used: "st \<noteq> empty_channel" using st(2) by auto
  have n: "unat ?delta \<le> locked st" "unat ?refund \<le> locked st - unat ?delta"
    using st(3,4) by (simp_all add: locked_def unat_sub word_le_nat_alt)
  obtain c1 l1 t1 where zero1: "?delta = 0 \<longrightarrow> c1 = c" and c1: "c1 = c\<lparr>tokens := (tokens c)(?tok := t1)\<rparr>"
    and pay1: "?delta \<noteq> 0 \<longrightarrow> channel_reserve_transfer ?tok RESERVE p (ucast ?delta) (receive_policy_sender st (ch_payer d)) e c = Inr ((), c1, l1)"
    and can1: "can_pay c1 ?tok (locked st - unat ?delta)"
    using optional_payment_total[OF t(1) can n(1) payee(3)] by (elim exE conjE) (rule that)
  have acc: "accepts e c1 ?tok RESERVE q" "recipient_resolve (ch_payer d) e c1 = Inr q"
    using payer by (simp_all add: accepts_def recipient_resolve_def c1)
  obtain c2 l2 t2 where zero2: "?refund = 0 \<longrightarrow> c2 = c1" and c2: "c2 = c1\<lparr>tokens := (tokens c1)(?tok := t2)\<rparr>"
    and pay2: "?refund \<noteq> 0 \<longrightarrow> channel_reserve_transfer ?tok RESERVE q (ucast ?refund) RESERVE e c1 = Inr ((), c2, l2)"
    and "can_pay c2 ?tok (locked st - unat ?delta - unat ?refund)"
    using optional_payment_total[OF t(1) can1 n(2) acc(1)] by (elim exE conjE) (rule that)
  have "decodable c2" "channel_states (reserve c2) ?cid \<noteq> empty_channel" using ok used unfolding c1 c2 by (simp_all flip: st(1))
  from delete_state_total[OF t(2) this] obtain c3 where del: "delete_channel_state_and_credit_payer ?cid (ch_payer d) e c2 = Inr ((), c3, [])" by blast
  have head: "load_existing_state ?cid c = Inr st" using st by (simp add: load_Inr)
  have pre: "\<not> (capture < settled st \<or> capture > cumulative)" "\<not> capture > deposit st" using st by auto
  have one: "\<exists>l. whenM (?delta \<noteq> 0)
       (bind (query (recipient_resolve (ch_payee d))) (\<lambda>rcp.
        bind (query (ensure_transfer_authorized ?tok (ch_payer d) (target rcp))) (\<lambda>_.
        channel_reserve_transfer ?tok RESERVE rcp (ucast ?delta) (receive_policy_sender st (ch_payer d))))) e c = Inr ((), c1, l)"
    using zero1 pay1 payee(1,2) by (cases "?delta = 0") (simp_all add: whenM_run bind_exec query_run)
  have two: "\<exists>l. whenM (?refund \<noteq> 0)
       (bind (query (recipient_resolve (ch_payer d))) (\<lambda>rcp.
        channel_reserve_transfer ?tok RESERVE rcp (ucast ?refund) RESERVE)) e c1 = Inr ((), c2, l)"
    using zero2 pay2 acc(2) by (cases "?refund = 0") (simp_all add: whenM_run bind_exec query_run)
  have v: "whenM (capture > settled st) (query (\<lambda>e _. validate_voucher d ?cid cumulative signature e)) e c = Inr ((), c, [])"
    using voucher by (simp add: whenM_run query_run)
  from one two obtain l3 l4 where runs: "whenM (?delta \<noteq> 0)
       (bind (query (recipient_resolve (ch_payee d))) (\<lambda>rcp.
        bind (query (ensure_transfer_authorized ?tok (ch_payer d) (target rcp))) (\<lambda>_.
        channel_reserve_transfer ?tok RESERVE rcp (ucast ?delta) (receive_policy_sender st (ch_payer d))))) e c = Inr ((), c1, l3)"
    "whenM (?refund \<noteq> 0)
       (bind (query (recipient_resolve (ch_payer d))) (\<lambda>rcp.
        channel_reserve_transfer ?tok RESERVE rcp (ucast ?refund) RESERVE)) e c1 = Inr ((), c2, l4)" by blast
  have caller: "ensure_payee_or_operator (ch_payee d) d = Inr ()" by (simp add: ensure_payee_or_operator_def)
  have token: "from_address ?tok = Inr ()" using tok by (simp add: from_address_def)
  show ?thesis unfolding channel_close_def Let_def
    by (rule succeeds_steps(1), rule succeeds_steps(2), rule head, rule succeeds_steps(2), rule caller, rule succeeds_steps(3), rule pre(1),
        rule succeeds_steps(3), rule pre(2), rule succeeds_bind, rule v, rule succeeds_steps(1), rule succeeds_steps(5), rule t12,
        rule succeeds_steps(6), rule succeeds_steps(2), rule token, rule succeeds_steps(6), rule succeeds_bind, rule runs(1),
        rule succeeds_steps(6), rule succeeds_bind, rule runs(2), rule succeeds_bind, rule del, rule emit_reserve_succeeds)
qed

end
