(* ===== verification/Channel_Examples.thy ===== *)
theory Channel_Examples
  imports Channel_Liveness
begin

text \<open>
  A concrete channel at T12: Bob locks 100 for Alice and then asks for the close.
\<close>

definition at_time :: "u256 \<Rightarrow> env" where
  "at_time t = (chain_env T12)\<lparr>timestamp := t\<rparr>"

lemma at_time_simps [simp]: "spec (at_time t) = T12" "keccak256 (at_time t) = demo_hash" "timestamp (at_time t) = t" "no_system_keys (at_time t)"
  by (simp_all add: at_time_def no_system_keys_def chain_env_def demo_env_def)

lemma t12_facts [simp]: "is_t12 T12" "is_t9 T12" "is_t8 T12" "is_t7 T12" "is_t6 T12" "is_t5 T12" "is_t3 T12" "is_t2 T12" "T5 \<le> T12" "T7 \<le> T12"
  by (simp_all add: fork_eval)

definition bob_channel :: channel_descriptor where
  "bob_channel = \<lparr>ch_payer = BOB, ch_payee = ALICE, ch_operator = 0, ch_token = PATH_USD_ADDRESS, ch_salt = 0, ch_signer = 0, ch_nonce_hash = 7\<rparr>"

definition bob_open :: open_call where
  "bob_open = \<lparr>oc_payee = ALICE, oc_operator = 0, oc_token = PATH_USD_ADDRESS, oc_deposit = 100, oc_salt = 0, oc_authorized_signer = 0\<rparr>"

lemma length_channel_encode: "length (channel_encode d n) = 288"
  by (simp add: channel_encode_def)

lemma demo_channel_hash: "demo_hash (channel_encode d n) = ucast (ch_token d)"
proof -
  have "take 32 (drop 96 (channel_encode d n)) = abi_address (ch_token d)" by (simp add: channel_encode_def)
  then show ?thesis by (simp add: demo_hash_def length_channel_encode be_nat_abi)
qed

lemma demo_separates_channels: "separates_channels demo_hash"
  by (simp add: separates_channels_def demo_channel_hash ucast_address_inject)

lemma bob_channel_id: "channel_id bob_channel (at_time t) = ucast PATH_USD_ADDRESS"
  by (simp add: channel_id_encode demo_channel_hash bob_channel_def)

definition reserve_token :: tip20_token where
  "reserve_token = demo_minted_token\<lparr>balances := (\<lambda>_. 0)(ALICE := 1000, BOB := 400, RESERVE := 100)\<rparr>"

definition channel_chain :: "u32 \<Rightarrow> chain" where
  "channel_chain requested = (demo_chain reserve_token)
     \<lparr>reserve := \<lparr>channel_states = (\<lambda>_. empty_channel)(ucast PATH_USD_ADDRESS :=
          \<lparr>settled = 0, deposit = 100, close_requested_at = requested, uses_logical_receive_policy_sender = True\<rparr>),
        channel_storage_credits = (\<lambda>_. 0), opened_this_tx = (\<lambda>_. False)(ucast PATH_USD_ADDRESS := True), channel_open_context_hash = 7\<rparr>,
      credits := \<lparr>credit_balances = (\<lambda>_. 0), credit_words = (\<lambda>_. 0)(RESERVE :=
          word_of_transient \<lparr>cr_mode = PreserveMode, budget = 0, pending_refunds = 0\<rparr>)\<rparr>\<rparr>"

definition seeded_chain :: chain where
  "seeded_chain = (demo_chain demo_minted_token)\<lparr>reserve := reserve_init\<lparr>channel_open_context_hash := 7\<rparr>\<rparr>"

lemma seed_step: "set_channel_open_context_hash 7 (at_time 1000) (clear_transient (demo_chain demo_minted_token)) = Inr ((), seeded_chain, [])"
  by (simp add: set_channel_open_context_hash_def exec_simps clear_transient_def seeded_chain_def demo_chain_def genesis_chain_def reserve_init_def
      demo_keychain_def fees_init_def credits_init_def)

lemma bob_funds:
  "\<exists>l. transfer_core PATH_USD_ADDRESS BOB (direct RESERVE) 100 (at_time t) demo_minted_token = Inr ((), reserve_token, l)"
  by (simp add: ledger_exec demo_minted_token_def demo_issuer_token_def demo_token_def token_init_def TIP20_CHANNEL_RESERVE_ADDRESS_def
      reserve_token_def handle_rewards_on_transfer_t8)

definition preserved :: storage_credits where
  "preserved = \<lparr>credit_balances = (\<lambda>_. 0), credit_words = (\<lambda>_. 0)(RESERVE :=
     word_of_transient \<lparr>cr_mode = PreserveMode, budget = 0, pending_refunds = 0\<rparr>)\<rparr>"

lemma preserve_step:
  "preserve_storage_credits RESERVE (at_time t) credits_init = Inr ((), preserved, [])"
  "preserve_storage_credits RESERVE (at_time t) preserved = Inr ((), preserved, [])"
proof -
  have "transient_of_word 0 = Inr \<lparr>cr_mode = RefundMode, budget = 0, pending_refunds = 0\<rparr>"
    by (simp add: transient_of_word_def limb_def credit_mode_of_u8_def)
  then show "preserve_storage_credits RESERVE (at_time t) credits_init = Inr ((), preserved, [])"
    "preserve_storage_credits RESERVE (at_time t) preserved = Inr ((), preserved, [])"
    by (simp_all add: preserve_storage_credits_def set_mode_def write_mode_with_budget_def exec_simps query_run credit_state_of_def credits_init_def
        write_credit_state_of_def preserved_def)
qed

lemma preserving_write: "tracked_write RESERVE b b' e preserved = Inr ((), preserved, [])" if "b \<or> \<not> b'"
  using that by (auto simp: tracked_write_def sstore_storage_credits_def exec_simps query_run credit_state_of_def preserved_def split: if_splits)

lemma reserve_facts [simp]: "recipient_resolve ALICE e c = Inr (direct ALICE)" "recipient_resolve BOB e c = Inr (direct BOB)"
  "recipient_validate (direct ALICE) = Inr ()" "recipient_validate (direct BOB) = Inr ()" "recipient_validate (direct RESERVE) = Inr ()"
  "build_virtual_transfer_event (direct a) v = None" "original_address (direct a) = a" "target (direct a) = a"
  by (simp_all add: recipient_resolve_def resolve_recipient_def recipient_validate_def direct_def build_virtual_transfer_event_def
      original_address_def is_tip20_prefix_def TIP20_TOKEN_PREFIX_def TIP20_CHANNEL_RESERVE_ADDRESS_def)

lemma demo_authorized [simp]:
  "tokens c PATH_USD_ADDRESS = t \<Longrightarrow> open_token t \<Longrightarrow> tip403 c = tip403_init \<Longrightarrow> ensure_transfer_authorized PATH_USD_ADDRESS a b (at_time n) c = Inr ()"
  "tip403 c = tip403_init \<Longrightarrow> ensure_receive_policy_authorized tok a b e c = Inr ()"
  by (simp_all add: ensure_transfer_authorized_def is_transfer_authorized_def transfer_policy_id_def open_token_def registered_token_transfer_policy_id_def
      tip403_init_def ensure_receive_policy_authorized_def validate_receive_policy_def check_receive_policy_def Let_def)

text \<open>The chain with a given reserve and given storage credits.\<close>

abbreviation with_reserve :: "tip20_token \<Rightarrow> tip20_channel_reserve \<Rightarrow> storage_credits \<Rightarrow> chain" where
  "with_reserve t r s \<equiv> (demo_chain t)\<lparr>reserve := r, credits := s\<rparr>"

lemma with_reserve_put [simp]: "token_put PATH_USD_ADDRESS t' (with_reserve t r s) = with_reserve t' r s"
  by (simp add: token_put_def demo_chain_def genesis_chain_def)

lemma bob_pays_in:
  "\<exists>l. channel_reserve_transfer PATH_USD_ADDRESS BOB (direct RESERVE) 100 BOB (at_time t) (with_reserve demo_minted_token r s) =
     Inr ((), with_reserve reserve_token r s, l)"
proof -
  let ?c = "with_reserve demo_minted_token r s"
  have lim: "check_and_update_spending_limit PATH_USD_ADDRESS BOB 100 (at_time t) ?c = Inr ((), ?c, [])"
    by (rule charge_main_key) (simp add: demo_keychain_def)
  obtain l where core: "transfer_core PATH_USD_ADDRESS BOB (direct RESERVE) 100 (at_time t) demo_minted_token = Inr ((), reserve_token, l)"
    using bob_funds by blast
  have np: "\<not> paused demo_minted_token" using demo_open(2) by (simp add: open_token_def)
  have g: "RESERVE \<noteq> RECEIVE_POLICY_GUARD_ADDRESS" by (simp add: address_defs)
  show ?thesis
    by (simp add: channel_reserve_transfer_def exec_simps query_run np check_not_paused_def bind_andthen[of "check_and_update_spending_limit a b d" for a b d]
        lim g core emit_hop_def)
qed

lemma bob_opens:
  "\<exists>l. chain_exec 0 BOB (ReserveCall (OpenCall bob_open)) (at_time 1000) seeded_chain = Inr ((), channel_chain 0, l)"
proof -
  let ?r = "reserve_init\<lparr>channel_open_context_hash := 7\<rparr>" and ?e = "at_time 1000"
  let ?st = "\<lparr>settled = 0, deposit = 100, close_requested_at = 0, uses_logical_receive_policy_sender = True\<rparr>"
  have c: "seeded_chain = with_reserve demo_minted_token ?r credits_init"
    by (simp add: seeded_chain_def demo_chain_def genesis_chain_def)
  obtain l where pay: "channel_reserve_transfer PATH_USD_ADDRESS BOB (direct RESERVE) 100 BOB ?e (with_reserve demo_minted_token ?r preserved) =
     Inr ((), with_reserve reserve_token ?r preserved, l)" using bob_pays_in by blast
  have cid: "compute_channel_id_inner ?e BOB ALICE 0 PATH_USD_ADDRESS 0 0 7 = ucast PATH_USD_ADDRESS"
    using bob_channel_id[of 1000] by (simp add: channel_id_def bob_channel_def)
  have ne: "?st \<noteq> empty_channel" by (simp add: empty_channel_def)
  have w: "write_channel_state_spending_credit BOB (ucast PATH_USD_ADDRESS) ?st ?e (with_reserve reserve_token ?r preserved) =
      Inr ((), with_reserve reserve_token (?r\<lparr>channel_states := (\<lambda>_. empty_channel)(ucast PATH_USD_ADDRESS := ?st)\<rparr>) preserved, [])"
    by (simp add: write_channel_state_spending_credit_def write_channel_state_def exec_simps ne preserving_write reserve_init_def)
  have op: "channel_open BOB bob_open ?e (with_reserve demo_minted_token ?r preserved) = Inr (ucast PATH_USD_ADDRESS, channel_chain 0,
      l @ [(RESERVE, ChannelReserveEvent (ChannelOpened (ucast PATH_USD_ADDRESS) BOB ALICE 0 PATH_USD_ADDRESS 0 0 7 100))])"
    by (simp add: channel_open_def bob_open_def exec_simps query_run from_address_def
        enclosing_channel_open_context_hash_def Let_def cid channel_exists_def
        bind_andthen[of "channel_reserve_transfer a b d f g" for a b d f g] pay
        bind_andthen[of "write_channel_state_spending_credit a b d" for a b d] w emit_reserve_def,
        simp add: reserve_init_def channel_chain_def preserved_def)
  show ?thesis
    unfolding c
    by (simp add: since_def reserve_exec_def discard_def exec_simps preserve_step bind_andthen[of "channel_open a b" for a b] op query_run)
qed

lemma bob_requests_close:
  "\<exists>l. chain_exec 0 BOB (ReserveCall (RequestCloseCall bob_channel)) (at_time 1000) (channel_chain 0) = Inr ((), channel_chain 1000, l)"
proof -
  let ?st = "\<lambda>n. \<lparr>settled = 0, deposit = 100, close_requested_at = n, uses_logical_receive_policy_sender = True\<rparr>"
  have ne: "?st n \<noteq> empty_channel" for n by (simp add: empty_channel_def)
  have now: "now_u32 (at_time 1000) = 1000" by (simp add: now_u32_def saturating_to_def)
  have load: "load_existing_state (ucast PATH_USD_ADDRESS) ((channel_chain n)\<lparr>credits := s\<rparr>) = Inr (?st n)" for n s
    by (simp add: load_existing_state_def channel_exists_def channel_chain_def)
  have w: "write_channel_state (ucast PATH_USD_ADDRESS) (?st 1000) (at_time 1000) ((channel_chain 0)\<lparr>credits := preserved\<rparr>) =
      Inr ((), channel_chain 1000, [])"
    by (simp add: write_channel_state_def exec_simps ne preserving_write, simp add: channel_chain_def preserved_def)
  have cr: "credits (channel_chain 0) = preserved" by (simp add: channel_chain_def preserved_def)
  show ?thesis
    by (simp add: since_def reserve_exec_def channel_request_close_def exec_simps cr preserve_step query_run bob_channel_id load
        ensure_run bob_channel_def[THEN arg_cong, of ch_payer] close_request_def now bind_andthen[of "write_channel_state a b" for a b] w emit_reserve_def)
qed

lemma channel_reachable: "reachable demo_hash T5 T12 (channel_chain 0)" "reachable demo_hash T5 T12 (channel_chain 1000)"
proof -
  have step: "reachable demo_hash T5 T12 c'" if "reachable demo_hash T5 T12 c" "chain_step (at_time 1000) c c'" for c c'
    using reachable_step[of demo_hash T5 "at_time 1000" c c'] that by simp
  have call: "reachable demo_hash T5 T12 c'" if "reachable demo_hash T5 T12 c" "\<exists>l. chain_exec 0 BOB call (at_time 1000) c = Inr ((), c', l)" for call c c'
    using step[OF that(1)] that(2) step_call[OF demo_external(3)] by blast
  have "reachable demo_hash T5 T12 (demo_chain demo_minted_token)" by (rule reachable_fork[OF demo_reachable(1)]) simp
  from step[OF this step_tx_start[OF seed_step]] have "reachable demo_hash T5 T12 seeded_chain" .
  from call[OF this bob_opens] show "reachable demo_hash T5 T12 (channel_chain 0)" .
  from call[OF this bob_requests_close] show "reachable demo_hash T5 T12 (channel_chain 1000)" .
qed

end
