(* ===== verification/Channel_Properties.thy ===== *)
theory Channel_Properties
  imports Channel_Examples
begin

text \<open>
  The guarantees of payment channels: the reserve can always pay, the payer's deposit leaves a
  channel only with the payer's consent or back to the payer, and the payer gets it back.
\<close>

section \<open>Consent\<close>

lemma validate_voucher_iff:
  "validate_voucher d cid cumulative signature e = Inr () \<longleftrightarrow>
     verifier_recover e (get_voucher_digest_inner e cid cumulative) signature = Inr (expected_signer d)"
  by (auto simp: validate_voucher_def rensure_eq_Inr split: sum.splits)

lemma reachable_reserve_open:
  assumes "reachable hash h0 h c"
  shows "reserve_open (tip403 c)"
proof -
  have "chain_invariant hash h0 (\<lambda>_. all_tokens (\<lambda>s _ _. \<not> has_receive_policy (config (seen_receive s RESERVE))))"
    by unfold_locales
      (auto simp: all_tokens_def genesis_chain_def tip403_init_def dest: guarded_chain_law.step_keeps[OF no_policy_law[OF reserve_not_external]])
  from chain_invariant.reachable_inv[OF this assms] path_usd(1) show ?thesis unfolding all_tokens_def by fastforce
qed

text \<open>A method changes one channel; the others stay.\<close>

lemma locked_other:
  "locked (channel_states r' cid) < locked (channel_states r cid) \<Longrightarrow> channel_states r' = (channel_states r)(k := st) \<Longrightarrow> cid = k"
  by (auto split: if_splits)

lemma locked_decreases:
  assumes run: "reserve_method m call e c = Inr (u, c', l)" and rp: "reserve_open (tip403 c)"
    and less: "locked (channel_states (reserve c') cid) < locked (channel_states (reserve c) cid)"
  obtains (settle) d cumulative signature where "call = SettleCall d cumulative signature" "cid = channel_id d e"
      "channel_settle m d cumulative signature e c = Inr (u, c', l)"
    | (close) d cumulative capture signature where "call = CloseCall d cumulative capture signature" "cid = channel_id d e"
      "channel_close m d cumulative capture signature e c = Inr (u, c', l)"
    | (withdraw) d where "call = WithdrawCall d" "cid = channel_id d e" "channel_withdraw m d e c = Inr (u, c', l)"
proof (cases call)
  case (OpenCall oc)
  with run obtain x where "channel_open m oc e c = Inr (x, c', l)" by (auto simp: discard_eq_Inr)
  then show ?thesis
  proof (rule open_Inr[OF _ rp])
    assume "deposit (channel_states (reserve c) x) = 0" "channel_states (reserve c') = (channel_states (reserve c))(x :=
       \<lparr>settled = 0, deposit = oc_deposit oc, close_requested_at = 0, uses_logical_receive_policy_sender = is_t12 (spec e)\<rparr>)"
    with less show ?thesis by (auto simp: locked_def split: if_splits)
  qed
next
  case (SettleCall d n s)
  with run have r: "channel_settle m d n s e c = Inr (u, c', l)" by simp
  then show ?thesis by (rule settle_Inr) (rule settle[OF SettleCall locked_other[OF less] r])
next
  case (TopUpCall d n)
  with run have "channel_top_up m d n e c = Inr (u, c', l)" by simp
  then show ?thesis
  proof (rule top_up_Inr[OF _ rp])
    fix st assume "channel_states (reserve c) (channel_id d e) = st" "unat (deposit st) + unat n < 2 ^ 96"
      "channel_states (reserve c') = (channel_states (reserve c))(channel_id d e := st\<lparr>deposit := deposit st + n, close_requested_at := 0\<rparr>)"
    with less show ?thesis by (auto simp: locked_def unat_word_ariths split: if_splits)
  qed
next
  case (CloseCall d n k s)
  with run have r: "channel_close m d n k s e c = Inr (u, c', l)" by simp
  then show ?thesis by (rule close_Inr) (rule close[OF CloseCall locked_other[OF less] r])
next
  case (RequestCloseCall d)
  with run have "channel_request_close m d e c = Inr (u, c', l)" by simp
  then show ?thesis
  proof (rule request_close_Inr)
    fix st assume "channel_states (reserve c) (channel_id d e) = st"
      "channel_states (reserve c') = (channel_states (reserve c))(channel_id d e :=
         st\<lparr>close_requested_at := if close_requested_at st = 0 then now_u32 e else close_requested_at st\<rparr>)"
    with less show ?thesis by (auto simp: locked_def split: if_splits)
  qed
next
  case (WithdrawCall d)
  with run have r: "channel_withdraw m d e c = Inr (u, c', l)" by simp
  then show ?thesis by (rule withdraw_Inr) (rule withdraw[OF WithdrawCall locked_other[OF less] r])
qed

section \<open>Payments from T12 on\<close>

lemma pays_out_exact:
  assumes "pays_out e tok to v c T T'" "is_t12 (spec e)" "recipient_resolve to e c = Inr rcp" "target rcp \<noteq> RESERVE"
  shows "unat (balances (T' tok) (target rcp)) = unat (balances (T tok) (target rcp)) + unat v"
    "unat (balances (T' tok) RESERVE) + unat v = unat (balances (T tok) RESERVE)"
    "a \<noteq> target rcp \<Longrightarrow> a \<noteq> RESERVE \<Longrightarrow> balances (T' tok) a = balances (T tok) a"
    "tok' \<noteq> tok \<Longrightarrow> T' tok' = T tok'"
proof -
  have "v = 0 \<and> T' = T \<or> paid tok RESERVE (target rcp) v T T'" using assms(1-3) by (auto simp: pays_out_def split: if_splits)
  then show "unat (balances (T' tok) (target rcp)) = unat (balances (T tok) (target rcp)) + unat v"
    "unat (balances (T' tok) RESERVE) + unat v = unat (balances (T tok) RESERVE)"
    "a \<noteq> target rcp \<Longrightarrow> a \<noteq> RESERVE \<Longrightarrow> balances (T' tok) a = balances (T tok) a"
    "tok' \<noteq> tok \<Longrightarrow> T' tok' = T tok'"
    using paid_balances[of tok RESERVE "target rcp" v T T'] assms(4) by (auto simp: paid_def)
qed

lemma closed_channel_gone:
  assumes "channel_states (reserve c) (channel_id d e) = empty_channel"
  shows "channel_withdraw m d e c = Inl (ChannelReserveErr ChannelNotFound)"
    "channel_settle m d n s e c = Inl (ChannelReserveErr ChannelNotFound)"
    "channel_close m d n k s e c = Inl (ChannelReserveErr ChannelNotFound)"
  using assms
  by (simp_all add: channel_withdraw_def channel_settle_def channel_close_def exec_simps query_run load_existing_state_def channel_exists_def Let_def)

section \<open>The example\<close>

lemma channel_facts:
  "channel_states (reserve (channel_chain n)) (ucast PATH_USD_ADDRESS) =
     \<lparr>settled = 0, deposit = 100, close_requested_at = n, uses_logical_receive_policy_sender = True\<rparr>"
  "tokens (channel_chain n) PATH_USD_ADDRESS = reserve_token" "tip403 (channel_chain n) = tip403_init" "keychain (channel_chain n) = demo_keychain"
  "decodable (channel_chain n)" "ch_token bob_channel = PATH_USD_ADDRESS" "ch_payer bob_channel = BOB" "ch_payee bob_channel = ALICE"
  "open_token reserve_token" "\<not> paused reserve_token" "credits (channel_chain n) = preserved"
  using demo_open(2)
  by (simp_all add: channel_chain_def bob_channel_def reserve_token_def open_token_def preserved_def)

lemma example_accepts:
  "accepts e (channel_chain n) tok s (direct ALICE)" "accepts e (channel_chain n) tok s (direct BOB)"
  by (simp_all add: accepts_def channel_facts check_receive_policy_def tip403_init_def RECEIVE_POLICY_GUARD_ADDRESS_def)

lemma bob_withdraws: "\<exists>c' l. channel_withdraw BOB bob_channel (at_time 3000) (channel_chain 1000) = Inr ((), c', l)"
proof -
  have "can_pay (channel_chain 1000) (ch_token bob_channel) (locked (channel_states (reserve (channel_chain 1000)) (channel_id bob_channel (at_time 3000))))"
    using reachable_can_pay[of "at_time 3000" T5 T12 "channel_chain 1000" bob_channel] channel_reachable(2) demo_separates_channels
    by (simp add: channel_facts(1-10) demo_keychain_def)
  moreover have "ucast (1000 :: u32) + CLOSE_GRACE_PERIOD \<le> now64 (at_time 3000)"
    by (simp add: now64_def saturating_to_def CLOSE_GRACE_PERIOD_def)
  ultimately show ?thesis
    using withdraw_total[of "at_time 3000" "channel_chain 1000" bob_channel _ "direct BOB", OF _ _ _ refl]
      example_accepts(2)[of "at_time 3000" 1000 PATH_USD_ADDRESS RESERVE]
    by (simp add: channel_facts(1-10) bob_channel_id)
qed

section \<open>Properties\<close>

text \<open>Claim C26: the channel reserve is solvent. In every reachable state no channel has paid out more than
  its deposit, and what all channels of a token still lock adds up to at most what the reserve
  holds of that token, provided that no two channels of different tokens have the same id.\<close>

theorem channel_reserve_solvent:
  assumes "reachable hash h0 h c" and "is_tip20_prefix token"
    and "\<And>d d' n n'. hash (channel_encode d n) = hash (channel_encode d' n') \<Longrightarrow> ch_token d = ch_token d'"
  shows "(\<Sum>cid \<in> UNIV. if \<exists>d n. hash (channel_encode d n) = cid \<and> ch_token d = token
        then unat (deposit (channel_states (reserve c) cid)) - unat (settled (channel_states (reserve c) cid)) else 0)
      \<le> unat (balances (tokens c token) TIP20_CHANNEL_RESERVE_ADDRESS) \<and>
    (\<forall>cid. settled (channel_states (reserve c) cid) \<le> deposit (channel_states (reserve c) cid))"
proof -
  have "separates_channels hash" unfolding separates_channels_def using assms(3) by blast
  note b = reachable_backed[OF assms(1) this]
  show ?thesis
    using b(2) b(3)[OF assms(2)] unfolding owed_def channel_of_def locked_def channels_ok_def by blast
qed

theorem channel_reserve_solvent_witness:
  "deposit (channel_states (reserve (channel_chain 1000)) (ucast PATH_USD_ADDRESS)) = 100 \<and>
   (\<Sum>cid \<in> UNIV. if \<exists>d n. demo_hash (channel_encode d n) = cid \<and> ch_token d = PATH_USD_ADDRESS
        then unat (deposit (channel_states (reserve (channel_chain 1000)) cid)) - unat (settled (channel_states (reserve (channel_chain 1000)) cid)) else 0)
      \<le> 100"
proof -
  have sep: "ch_token d = ch_token d'" if "demo_hash (channel_encode d n) = demo_hash (channel_encode d' n')" for d d' n n'
    using that by (simp add: demo_channel_hash ucast_address_inject)
  have bal: "unat (balances (tokens (channel_chain 1000) PATH_USD_ADDRESS) TIP20_CHANNEL_RESERVE_ADDRESS) = 100"
    and dep: "deposit (channel_states (reserve (channel_chain 1000)) (ucast PATH_USD_ADDRESS)) = 100"
    by (simp_all add: channel_chain_def reserve_token_def)
  show ?thesis
    by (rule conjI[OF dep], rule order_trans[OF conjunct1[OF channel_reserve_solvent[OF channel_reachable(2) path_usd(1) sep]]]) (simp_all only: bal)
qed

text \<open>Claim C27: locked funds leave a channel only with consent. In a reachable state, a call to the reserve
  that lowers what a channel locks is a settlement or close by the payee or the operator, of an
  amount not above the deposit, for which the channel's signer signed a voucher of at least that
  amount if it exceeds what was settled before; or a withdrawal by the payer after the grace
  period of a close request.\<close>

theorem release_needs_consent:
  assumes "reachable hash h0 h c" and run: "reserve_exec m call e c = Inr (u, c', l)"
    and less: "unat (deposit (channel_states (reserve c') cid)) - unat (settled (channel_states (reserve c') cid)) <
      unat (deposit (channel_states (reserve c) cid)) - unat (settled (channel_states (reserve c) cid))"
  shows "\<exists>d. cid = channel_id d e \<and>
    ((\<exists>cumulative paid_total signature.
        (call = SettleCall d cumulative signature \<and> paid_total = cumulative \<or> call = CloseCall d cumulative paid_total signature) \<and>
        (m = ch_payee d \<or> ch_operator d \<noteq> 0 \<and> m = ch_operator d) \<and>
        settled (channel_states (reserve c) cid) \<le> paid_total \<and> paid_total \<le> deposit (channel_states (reserve c) cid) \<and> paid_total \<le> cumulative \<and>
        (paid_total = settled (channel_states (reserve c) cid) \<or>
         verifier_recover e (get_voucher_digest_inner e cid cumulative) signature = Inr (if ch_signer d = 0 then ch_payer d else ch_signer d)))
     \<or> call = WithdrawCall d \<and> m = ch_payer d \<and> close_requested_at (channel_states (reserve c) cid) \<noteq> 0 \<and>
       ucast (close_requested_at (channel_states (reserve c) cid)) + CLOSE_GRACE_PERIOD \<le> now64 e)"
proof -
  obtain s l1 where run_method: "reserve_method m call e (c\<lparr>credits := s\<rparr>) = Inr (u, c', l1)"
    using run by (auto simp: reserve_exec_def bind_eq_Inr on_component_eq_Inr)
  let ?S = "channel_states (reserve c)"
  have rp: "reserve_open (tip403 (c\<lparr>credits := s\<rparr>))" using reachable_reserve_open[OF assms(1)] by simp
  have "locked (channel_states (reserve c') cid) < locked (channel_states (reserve (c\<lparr>credits := s\<rparr>)) cid)"
    using less by (simp add: locked_def)
  from run_method rp this show ?thesis
  proof (rule locked_decreases)
    fix d n sg assume c: "call = SettleCall d n sg" "cid = channel_id d e" and "channel_settle m d n sg e (c\<lparr>credits := s\<rparr>) = Inr (u, c', l1)"
    from this(3) show ?thesis
    proof (rule settle_Inr)
      fix st assume "channel_states (reserve (c\<lparr>credits := s\<rparr>)) (channel_id d e) = st" "m = ch_payee d \<or> ch_operator d \<noteq> 0 \<and> m = ch_operator d"
        "settled st < n" "n \<le> deposit st" "validate_voucher d (channel_id d e) n sg e = Inr ()"
      with c show ?thesis
        by - (rule exI[of _ d], rule conjI[OF c(2)], rule disjI1, rule exI[of _ n], rule exI[of _ n], rule exI[of _ sg],
          simp add: validate_voucher_iff expected_signer_def)
    qed
  next
    fix d n k sg assume c: "call = CloseCall d n k sg" "cid = channel_id d e" and "channel_close m d n k sg e (c\<lparr>credits := s\<rparr>) = Inr (u, c', l1)"
    from this(3) show ?thesis
    proof (rule close_Inr)
      fix st assume st: "channel_states (reserve (c\<lparr>credits := s\<rparr>)) (channel_id d e) = st" "m = ch_payee d \<or> ch_operator d \<noteq> 0 \<and> m = ch_operator d"
        "settled st \<le> k" "k \<le> n" "k \<le> deposit st" and v: "settled st < k \<Longrightarrow> validate_voucher d (channel_id d e) n sg e = Inr ()"
      have "k = settled st \<or> verifier_recover e (get_voucher_digest_inner e (channel_id d e) n) sg = Inr (if ch_signer d = 0 then ch_payer d else ch_signer d)"
        using v st(3) by (cases "k = settled st") (simp_all add: validate_voucher_iff expected_signer_def)
      with c st show ?thesis
        by - (rule exI[of _ d], rule conjI[OF c(2)], rule disjI1, rule exI[of _ n], rule exI[of _ k], rule exI[of _ sg], simp)
    qed
  next
    fix d assume c: "call = WithdrawCall d" "cid = channel_id d e" and "channel_withdraw m d e (c\<lparr>credits := s\<rparr>) = Inr (u, c', l1)"
    from this(3) show ?thesis
    proof (rule withdraw_Inr)
      fix st assume "channel_states (reserve (c\<lparr>credits := s\<rparr>)) (channel_id d e) = st" "m = ch_payer d" "close_requested_at st \<noteq> 0"
        "ucast (close_requested_at st) + CLOSE_GRACE_PERIOD \<le> now64 e"
      with c show ?thesis by - (rule exI[of _ d], rule conjI[OF c(2)], rule disjI2, simp)
    qed
  qed
qed

theorem release_needs_consent_witness:
  "\<exists>u c' l. reserve_exec BOB (WithdrawCall bob_channel) (at_time 3000) (channel_chain 1000) = Inr (u, c', l) \<and>
     (\<exists>d. ucast PATH_USD_ADDRESS = channel_id d (at_time 3000) \<and> WithdrawCall bob_channel = WithdrawCall d \<and> BOB = ch_payer d \<and>
       ucast (1000 :: u32) + CLOSE_GRACE_PERIOD \<le> now64 (at_time 3000))"
proof -
  obtain c' l where run: "channel_withdraw BOB bob_channel (at_time 3000) (channel_chain 1000) = Inr ((), c', l)"
    using bob_withdraws by blast
  have same: "(channel_chain 1000)\<lparr>credits := preserved\<rparr> = channel_chain 1000" by (simp add: channel_chain_def preserved_def)
  have exec: "reserve_exec BOB (WithdrawCall bob_channel) (at_time 3000) (channel_chain 1000) = Inr ((), c', l)"
    by (simp add: reserve_exec_def exec_simps channel_facts(11) preserve_step same run)
  have "channel_states (reserve c') (ucast PATH_USD_ADDRESS) = empty_channel"
    using run by (rule withdraw_Inr) (simp add: bob_channel_id)
  then show ?thesis
    using release_needs_consent[OF channel_reachable(2) exec, of "ucast PATH_USD_ADDRESS"] exec by (auto simp: channel_facts(1))
qed

text \<open>Claim C28: the payer gets the unspent deposit back. From T12 on, in a reachable state, when a channel's
  close was requested and the grace period is over, the payer's withdrawal succeeds: the payer is
  paid exactly the deposit less what was settled, and the channel is gone, so that neither a second
  withdrawal nor a late settlement pays again. The conditions: the channel is in a TIP-20 token that is
  not paused; the payer's address resolves to an account that may hold tokens, other than the guard
  and the reserve itself, whose receive policy accepts the token from the reserve; the transaction is
  not one that the reserve itself signed with an access key; and the hash function does not give
  channels of different tokens the same id.\<close>

theorem withdraw_returns_deposit:
  assumes reach: "reachable (keccak256 e) h0 (spec e) c" and sep: "separates_channels (keccak256 e)" and t12: "is_t12 (spec e)"
    and tok: "is_tip20_prefix (ch_token d)" "\<not> paused (tokens c (ch_token d))"
    and key: "transaction_key (keychain c) = 0 \<or> tx_origin (keychain c) \<noteq> TIP20_CHANNEL_RESERVE_ADDRESS"
    and st: "channel_states (reserve c) (channel_id d e) = st" "deposit st \<noteq> 0" "close_requested_at st \<noteq> 0"
    and time: "ucast (close_requested_at st) + CLOSE_GRACE_PERIOD \<le> now64 e"
    and rcp: "recipient_resolve (ch_payer d) e c = Inr rcp" "recipient_validate rcp = Inr ()"
      "target rcp \<notin> {RECEIVE_POLICY_GUARD_ADDRESS, TIP20_CHANNEL_RESERVE_ADDRESS}"
      "check_receive_policy (ch_token d) TIP20_CHANNEL_RESERVE_ADDRESS (target rcp) e (tip403 c) = Inr None"
  shows "\<exists>c' l. channel_withdraw (ch_payer d) d e c = Inr ((), c', l) \<and>
    unat (balances (tokens c' (ch_token d)) (target rcp)) = unat (balances (tokens c (ch_token d)) (target rcp)) + (unat (deposit st) - unat (settled st)) \<and>
    unat (balances (tokens c' (ch_token d)) TIP20_CHANNEL_RESERVE_ADDRESS) + (unat (deposit st) - unat (settled st)) =
      unat (balances (tokens c (ch_token d)) TIP20_CHANNEL_RESERVE_ADDRESS) \<and>
    channel_withdraw (ch_payer d) d e c' = Inl (ChannelReserveErr ChannelNotFound) \<and>
    (\<forall>m cumulative signature. channel_settle m d cumulative signature e c' = Inl (ChannelReserveErr ChannelNotFound))"
proof -
  have le: "settled st \<le> deposit st" using reachable_backed(2)[OF reach sep] st(1) by (auto simp: channels_ok_def)
  have can: "can_pay c (ch_token d) (locked st)" using reachable_can_pay[OF reach sep tok key] st(1) by simp
  have acc: "accepts e c (ch_token d) RESERVE rcp" using rcp by (simp add: accepts_def)
  obtain c' l where run: "channel_withdraw (ch_payer d) d e c = Inr ((), c', l)"
    using withdraw_total[OF t12 can tok(1) st(1)[symmetric] st(2) le st(3) time rcp(1) acc reachable_decodable[OF reach]] by blast
  from run show ?thesis
  proof (rule withdraw_Inr)
    fix st' assume "channel_states (reserve c) (channel_id d e) = st'"
      and p: "pays_out e (ch_token d) (ch_payer d) (ucast (deposit st' - settled st')) c (tokens c) (tokens c')"
      and S: "channel_states (reserve c') = (channel_states (reserve c))(channel_id d e := empty_channel)"
    then have "st' = st" using st(1) by simp
    with pays_out_exact[OF p t12 rcp(1)] rcp(3) run closed_channel_gone[of c' d e] S le show ?thesis by (auto simp: unat_difference)
  qed
qed

theorem withdraw_returns_deposit_witness:
  "\<exists>c' l. channel_withdraw BOB bob_channel (at_time 3000) (channel_chain 1000) = Inr ((), c', l) \<and>
    unat (balances (tokens c' PATH_USD_ADDRESS) BOB) = 500"
proof -
  have "now64 (at_time 3000) = 3000" by (simp add: now64_def saturating_to_def)
  then have time: "ucast (1000 :: u32) + CLOSE_GRACE_PERIOD \<le> now64 (at_time 3000)" by (simp add: CLOSE_GRACE_PERIOD_def)
  have acc: "recipient_validate (direct BOB) = Inr ()" "BOB \<notin> {RECEIVE_POLICY_GUARD_ADDRESS, RESERVE}"
    "check_receive_policy PATH_USD_ADDRESS RESERVE BOB (at_time 3000) tip403_init = Inr None"
    by (simp_all add: check_receive_policy_def tip403_init_def RECEIVE_POLICY_GUARD_ADDRESS_def TIP20_CHANNEL_RESERVE_ADDRESS_def)
  have bal: "unat (balances reserve_token BOB) = 400" by (simp add: reserve_token_def TIP20_CHANNEL_RESERVE_ADDRESS_def)
  show ?thesis
    using withdraw_returns_deposit[of "at_time 3000" T5 "channel_chain 1000" bob_channel _ "direct BOB", OF _ _ _ _ _ _ refl]
      channel_reachable(2) demo_separates_channels time acc bal
    by (simp add: channel_facts(1-10) bob_channel_id demo_keychain_def) blast
qed

text \<open>Claim C29: a payee with a signed voucher gets paid. From T12 on, in a reachable state, the payee of a
  channel who holds a voucher of the channel's signer closes the channel with any amount between
  what was settled and the smaller of voucher and deposit: the payee is paid that amount less what was
  settled, the payer gets the rest of the deposit back, no other account changes, and the channel
  is gone. The conditions: the channel is in a TIP-20 token that is not paused; payee and payer resolve,
  and the policies of the token, the payee and the payer admit the two payments; the accounts they
  resolve to and the reserve are three different accounts; the transaction is not one that the
  reserve itself signed with an access key; and the hash function does not give channels of different
  tokens the same id.\<close>

theorem close_splits_deposit:
  assumes reach: "reachable (keccak256 e) h0 (spec e) c" and sep: "separates_channels (keccak256 e)" and t12: "is_t12 (spec e)"
    and tok: "is_tip20_prefix (ch_token d)" "\<not> paused (tokens c (ch_token d))"
    and key: "transaction_key (keychain c) = 0 \<or> tx_origin (keychain c) \<noteq> TIP20_CHANNEL_RESERVE_ADDRESS"
    and st: "channel_states (reserve c) (channel_id d e) = st" "deposit st \<noteq> 0" "settled st \<le> capture" "capture \<le> deposit st" "capture \<le> cumulative"
    and voucher: "verifier_recover e (get_voucher_digest_inner e (channel_id d e) cumulative) signature = Inr (expected_signer d)"
    and payee: "recipient_resolve (ch_payee d) e c = Inr p" "ensure_transfer_authorized (ch_token d) (ch_payer d) (target p) e c = Inr ()"
      "accepts e c (ch_token d) (receive_policy_sender st (ch_payer d)) p"
    and payer: "recipient_resolve (ch_payer d) e c = Inr q" "accepts e c (ch_token d) TIP20_CHANNEL_RESERVE_ADDRESS q"
    and parties: "distinct [target p, target q, TIP20_CHANNEL_RESERVE_ADDRESS]"
  shows "\<exists>c' l. channel_close (ch_payee d) d cumulative capture signature e c = Inr ((), c', l) \<and>
    unat (balances (tokens c' (ch_token d)) (target p)) = unat (balances (tokens c (ch_token d)) (target p)) + (unat capture - unat (settled st)) \<and>
    unat (balances (tokens c' (ch_token d)) (target q)) = unat (balances (tokens c (ch_token d)) (target q)) + (unat (deposit st) - unat capture) \<and>
    (\<forall>a. a \<notin> {target p, target q, TIP20_CHANNEL_RESERVE_ADDRESS} \<longrightarrow>
       balances (tokens c' (ch_token d)) a = balances (tokens c (ch_token d)) a) \<and>
    channel_states (reserve c') = (channel_states (reserve c))(channel_id d e := empty_channel)"
proof -
  have v: "validate_voucher d (channel_id d e) cumulative signature e = Inr ()" using voucher by (simp add: validate_voucher_iff)
  have can: "can_pay c (ch_token d) (locked st)" using reachable_can_pay[OF reach sep tok key] st(1) by simp
  obtain c' l where run: "channel_close (ch_payee d) d cumulative capture signature e c = Inr ((), c', l)"
    using close_total[OF t12 can tok(1) st(1)[symmetric] st(2-5) v payee payer reachable_decodable[OF reach]] by blast
  from run show ?thesis
  proof (rule close_Inr)
    fix st' assume "channel_states (reserve c) (channel_id d e) = st'" and S: "channel_states (reserve c') = (channel_states (reserve c))(channel_id d e := empty_channel)"
      and "pays_both e (ch_token d) (ch_payee d) (ucast (capture - settled st')) (ch_payer d) (ucast (deposit st' - capture)) c (tokens c) (tokens c')"
    with st(1) obtain T where p1: "pays_out e (ch_token d) (ch_payee d) (ucast (capture - settled st)) c (tokens c) T"
      and p2: "pays_out e (ch_token d) (ch_payer d) (ucast (deposit st - capture)) c T (tokens c')" by (auto simp: pays_both_def)
    have ne: "target p \<noteq> RESERVE" "target q \<noteq> RESERVE" "target p \<noteq> target q" using parties by auto
    note one = pays_out_exact[OF p1 t12 payee(1) ne(1)] and two = pays_out_exact[OF p2 t12 payer(1) ne(2)]
    show ?thesis
      using run S one(1) two(1) one(3)[OF ne(3)[symmetric] ne(2)] two(3)[OF ne(3) ne(1)] one(3) two(3) unat_difference[OF st(3)] unat_difference[OF st(4)]
      by (intro exI[of _ c'] exI[of _ l]) simp
  qed
qed

definition voucher_env :: env where
  "voucher_env = (at_time 1500)\<lparr>ecrecover := \<lambda>_ _ _ _. Some BOB\<rparr>"

definition voucher_signature :: "u8 list" where
  "voucher_signature = as_bytes \<lparr>secp_r = 1, secp_s = 2, y_parity = True\<rparr>"

theorem close_splits_deposit_witness:
  "\<exists>c' l. channel_close ALICE bob_channel 40 30 voucher_signature voucher_env (channel_chain 0) = Inr ((), c', l) \<and>
    unat (balances (tokens c' PATH_USD_ADDRESS) ALICE) = 1030 \<and> unat (balances (tokens c' PATH_USD_ADDRESS) BOB) = 470"
proof -
  let ?e = voucher_env
  have e: "spec ?e = T12" "keccak256 ?e = demo_hash" by (simp_all add: voucher_env_def)
  have id: "channel_id bob_channel ?e = ucast PATH_USD_ADDRESS" by (simp add: channel_id_encode e demo_channel_hash channel_facts)
  have "primitive_from_bytes voucher_signature = Inr (Secp256k1Sig \<lparr>secp_r = 1, secp_s = 2, y_parity = True\<rparr>)"
    using primitive_roundtrip[of "Secp256k1Sig \<lparr>secp_r = 1, secp_s = 2, y_parity = True\<rparr>"] by (simp add: voucher_signature_def)
  then have v: "verifier_recover ?e digest voucher_signature = Inr (expected_signer bob_channel)" for digest
    by (simp add: verifier_recover_def secp256k1_recover_signer_def SECP256K1N_HALF_def voucher_env_def expected_signer_def bob_channel_def rok_or_def)
  have auth: "ensure_transfer_authorized PATH_USD_ADDRESS BOB ALICE ?e (channel_chain 0) = Inr ()"
    using channel_facts(9) by (simp add: ensure_transfer_authorized_def is_transfer_authorized_def transfer_policy_id_def open_token_def e
        registered_token_transfer_policy_id_def channel_facts tip403_init_def)
  have bal: "unat (balances reserve_token BOB) = 400" "unat (balances reserve_token ALICE) = 1000" "distinct [ALICE, BOB, RESERVE]"
    by (simp_all add: reserve_token_def TIP20_CHANNEL_RESERVE_ADDRESS_def)
  show ?thesis
    using close_splits_deposit[of ?e T5 "channel_chain 0" bob_channel _ 30 40 voucher_signature "direct ALICE" "direct BOB", OF _ _ _ _ _ _ refl]
      channel_reachable(1) demo_separates_channels v auth bal example_accepts(1)[of ?e 0 PATH_USD_ADDRESS]
      example_accepts(2)[of ?e 0 PATH_USD_ADDRESS]
    by (simp add: e id channel_facts(1-10) demo_keychain_def) blast
qed

end
