(* ===== verification/TIP20_Quotes.thy ===== *)
theory TIP20_Quotes
  imports Token_Fields Custody
begin

text \<open>
  The quote token graph. Completing a quote token update walks from the proposed quote token
  along the quote tokens until it meets pathUSD, the token itself or an account that is no token.
  The walk has no bound of its own: it ends because no reachable state has a cycle of quote
  tokens.
\<close>

section \<open>Chains of quote tokens\<close>

abbreviation quotes :: "chain \<Rightarrow> address \<Rightarrow> address" where
  "quotes c a \<equiv> quote_token (tokens c a)"

text \<open>Following \<open>q\<close> from an address comes to pathUSD or leaves the tokens.\<close>

inductive quote_ends :: "(address \<Rightarrow> address) \<Rightarrow> address \<Rightarrow> bool" for q where
  ends_path_usd: "quote_ends q PATH_USD_ADDRESS"
| ends_outside: "\<not> is_tip20_prefix a \<Longrightarrow> quote_ends q a"
| ends_next: "quote_ends q (q a) \<Longrightarrow> quote_ends q a"

lemma walk_returns: "quote_ends (quotes c) a \<Longrightarrow> \<exists>r. quote_walk c self a = Some r"
proof (induction rule: quote_ends.induct)
  case (ends_next a)
  then show ?case by (subst quote_walk.simps) (auto split: sum.splits)
qed (subst quote_walk.simps; simp add: from_address_def rensure_def)+

text \<open>An accepted walk avoids the token whose quote token is to change.\<close>

inductive reaches_path_usd :: "(address \<Rightarrow> address) \<Rightarrow> address \<Rightarrow> address \<Rightarrow> bool" for q self where
  reaches_here: "reaches_path_usd q self PATH_USD_ADDRESS"
| reaches_next: "a \<noteq> self \<Longrightarrow> is_tip20_prefix a \<Longrightarrow> reaches_path_usd q self (q a) \<Longrightarrow> reaches_path_usd q self a"

lemma walk_accepts: "quote_walk c self a = Some r \<Longrightarrow> r = Inr () \<Longrightarrow> reaches_path_usd (quotes c) self a"
  by (erule quote_walk.raw_induct[rotated, where P = "\<lambda>c self a r. r = Inr () \<longrightarrow> reaches_path_usd (quotes c) self a", rule_format])
    (auto simp: from_address_def rensure_def intro: reaches_path_usd.intros split: if_splits)

lemma reaches_ends:
  assumes "reaches_path_usd q self a" and "\<And>x. x \<noteq> self \<Longrightarrow> q' x = q x"
  shows "quote_ends q' a"
  using assms(1)
proof (induction rule: reaches_path_usd.induct)
  case (reaches_next a)
  then show ?case using assms(2)[of a] quote_ends.ends_next[of q' a] by simp
qed (rule ends_path_usd)

text \<open>Redirecting one token to a place from which the new chain ends keeps all chains ending.\<close>

lemma redirect_ends:
  assumes all: "\<And>x. quote_ends q x" and new: "quote_ends (q(a := b)) b"
  shows "quote_ends (q(a := b)) x"
  using all[of x]
proof (induction rule: quote_ends.induct)
  case (ends_next x)
  have "(q(a := b)) x = (if x = a then b else q x)" by simp
  then show ?case using new ends_next.IH quote_ends.ends_next[of "q(a := b)" x] by metis
qed (rule ends_path_usd, rule ends_outside)

lemma ends_cong:
  assumes "quote_ends q a" and "\<And>x. is_tip20_prefix x \<Longrightarrow> q' x = q x"
  shows "quote_ends q' a"
  using assms(1)
proof (induction rule: quote_ends.induct)
  case (ends_next a)
  then show ?case using assms(2)[of a] quote_ends.ends_next[of q' a] ends_outside[of a q'] by metis
qed (rule ends_path_usd, rule ends_outside)

section \<open>The invariant\<close>

text \<open>
  A token without code has no quote token, a quote token is another token with code, pathUSD or
  no token at all, and every chain ends.
\<close>

definition known_quote :: "(address \<Rightarrow> bool) \<Rightarrow> address \<Rightarrow> bool" where
  "known_quote d a \<longleftrightarrow> \<not> is_tip20_prefix a \<or> a = PATH_USD_ADDRESS \<or> d a"

definition quotes_ok :: "(address \<Rightarrow> bool) \<Rightarrow> (address \<Rightarrow> address) \<Rightarrow> bool" where
  "quotes_ok d q \<longleftrightarrow> (\<forall>a. is_tip20_prefix a \<longrightarrow> (\<not> d a \<longrightarrow> q a = 0) \<and> known_quote d (q a)) \<and> (\<forall>a. quote_ends q a)"

lemma zero_not_token: "\<not> is_tip20_prefix 0"
  by (simp add: is_tip20_prefix_def TIP20_TOKEN_PREFIX_def)

lemma quotes_ok_cong:
  "quotes_ok d q \<Longrightarrow> (\<And>x. is_tip20_prefix x \<Longrightarrow> q' x = q x) \<Longrightarrow> quotes_ok d q'"
  unfolding quotes_ok_def by (metis ends_cong)

text \<open>A new token is on no chain that starts from a token with code.\<close>

lemma known_ends:
  assumes "quote_ends q x" and q: "\<And>x. is_tip20_prefix x \<Longrightarrow> known_quote d (q x)" and a: "\<not> d a"
  shows "known_quote d x \<Longrightarrow> quote_ends (q(a := b)) x"
  using assms(1)
proof (induction rule: quote_ends.induct)
  case (ends_next x)
  consider "\<not> is_tip20_prefix x \<or> x = PATH_USD_ADDRESS" | "is_tip20_prefix x" "d x"
    using ends_next(3) by (auto simp: known_quote_def)
  then show ?case
  proof cases
    case 2
    then have "(q(a := b)) x = q x" using a by auto
    then show ?thesis using ends_next(2) q[OF 2(1)] quote_ends.ends_next[of "q(a := b)" x] by metis
  qed (auto intro: ends_path_usd ends_outside)
qed (rule ends_path_usd, rule ends_outside)

lemma quotes_ok_create:
  assumes ok: "quotes_ok d q" and a: "\<not> d a" and b: "known_quote d b"
  shows "quotes_ok (d(a := True)) (q(a := b))"
proof -
  have "quote_ends (q(a := b)) b" using ok a b by (intro known_ends[where d = d]) (auto simp: quotes_ok_def)
  then have "quote_ends (q(a := b)) x" for x using ok redirect_ends[of q a b x] by (simp add: quotes_ok_def)
  then show ?thesis using ok b by (auto simp: quotes_ok_def known_quote_def)
qed

lemma quotes_ok_update:
  assumes ok: "quotes_ok d q" and self: "d self" and b: "reaches_path_usd q self b"
  shows "quotes_ok d (q(self := b))"
proof -
  have "quote_ends (q(self := b)) x" for x
    using ok redirect_ends[of q self b x, OF _ reaches_ends[OF b]] by (simp add: quotes_ok_def)
  moreover have "known_quote d b"
    using b
  proof cases
    case reaches_next
    have "\<not> reaches_path_usd q self 0" using zero_not_token by (auto elim: reaches_path_usd.cases)
    then have "d b" using reaches_next ok by (auto simp: quotes_ok_def)
    then show ?thesis by (simp add: known_quote_def)
  qed (simp add: known_quote_def)
  ultimately show ?thesis using ok self by (auto simp: quotes_ok_def)
qed

section \<open>Steps\<close>

text \<open>Only completing an update and creating a token change quote tokens or give a token code.\<close>

lemma quote_frame_law:
  "calls_law e (\<lambda>d self t. d = d0 \<and> quote_token t = q0 self) (\<lambda>_ _. True)"
proof -
  have keeps: "preserves e (\<lambda>t. d = d0 \<and> quote_token t = x) m" if "quote_field.keeps_field e m"
    for d x and m :: "(tip20_token, 'x) op"
    using that unfolding quote_field.keeps_field_def valid_def by blast
  show ?thesis
  proof unfold_locales
    show "preserves e (\<lambda>t. d = d0 \<and> quote_token t = q0 self) (set_allowance owner spender v)" for d self owner spender v
      by (rule validI) (auto simp: set_allowance_def)
    show "preserves e (\<lambda>t. d = d0 \<and> quote_token t = q0 self) (permit self owner spender v deadline y r s)"
      for d self owner spender v deadline y r s
      by (rule validI) (auto simp: permit_def run_simps set_allowance_def emit20_def)
    show "valid e (\<lambda>t. d = d0 \<and> quote_token t = q0 self) (consume_allowance owner spender v)
        (\<lambda>_ t. (d = d0 \<and> quote_token t = q0 self) \<and> (True \<or> v = 0))" for d self owner spender v
      by (rule validI) (auto simp: consume_allowance_run)
    show "preserves e (\<lambda>t. d = d0 \<and> quote_token t = q0 self)
        (bind (transfer_core self from (direct ADDRESS_ZERO) v) (\<lambda>_. reduce_supply self v))" for d self "from" v
      by (intro preserves_bind keeps quote_field.keeps_field_ops)
    show "preserves e (\<lambda>t. d = d0 \<and> quote_token t = q0 self) (bind (gets total_supply) (\<lambda>n. mint_core self to n v))"
      for d self to v by (intro preserves_bind preserves_basic keeps quote_field.keeps_field_ops)
  qed (auto simp: same_ledger_def intro!: keeps quote_field.keeps_field_ops)
qed

lemma other_steps_keep_quotes:
  assumes "chain_step e c c'" and "\<not> sets_quote e c c'"
  shows "deployed c' = deployed c" and "is_tip20_prefix a \<Longrightarrow> quotes c' a = quotes c a"
proof -
  from calls_law.calls_keep[OF quote_frame_law[of e "deployed c" "quotes c"] assms(1)] assms(2)
  have "all_tokens (\<lambda>g self t. seen_deployed g = deployed c \<and> quote_token t = quotes c self) c'" by (auto simp: all_tokens_def)
  then have "is_tip20_prefix x \<Longrightarrow> deployed c' = deployed c \<and> quotes c' x = quotes c x" for x by (simp add: all_tokens_def)
  then show "deployed c' = deployed c" "is_tip20_prefix a \<Longrightarrow> quotes c' a = quotes c a" using path_usd(1) by blast+
qed

text \<open>What a token creation does to the code and the quote tokens.\<close>

abbreviation view_is :: "(address \<Rightarrow> bool) \<Rightarrow> (address \<Rightarrow> address) \<Rightarrow> chain \<Rightarrow> bool" where
  "view_is d q c \<equiv> deployed c = d \<and> quotes c = q"

lemma view_on_token:
  "(\<And>t x t' l. m e t = Inr (x, t', l) \<Longrightarrow> quote_token t' = quote_token t) \<Longrightarrow> preserves e (view_is d q) (on_token self m)"
  by (rule validI) (auto simp: run_simps)

lemma view_initialize:
  "valid e (view_is d q) (initialize self m nam symb cur b admin) (\<lambda>_. view_is (d(self := True)) (q(self := b)))"
proof -
  have 1: "valid e (view_is d q) (modify (\<lambda>c. c\<lparr>deployed := (deployed c)(self := True)\<rparr>)) (\<lambda>_. view_is (d(self := True)) q)"
    by (rule validI) auto
  have 2: "valid e (view_is d' q) (on_token self (modify (\<lambda>t. t\<lparr>tok_name := nam, tok_symbol := symb, currency := cur, quote_token := b,
             next_quote_token := b, supply_cap := U128_MAX\<rparr>))) (\<lambda>_. view_is d' (q(self := b)))" for d'
    by (rule validI) (auto simp: run_simps)
  have 3: "preserves e (view_is d' q') (on_tip403 r)" for d' q' and r :: "(tip403_registry, 'x) op"
    by (rule validI) (auto simp: run_simps)
  show ?thesis unfolding initialize_def
    by (rule valid_bind[OF 1], rule valid_bind[OF 2], intro preserves_bind preserves_basic preserves_if 3 view_on_token)
      (auto simp: run_simps initialize_roles_def grant_default_admin_def grant_role_internal_def set_role_def
        set_role_admin_internal_def emit_role_def)
qed

text \<open>A creation that succeeds is of a token without code, with a known quote token.\<close>

definition creation :: "chain \<Rightarrow> chain \<Rightarrow> bool" where
  "creation c c' \<longleftrightarrow> (\<exists>a b. \<not> deployed c a \<and> known_quote (deployed c) b \<and> view_is ((deployed c)(a := True)) ((quotes c)(a := b)) c')"

lemma initialize_creation:
  assumes "initialize a m nam symb cur b admin e c = Inr (u, c', l)" "\<not> deployed c a" "known_quote (deployed c) b"
  shows "creation c c'"
  using validD[OF view_initialize _ assms(1)] assms(2,3) unfolding creation_def by blast

lemma create_token_creation:
  assumes "create_token m nam symb cur b admin salt e c = Inr (a, c', l)"
  shows "creation c c'"
  using assms
  by (auto simp: create_token_def run_simps emit_created_def is_tip20_def from_address_def rensure_eq_Inr known_quote_def
      split: prod.splits if_splits intro!: initialize_creation)

lemma reserved_creation:
  assumes "create_token_reserved_address a nam symb cur b admin e c = Inr (x, c', l)"
  shows "creation c c'"
  using assms zero_not_token
  by (auto simp: create_token_reserved_address_def run_simps emit_created_def is_tip20_def Let_def from_address_def rensure_eq_Inr known_quote_def
      split: prod.splits if_splits intro!: initialize_creation)

lemma factory_creation:
  assumes "factory_exec m call e c = Inr ((), c', l)"
  shows "creation c c'"
proof (cases call)
  case (CreateTokenCall nam symb cur b admin salt)
  then show ?thesis using assms create_token_creation by (auto simp: discard_def run_simps)
next
  case (CreateTokenWithLogoCall nam symb cur b admin salt logo)
  then obtain a c1 l1 where c1: "create_token m nam symb cur b admin salt e c = Inr (a, c1, l1)"
    and "deployed c' = deployed c1" "quotes c' = quotes c1"
    using assms by (auto simp: discard_def since_def create_token_with_logo_def write_logo_uri_def emit20_def run_simps fun_eq_iff split: if_splits)
  then show ?thesis using create_token_creation[OF c1] by (simp add: creation_def)
qed

lemma completion_view:
  assumes "complete_quote_token_update self m e c = Inr (u, c', l)"
  shows "\<exists>b. reaches_path_usd (quotes c) self b \<and> view_is (deployed c) ((quotes c)(self := b)) c'"
  using assms walk_accepts[of c self "next_quote_token (tokens c self)"]
  by (intro exI[of _ "next_quote_token (tokens c self)"])
    (auto simp: complete_quote_token_update_def run_simps check_quote_chain_def check_role_def emit20_def split: option.splits)

lemma step_keeps_quotes:
  assumes step: "chain_step e c c'" and ok: "quotes_ok (deployed c) (quotes c)"
  shows "quotes_ok (deployed c') (quotes c')"
proof (cases "sets_quote e c c'")
  case True
  then consider (complete) self m l where "deployed c self" "complete_quote_token_update self m e c = Inr ((), c', l)"
    | (create) "creation c c'"
    unfolding sets_quote_def using factory_creation reserved_creation by blast
  then show ?thesis
  proof cases
    case complete
    then show ?thesis using completion_view quotes_ok_update[OF ok] by metis
  next
    case create
    then show ?thesis using quotes_ok_create[OF ok] unfolding creation_def by metis
  qed
next
  case False
  from other_steps_keep_quotes[OF step this] show ?thesis using quotes_ok_cong[OF ok] by simp
qed

interpretation quotes_inv: chain_invariant hash h0 "\<lambda>_ c. quotes_ok (deployed c) (quotes c)" for hash h0
proof unfold_locales
  have "quote_ends (\<lambda>_. 0) a" for a by (rule ends_next) (rule ends_outside, rule zero_not_token)
  then show "quotes_ok (deployed (genesis_chain k)) (quotes (genesis_chain k))" for k
    by (simp add: quotes_ok_def genesis_chain_def token_init_def known_quote_def zero_not_token)
qed (auto intro: step_keeps_quotes)

section \<open>Properties\<close>

text \<open>Claim C21: the walk along quote tokens ends. In every reachable state the unbounded loop that checks a
  new quote token for a cycle returns, from any address and for any token, so completing a
  quote token update never runs forever.\<close>

theorem quote_walk_terminates:
  assumes "reachable hash h0 h c"
  shows "(\<exists>r. quote_walk c self current = Some r) \<and> complete_quote_token_update self m e c \<noteq> Inl OutOfGas"
proof -
  have ends: "\<exists>r. quote_walk c self a = Some r" for a
    using quotes_inv.reachable_inv[OF assms] walk_returns by (auto simp: quotes_ok_def)
  have "quote_walk c self a \<noteq> Some (Inl OutOfGas)" for a
  proof
    assume "quote_walk c self a = Some (Inl OutOfGas)"
    then show False
      by (rule quote_walk.raw_induct[rotated, where P = "\<lambda>c self a r. r \<noteq> Inl OutOfGas", THEN notE])
        (auto simp: from_address_def rensure_def split: if_splits)
  qed
  then have "check_quote_chain self a c \<noteq> Inl OutOfGas" for a
    using ends[of a] by (auto simp: check_quote_chain_def)
  then show ?thesis using ends
    by (auto simp: complete_quote_token_update_def bind_def on_token_def zoom_def query_def check_role_def emit20_def token_put_def exec_simps
        split: sum.splits prod.splits if_splits)
qed

theorem quote_walk_terminates_witness:
  "(\<exists>r. quote_walk (demo_chain demo_minted_token) PATH_USD_ADDRESS ALICE = Some r) \<and>
   complete_quote_token_update PATH_USD_ADDRESS ISSUER (chain_env T5) (demo_chain demo_minted_token) \<noteq> Inl OutOfGas"
  by (rule quote_walk_terminates[OF demo_reachable(1)])

end
