(* ===== verification/Storage_Packing.thy ===== *)
theory Storage_Packing
  imports Tempo_Types
begin

text \<open>
  Packing of several values into one storage slot (\<open>precompiles/src/storage/packing.rs\<close>): a value
  of \<open>n\<close> bytes at a byte offset of a 32-byte word. The width is the width of the value's type;
  the locations that occur are static and stay inside the word.
\<close>

unbundle bit_operations_syntax

definition create_element_mask :: "nat \<Rightarrow> u256" where
  "create_element_mask byte_count = (if byte_count \<ge> 32 then - 1 else push_bit (byte_count * 8) 1 - 1)"

definition extract_from_word :: "nat \<Rightarrow> u256 \<Rightarrow> 'a::len word" where
  "extract_from_word offset slot_value =
     ucast (drop_bit (offset * 8) slot_value AND create_element_mask (LENGTH('a) div 8))"

definition insert_into_word :: "nat \<Rightarrow> 'a::len word \<Rightarrow> u256 \<Rightarrow> u256" where
  "insert_into_word offset v slot_value =
     (let mask = create_element_mask (LENGTH('a) div 8);
          cleared = slot_value AND NOT (push_bit (offset * 8) mask);
          positioned = push_bit (offset * 8) (ucast v AND mask) in
      cleared OR positioned)"

definition delete_from_word :: "nat \<Rightarrow> nat \<Rightarrow> u256 \<Rightarrow> u256" where
  "delete_from_word offset byte_count slot_value =
     slot_value AND NOT (push_bit (offset * 8) (create_element_mask byte_count))"

section \<open>Reading what was written\<close>

lemma bit_element_mask: "bit (create_element_mask n) i \<longleftrightarrow> i < 8 * n \<and> i < 256"
proof (cases "n \<ge> 32")
  case True
  then show ?thesis by (auto simp: create_element_mask_def)
next
  case False
  then have "create_element_mask n = mask (8 * n)"
    by (simp add: create_element_mask_def mask_eq_exp_minus_1 push_bit_eq_mult mult.commute)
  then show ?thesis by (auto simp: bit_simps)
qed

lemma bit_extract:
  assumes "8 dvd LENGTH('a)" "LENGTH('a) \<le> 256"
  shows "bit (extract_from_word off w :: 'a::len word) i \<longleftrightarrow> i < LENGTH('a) \<and> bit w (off * 8 + i)"
  using assms by (auto simp: extract_from_word_def bit_simps bit_element_mask)

lemma bit_insert:
  assumes "8 dvd LENGTH('a)" "off * 8 + LENGTH('a) \<le> 256"
  shows "bit (insert_into_word off (v :: 'a::len word) w) i \<longleftrightarrow>
     (if off * 8 \<le> i \<and> i < off * 8 + LENGTH('a) then bit v (i - off * 8) else bit w i)"
  using assms by (auto simp: insert_into_word_def Let_def bit_simps bit_element_mask dest: bit_imp_le_length)

lemma extract_insert_same:
  "8 dvd LENGTH('a) \<Longrightarrow> off * 8 + LENGTH('a) \<le> 256 \<Longrightarrow>
   (extract_from_word off (insert_into_word off v w) :: 'a::len word) = v"
  by (rule bit_word_eqI) (simp add: bit_extract bit_insert)

lemma extract_insert_other:
  "8 dvd LENGTH('a) \<Longrightarrow> off * 8 + LENGTH('a) \<le> 256 \<Longrightarrow> 8 dvd LENGTH('b) \<Longrightarrow> off' * 8 + LENGTH('b) \<le> 256 \<Longrightarrow>
   off * 8 + LENGTH('a) \<le> off' * 8 \<or> off' * 8 + LENGTH('b) \<le> off * 8 \<Longrightarrow>
   (extract_from_word off (insert_into_word off' (v :: 'b::len word) w) :: 'a::len word) = extract_from_word off w"
  by (rule bit_word_eqI) (auto simp: bit_extract bit_insert)

lemma extract_zero [simp]: "(extract_from_word off 0 :: 'a::len word) = 0"
  by (simp add: extract_from_word_def)

lemma delete_insert:
  "8 dvd LENGTH('a) \<Longrightarrow> off * 8 + LENGTH('a) \<le> 256 \<Longrightarrow>
   delete_from_word off (LENGTH('a) div 8) w = insert_into_word off (0 :: 'a::len word) w"
  by (rule bit_word_eqI) (auto simp: delete_from_word_def bit_insert bit_simps bit_element_mask)

text \<open>Writing a full word clears nothing else: packed words built from zero read back.\<close>

lemma insert_zero [simp]: "insert_into_word off (0 :: 'a::len word) 0 = 0"
  by (simp add: insert_into_word_def Let_def)

end
