(* ===== verification/Order_Book.thy ===== *)
theory Order_Book
  imports Storage_Packing Tempo_Hardfork
begin

text \<open>
  Prices, orders and order books of the exchange (\<open>stablecoin_dex/orderbook.rs\<close>,
  \<open>stablecoin_dex/order/mod.rs\<close>). A tick is a signed 16-bit integer, compared through \<open>sint\<close>; the
  price of a tick is \<open>PRICE_SCALE + tick\<close> in units of 1/100000. A book keeps, per side and tick, the
  ends of a queue of orders, and per side a bitmap of the ticks whose queue is not empty, in words
  of 256 ticks.
\<close>

section \<open>Prices\<close>

definition MIN_TICK :: i16 where "MIN_TICK = - 2000"
definition MAX_TICK :: i16 where "MAX_TICK = 2000"
definition PRICE_SCALE :: u32 where "PRICE_SCALE = 100000"
definition MIN_PRICE :: u32 where "MIN_PRICE = 98000"
definition MAX_PRICE :: u32 where "MAX_PRICE = 102000"
definition TICK_SPACING :: i16 where "TICK_SPACING = 10"
definition MIN_ORDER_AMOUNT :: u128 where "MIN_ORDER_AMOUNT = 100000000"

abbreviation I16_MIN :: i16 where "I16_MIN \<equiv> 0x8000"
abbreviation I16_MAX :: i16 where "I16_MAX \<equiv> 0x7FFF"

abbreviation tick_in_bounds :: "i16 \<Rightarrow> bool" where
  "tick_in_bounds t \<equiv> sint MIN_TICK \<le> sint t \<and> sint t \<le> sint MAX_TICK"

abbreviation tick_spaced :: "i16 \<Rightarrow> bool" where
  "tick_spaced t \<equiv> sint t mod sint TICK_SPACING = 0"

datatype rounding_direction = RoundDown | RoundUp

definition tick_to_price :: "i16 \<Rightarrow> u32" where
  "tick_to_price tick = PRICE_SCALE + scast tick"

definition price_to_tick :: "u32 \<Rightarrow> tempo_error + i16" where
  "price_to_tick price =
     (if \<not> (MIN_PRICE \<le> price \<and> price \<le> MAX_PRICE) then
        let invalid_tick = ucast (price - PRICE_SCALE) in Inl (StablecoinDEXErr (TickOutOfBounds invalid_tick))
      else Inr (ucast (price - PRICE_SCALE)))"

definition validate_tick_spacing :: "i16 \<Rightarrow> tempo_error + unit" where
  "validate_tick_spacing tick = rensure (tick_spaced tick) (StablecoinDEXErr InvalidTick)"

definition div_ceil :: "'a::len word \<Rightarrow> 'a word \<Rightarrow> 'a word" where
  "div_ceil a b = (if a mod b = 0 then a div b else a div b + 1)"

definition base_to_quote :: "u128 \<Rightarrow> i16 \<Rightarrow> rounding_direction \<Rightarrow> u128 option" where
  "base_to_quote base_amount tick rounding =
     (let price = ucast (tick_to_price tick) :: u256; base = ucast base_amount; scale = ucast PRICE_SCALE;
          numerator = base * price in
      try_into (case rounding of RoundDown \<Rightarrow> numerator div scale | RoundUp \<Rightarrow> div_ceil numerator scale))"

definition quote_to_base :: "u128 \<Rightarrow> i16 \<Rightarrow> rounding_direction \<Rightarrow> u128 option" where
  "quote_to_base quote_amount tick rounding =
     (let price = ucast (tick_to_price tick) :: u256; quote = ucast quote_amount; scale = ucast PRICE_SCALE;
          numerator = quote * scale in
      try_into (case rounding of RoundDown \<Rightarrow> numerator div price | RoundUp \<Rightarrow> div_ceil numerator price))"

definition taker_output :: "u128 \<Rightarrow> i16 \<Rightarrow> bool \<Rightarrow> u128 option" where
  "taker_output fill_amount tick is_bid =
     (if is_bid then base_to_quote fill_amount tick RoundDown else Some fill_amount)"

section \<open>Orders\<close>

record order =
  ord_id :: u128
  ord_maker :: address
  ord_book_key :: b256
  ord_is_bid :: bool
  ord_tick :: i16
  ord_amount :: u128
  ord_remaining :: u128
  ord_prev :: u128
  ord_next :: u128
  ord_is_flip :: bool
  ord_flip_tick :: i16

datatype order_error =
    InvalidBidFlipTick i16 i16
  | InvalidAskFlipTick i16 i16
  | FillAmountExceedsRemaining u128 u128
  | OrderInvalidTick i16 i16 i16

definition order_new :: "u128 \<Rightarrow> address \<Rightarrow> b256 \<Rightarrow> u128 \<Rightarrow> i16 \<Rightarrow> bool \<Rightarrow> bool \<Rightarrow> i16 \<Rightarrow> order" where
  "order_new i maker book_key amount tick is_bid is_flip flip_tick =
     \<lparr>ord_id = i, ord_maker = maker, ord_book_key = book_key, ord_is_bid = is_bid, ord_tick = tick,
      ord_amount = amount, ord_remaining = amount, ord_prev = 0, ord_next = 0,
      ord_is_flip = is_flip, ord_flip_tick = flip_tick\<rparr>"

definition new_bid :: "u128 \<Rightarrow> address \<Rightarrow> b256 \<Rightarrow> u128 \<Rightarrow> i16 \<Rightarrow> order" where
  "new_bid i maker book_key amount tick = order_new i maker book_key amount tick True False 0"

definition new_ask :: "u128 \<Rightarrow> address \<Rightarrow> b256 \<Rightarrow> u128 \<Rightarrow> i16 \<Rightarrow> order" where
  "new_ask i maker book_key amount tick = order_new i maker book_key amount tick False False 0"

definition new_flip ::
  "u128 \<Rightarrow> address \<Rightarrow> b256 \<Rightarrow> u128 \<Rightarrow> i16 \<Rightarrow> bool \<Rightarrow> i16 \<Rightarrow> tempo_hardfork \<Rightarrow> order_error + order" where
  "new_flip i maker book_key amount tick is_bid flip_tick hardfork =
     (let t5_active = is_t5 hardfork;
          invalid = (if is_bid then sint flip_tick < sint tick \<or> \<not> t5_active \<and> flip_tick = tick
                     else sint flip_tick > sint tick \<or> \<not> t5_active \<and> flip_tick = tick) in
      if invalid then Inl (if is_bid then InvalidBidFlipTick tick flip_tick else InvalidAskFlipTick tick flip_tick)
      else Inr (order_new i maker book_key amount tick is_bid True flip_tick))"

definition is_fully_filled :: "order \<Rightarrow> bool" where
  "is_fully_filled o1 \<longleftrightarrow> ord_remaining o1 = 0"

definition order_fill :: "u128 \<Rightarrow> order \<Rightarrow> order_error + order" where
  "order_fill fill_amount o1 =
     (if fill_amount > ord_remaining o1 then Inl (FillAmountExceedsRemaining fill_amount (ord_remaining o1))
      else Inr (o1\<lparr>ord_remaining := saturating_sub (ord_remaining o1) fill_amount\<rparr>))"

definition create_flipped_order :: "u128 \<Rightarrow> order \<Rightarrow> order" where
  "create_flipped_order new_order_id o1 =
     \<lparr>ord_id = new_order_id, ord_maker = ord_maker o1, ord_book_key = ord_book_key o1, ord_is_bid = (\<not> ord_is_bid o1),
      ord_tick = ord_flip_tick o1, ord_amount = ord_amount o1, ord_remaining = ord_amount o1, ord_prev = 0, ord_next = 0,
      ord_is_flip = True, ord_flip_tick = ord_tick o1\<rparr>"

section \<open>Stepping a trade across an order\<close>

record order_step =
  step_fill :: u128
  step_accumulate :: u128
  step_next :: u128

datatype fill_kind = FillPartial u128 | FillFull

definition step_exact_in :: "u128 \<Rightarrow> order \<Rightarrow> bool \<Rightarrow> order_step option" where
  "step_exact_in amount_in o1 is_bid =
     (let remaining = ord_remaining o1; tick = ord_tick o1 in
      Option.bind
        (if is_bid then Some (min amount_in remaining, saturating_sub amount_in remaining)
         else
           Option.bind (quote_to_base amount_in tick RoundDown) (\<lambda>base_out.
           Option.bind (if base_out > remaining then
                       Option.bind (base_to_quote remaining tick RoundUp) (\<lambda>quote_needed. checked_sub amount_in quote_needed)
                     else Some 0) (\<lambda>nxt.
           Some (min base_out remaining, nxt))))
        (\<lambda>(filled, nxt).
           Option.bind (taker_output filled tick (ord_is_bid o1)) (\<lambda>out.
           Some \<lparr>step_fill = filled, step_accumulate = out, step_next = nxt\<rparr>)))"

definition step_exact_out :: "u128 \<Rightarrow> order \<Rightarrow> bool \<Rightarrow> order_step option" where
  "step_exact_out amount_out o1 is_bid =
     (let remaining = ord_remaining o1; tick = ord_tick o1 in
      Option.bind
        (if is_bid then
           Option.bind (quote_to_base amount_out tick RoundUp) (\<lambda>base_needed.
           let filled = min base_needed remaining in Some (filled, filled, base_needed))
         else
           let filled = min amount_out remaining in
           Option.bind (base_to_quote filled tick RoundUp) (\<lambda>amount_in. Some (filled, amount_in, amount_out)))
        (\<lambda>(filled, acc1, demand).
           Option.bind (if demand > remaining then
                       Option.bind (taker_output remaining tick (ord_is_bid o1)) (\<lambda>received. checked_sub amount_out received)
                     else Some 0) (\<lambda>nxt.
           Some \<lparr>step_fill = filled, step_accumulate = acc1, step_next = nxt\<rparr>)))"

section \<open>Books\<close>

record tick_level =
  level_head :: u128
  level_tail :: u128
  total_liquidity :: u128

definition tick_level_new :: tick_level where
  "tick_level_new = \<lparr>level_head = 0, level_tail = 0, total_liquidity = 0\<rparr>"

definition level_is_empty :: "tick_level \<Rightarrow> bool" where
  "level_is_empty l \<longleftrightarrow> level_head l = 0 \<and> level_tail l = 0"

text \<open>A book id is the index of the book in \<open>book_keys\<close> plus one; zero means unset.\<close>

definition book_id_from_index :: "u32 \<Rightarrow> u32" where
  "book_id_from_index index = index + 1"

definition book_id_index :: "u32 \<Rightarrow> u32 option" where
  "book_id_index i = checked_sub i 1"

record orderbook =
  book_base :: address
  book_quote :: address
  book_bids :: "i16 \<Rightarrow> tick_level"
  book_asks :: "i16 \<Rightarrow> tick_level"
  best_bid_tick :: i16
  best_ask_tick :: i16
  book_id :: u32
  bid_bitmap :: "i16 \<Rightarrow> u256"
  ask_bitmap :: "i16 \<Rightarrow> u256"

definition book_is_initialized :: "orderbook \<Rightarrow> bool" where
  "book_is_initialized b \<longleftrightarrow> book_base b \<noteq> 0"

definition matches_tokens :: "address option \<Rightarrow> address option \<Rightarrow> orderbook \<Rightarrow> bool" where
  "matches_tokens base_token quote_token b \<longleftrightarrow>
     (case base_token of Some a \<Rightarrow> a = book_base b | None \<Rightarrow> True) \<and>
     (case quote_token of Some a \<Rightarrow> a = book_quote b | None \<Rightarrow> True)"

definition tick_level_at :: "i16 \<Rightarrow> bool \<Rightarrow> orderbook \<Rightarrow> tick_level" where
  "tick_level_at tick is_bid b = (if is_bid then book_bids b tick else book_asks b tick)"

definition bitmap_of :: "bool \<Rightarrow> orderbook \<Rightarrow> i16 \<Rightarrow> u256" where
  "bitmap_of is_bid b = (if is_bid then bid_bitmap b else ask_bitmap b)"

definition calc_tick_word_idx :: "i16 \<Rightarrow> tempo_error + i16" where
  "calc_tick_word_idx tick =
     (if \<not> tick_in_bounds tick then Inl (StablecoinDEXErr InvalidTick) else Inr (signed_drop_bit 8 tick))"

definition tick_bit_index :: "i16 \<Rightarrow> nat" where
  "tick_bit_index tick = unat (tick AND 0xFF)"

definition set_tick_mask :: "i16 \<Rightarrow> u256 \<Rightarrow> u256" where
  "set_tick_mask tick current_word = current_word OR push_bit (tick_bit_index tick) 1"

definition delete_tick_mask :: "i16 \<Rightarrow> u256 \<Rightarrow> u256" where
  "delete_tick_mask tick current_word = current_word AND NOT (push_bit (tick_bit_index tick) 1)"

definition is_tick_initialized :: "i16 \<Rightarrow> bool \<Rightarrow> orderbook \<Rightarrow> tempo_error + bool" where
  "is_tick_initialized tick is_bid b =
     rbind (calc_tick_word_idx tick) (\<lambda>word_index.
     Inr (bitmap_of is_bid b word_index AND push_bit (tick_bit_index tick) 1 \<noteq> 0))"

definition trailing_zeros :: "u256 \<Rightarrow> nat" where
  "trailing_zeros w = length (takeWhile (\<lambda>i. \<not> bit w i) [0..<256])"

definition leading_zeros :: "u256 \<Rightarrow> nat" where
  "leading_zeros w = length (takeWhile (\<lambda>i. \<not> bit w (255 - i)) [0..<256])"

section \<open>Ticks as words\<close>

lemma sint_i16_bounds: "- 32768 \<le> sint (w :: i16)" "sint (w :: i16) < 32768"
  using sint_range_size[of w] by (simp_all add: word_size)

lemma sint_i16_small: "- 32768 \<le> k \<Longrightarrow> k < 32768 \<Longrightarrow> sint (word_of_int k :: i16) = k"
  by (simp add: sint_sbintrunc' signed_take_bit_int_eq_self)

lemma sint_tick_limits [simp]: "sint MIN_TICK = - 2000" "sint MAX_TICK = 2000" "sint TICK_SPACING = 10"
  "sint I16_MIN = - 32768" "sint I16_MAX = 32767"
  by (simp_all add: MIN_TICK_def MAX_TICK_def TICK_SPACING_def)

lemma sint_word_index: "sint (signed_drop_bit 8 (t :: i16)) = sint t div 256"
  by (simp add: sint_signed_drop_bit_eq drop_bit_eq_div)

lemma word_index_bounds: "- 128 \<le> sint (signed_drop_bit 8 (t :: i16))" "sint (signed_drop_bit 8 (t :: i16)) < 128"
  using sint_i16_bounds[of t] by (simp_all add: sint_word_index)

lemma sint_first_tick: "- 128 \<le> sint w \<Longrightarrow> sint w < 128 \<Longrightarrow> sint (push_bit 8 w :: i16) = 256 * sint w"
  by (simp add: push_bit_eq_mult sint_word_ariths signed_take_bit_int_eq_self mult.commute)

lemma sint_tick_of:
  assumes "- 128 \<le> sint w" "sint w < 128" "b < 256"
  shows "sint (push_bit 8 w OR of_nat b :: i16) = 256 * sint w + int b"
proof -
  have "push_bit 8 w OR of_nat b = push_bit 8 w + (of_nat b :: i16)"
  proof (subst disjunctive_add)
    fix n
    show "\<not> bit (push_bit 8 w) n \<or> \<not> bit (of_nat b :: i16) n"
    proof (cases "n < 8")
      case False
      then have "(256 :: nat) \<le> 2 ^ n" using power_increasing[of 8 n "2 :: nat"] by simp
      with assms(3) have "b div 2 ^ n = 0" by simp
      then have "\<not> bit b n" by (simp add: bit_iff_odd)
      then show ?thesis by (simp add: bit_simps)
    qed (simp add: bit_simps)
  qed simp
  moreover have "sint (push_bit 8 w + (of_nat b :: i16)) = 256 * sint w + int b"
    using assms sint_i16_small[of "int b"] by (simp add: sint_word_ariths sint_first_tick signed_take_bit_int_eq_self)
  ultimately show ?thesis by simp
qed

lemma tick_bit_index: "int (tick_bit_index t) = sint t mod 256"
proof -
  have "mask 8 = (0xFF :: i16)" by (simp add: mask_eq_exp_minus_1)
  then have "tick_bit_index t = unat (take_bit 8 t)" by (simp add: tick_bit_index_def take_bit_eq_mask)
  also have "int (unat (take_bit 8 t)) = take_bit 8 (uint t)"
    by (simp only: unsigned_take_bit_eq[symmetric] int_nat_eq uint_nat[symmetric])
  finally have "int (tick_bit_index t) = uint t mod 256" by (simp add: take_bit_eq_mod)
  also have "uint t mod 256 = sint t mod 256"
    using take_bit_signed_take_bit[of 8 15 "uint t"] by (simp add: sint_uint take_bit_eq_mod)
  finally show ?thesis .
qed

lemma tick_bit_index_less: "tick_bit_index t < 256"
  using tick_bit_index[of t] by (simp add: zless_nat_eq_int_zless flip: of_nat_less_iff[where 'a = int])

lemma tick_split: "sint t = 256 * sint (signed_drop_bit 8 t) + int (tick_bit_index t)" for t :: i16
  by (simp add: sint_word_index tick_bit_index)

section \<open>Searching the bitmap\<close>

lemma takeWhile_stops: "x \<in> set xs \<Longrightarrow> \<not> P x \<Longrightarrow> length (takeWhile P xs) < length xs"
  by (induction xs) auto

lemma trailing_zeros:
  assumes "w \<noteq> 0"
  shows "trailing_zeros w < 256" "bit w (trailing_zeros w)" "\<And>i. i < trailing_zeros w \<Longrightarrow> \<not> bit w i"
proof -
  obtain n where n: "bit w n" "n < 256" using assms bit_word_eqI[of w 0] by auto
  have less: "trailing_zeros w < length [0..<256]"
    unfolding trailing_zeros_def by (rule takeWhile_stops[of n]) (use n in auto)
  then show "trailing_zeros w < 256" by simp
  from nth_length_takeWhile[OF less[unfolded trailing_zeros_def]] less show "bit w (trailing_zeros w)"
    by (simp add: trailing_zeros_def)
  show "\<not> bit w i" if "i < trailing_zeros w" for i
  proof -
    have "[0..<256] ! i \<in> set (takeWhile (\<lambda>i. \<not> bit w i) [0..<256])"
      using that less takeWhile_nth[of i "\<lambda>i. \<not> bit w i" "[0..<256]"] nth_mem[of i "takeWhile (\<lambda>i. \<not> bit w i) [0..<256]"]
      by (simp add: trailing_zeros_def)
    then have "\<not> bit w ([0..<256] ! i)" by (rule conjunct2[OF set_takeWhileD])
    with that less show ?thesis by simp
  qed
qed

lemma leading_zeros:
  assumes "w \<noteq> 0"
  shows "leading_zeros w < 256" "bit w (255 - leading_zeros w)" "\<And>i. 255 - leading_zeros w < i \<Longrightarrow> \<not> bit w i"
proof -
  obtain n where n: "bit w n" "n < 256" using assms bit_word_eqI[of w 0] by auto
  have less: "leading_zeros w < length [0..<256]"
    unfolding leading_zeros_def by (rule takeWhile_stops[of "255 - n"]) (use n in auto)
  then show "leading_zeros w < 256" by simp
  from nth_length_takeWhile[OF less[unfolded leading_zeros_def]] less show "bit w (255 - leading_zeros w)"
    by (simp add: leading_zeros_def)
  show "\<not> bit w i" if "255 - leading_zeros w < i" for i
  proof (cases "i < 256")
    case True
    let ?j = "255 - i"
    have j: "?j < leading_zeros w" using that True by linarith
    have "[0..<256] ! ?j \<in> set (takeWhile (\<lambda>i. \<not> bit w (255 - i)) [0..<256])"
      using j less takeWhile_nth[of ?j "\<lambda>i. \<not> bit w (255 - i)" "[0..<256]"]
        nth_mem[of ?j "takeWhile (\<lambda>i. \<not> bit w (255 - i)) [0..<256]"]
      by (simp add: leading_zeros_def)
    then have "\<not> bit w (255 - [0..<256] ! ?j)" by (rule conjunct2[OF set_takeWhileD])
    with True show ?thesis by simp
  next
    case False
    then show ?thesis using bit_imp_le_length by fastforce
  qed
qed

lemma max_word_index: "sint (signed_drop_bit 8 MAX_TICK) = 7" "sint (signed_drop_bit 8 MIN_TICK) = - 8"
  by (simp_all add: sint_word_index)

lemma sint_succ_index: "sint (signed_drop_bit 8 (t :: i16) + 1) = sint (signed_drop_bit 8 t) + 1"
  using word_index_bounds[of t] by (simp add: sint_word_ariths signed_take_bit_int_eq_self)

lemma sint_pred_index: "sint (signed_drop_bit 8 (t :: i16) - 1) = sint (signed_drop_bit 8 t) - 1"
  using word_index_bounds[of t] by (simp add: sint_word_ariths signed_take_bit_int_eq_self)

text \<open>The loops of the two searches, from the first candidate tick on.\<close>

function next_initialized_ask_from :: "(i16 \<Rightarrow> u256) \<Rightarrow> i16 \<Rightarrow> i16 \<times> bool" where
  "next_initialized_ask_from bitmap next_tick =
     (let max_word_index = signed_drop_bit 8 MAX_TICK; word_index = signed_drop_bit 8 next_tick in
      if sint word_index > sint max_word_index then (next_tick, False)
      else
        let bit_index = tick_bit_index next_tick;
            bits = bitmap word_index;
            low_mask = (if bit_index = 0 then - 1 else push_bit bit_index (- 1));
            masked_word = bits AND low_mask in
        if masked_word \<noteq> 0 then
          let lowest_bit = trailing_zeros masked_word;
              found_tick = push_bit 8 word_index OR of_nat lowest_bit in
          if sint found_tick \<le> sint MAX_TICK then (found_tick, True) else (found_tick, False)
        else
          let next_word_index = word_index + 1 in
          if sint next_word_index > sint max_word_index then (push_bit 8 next_word_index, False)
          else next_initialized_ask_from bitmap (push_bit 8 next_word_index))"
  by auto

termination
proof (relation "measure (\<lambda>(bm, t). nat (8 - sint (signed_drop_bit 8 t)))")
  show "wf (measure (\<lambda>(bm :: i16 \<Rightarrow> u256, t :: i16). nat (8 - sint (signed_drop_bit 8 t))))" by simp
next
  fix bm :: "i16 \<Rightarrow> u256" and t :: i16 and mx wi bi bits lm mw nw
  assume "mx = signed_drop_bit 8 MAX_TICK" "wi = signed_drop_bit 8 t" "\<not> sint mx < sint wi" "nw = wi + 1" "\<not> sint mx < sint nw"
  then show "((bm, push_bit 8 nw), bm, t) \<in> measure (\<lambda>(bm, t). nat (8 - sint (signed_drop_bit 8 t)))"
    using word_index_bounds[of t]
    by (simp add: sint_succ_index max_word_index sint_word_index[of "push_bit 8 nw" for nw] sint_first_tick)
qed

lemma sint_last_tick: "- 128 \<le> sint w \<Longrightarrow> sint w < 128 \<Longrightarrow> sint (push_bit 8 w OR 0xFF :: i16) = 256 * sint w + 255"
  using sint_tick_of[of w 255] by simp

function next_initialized_bid_from :: "(i16 \<Rightarrow> u256) \<Rightarrow> i16 \<Rightarrow> i16 \<times> bool" where
  "next_initialized_bid_from bitmap next_tick =
     (let min_word_index = signed_drop_bit 8 MIN_TICK; word_index = signed_drop_bit 8 next_tick in
      if sint word_index < sint min_word_index then (next_tick, False)
      else
        let bit_index = tick_bit_index next_tick;
            bits = bitmap word_index;
            high_mask = (if bit_index = 255 then - 1 else drop_bit (255 - bit_index) (- 1));
            masked_word = bits AND high_mask in
        if masked_word \<noteq> 0 then
          let leading = leading_zeros masked_word;
              highest_bit = 255 - leading;
              found_tick = push_bit 8 word_index OR of_nat highest_bit in
          if sint found_tick \<ge> sint MIN_TICK then (found_tick, True) else (found_tick, False)
        else
          let prev_word_index = word_index - 1 in
          if sint prev_word_index < sint min_word_index then (push_bit 8 prev_word_index OR 0xFF, False)
          else next_initialized_bid_from bitmap (push_bit 8 prev_word_index OR 0xFF))"
  by auto

termination
proof (relation "measure (\<lambda>(bm, t). nat (9 + sint (signed_drop_bit 8 t)))")
  show "wf (measure (\<lambda>(bm :: i16 \<Rightarrow> u256, t :: i16). nat (9 + sint (signed_drop_bit 8 t))))" by simp
next
  fix bm :: "i16 \<Rightarrow> u256" and t :: i16 and mn wi bi bits hm mw pw
  assume "mn = signed_drop_bit 8 MIN_TICK" "wi = signed_drop_bit 8 t" "\<not> sint wi < sint mn" "pw = wi - 1" "\<not> sint pw < sint mn"
  then show "((bm, push_bit 8 pw OR 0xFF), bm, t) \<in> measure (\<lambda>(bm, t). nat (9 + sint (signed_drop_bit 8 t)))"
    using word_index_bounds[of t]
    by (simp add: sint_pred_index max_word_index sint_word_index[of "push_bit 8 pw OR 0xFF" for pw] sint_last_tick)
qed

definition next_initialized_ask_tick :: "i16 \<Rightarrow> orderbook \<Rightarrow> i16 \<times> bool" where
  "next_initialized_ask_tick tick b =
     (if sint tick \<ge> sint MAX_TICK then (MAX_TICK, False) else next_initialized_ask_from (ask_bitmap b) (tick + 1))"

definition next_initialized_bid_tick :: "i16 \<Rightarrow> orderbook \<Rightarrow> i16 \<times> bool" where
  "next_initialized_bid_tick tick b =
     (if sint tick \<le> sint MIN_TICK then (MIN_TICK, False) else next_initialized_bid_from (bid_bitmap b) (tick - 1))"

definition next_initialized_tick :: "i16 \<Rightarrow> bool \<Rightarrow> orderbook \<Rightarrow> i16 \<times> bool" where
  "next_initialized_tick tick is_bid b =
     (if is_bid then next_initialized_bid_tick tick b else next_initialized_ask_tick tick b)"

text \<open>The ticks a bitmap marks.\<close>

definition tick_marked :: "(i16 \<Rightarrow> u256) \<Rightarrow> i16 \<Rightarrow> bool" where
  "tick_marked bitmap t \<longleftrightarrow> bit (bitmap (signed_drop_bit 8 t)) (tick_bit_index t)"

lemma tick_of_index:
  assumes "sint t = 256 * sint (signed_drop_bit 8 u) + int n" "n < 256"
  shows "signed_drop_bit 8 t = signed_drop_bit 8 (u :: i16)" "tick_bit_index t = n"
proof -
  have "sint (signed_drop_bit 8 t) = sint (signed_drop_bit 8 u)" using assms by (simp add: sint_word_index)
  then show "signed_drop_bit 8 t = signed_drop_bit 8 u" by (rule signed_word_eqI)
  show "tick_bit_index t = n" using assms tick_bit_index[of t] by simp
qed

text \<open>The search finds the nearest marked tick at or beyond the candidate.\<close>

lemma same_word:
  assumes "256 * sint (signed_drop_bit 8 n) \<le> sint u" "sint u < 256 * sint (signed_drop_bit 8 n) + 256"
  shows "signed_drop_bit 8 u = signed_drop_bit 8 (n :: i16)" "int (tick_bit_index u) = sint u - 256 * sint (signed_drop_bit 8 n)"
  using tick_of_index[of u n "nat (sint u - 256 * sint (signed_drop_bit 8 n))"] assms by simp_all

lemma ask_search:
  "next_initialized_ask_from bm n = (t, found) \<Longrightarrow>
   (if found then sint n \<le> sint t \<and> sint t \<le> 2000 \<and> tick_marked bm t \<and> (\<forall>u. sint n \<le> sint u \<and> sint u < sint t \<longrightarrow> \<not> tick_marked bm u)
    else \<forall>u. sint n \<le> sint u \<and> sint u \<le> 2000 \<longrightarrow> \<not> tick_marked bm u)"
proof (induction bm n arbitrary: t found rule: next_initialized_ask_from.induct)
  case (1 bm n)
  let ?w = "signed_drop_bit 8 n" and ?b = "tick_bit_index n"
  let ?m = "bm ?w AND (if ?b = 0 then - 1 else push_bit ?b (- 1))"
  note n = tick_split[of n] and bnd = word_index_bounds[of n]
  have bitm: "bit ?m i \<longleftrightarrow> bit (bm ?w) i \<and> ?b \<le> i" for i
    using bit_imp_le_length[of "bm ?w" i] by (auto simp: bit_simps)
  have unmarked: "\<not> tick_marked bm u" if "sint n \<le> sint u" "sint u < 256 * sint ?w + int k" "k \<le> 256" "\<And>i. i < k \<Longrightarrow> \<not> bit ?m i" for u k
  proof -
    have "256 * sint ?w \<le> sint u" "sint u < 256 * sint ?w + 256" using that(1-3) n by linarith+
    note u = same_word[OF this]
    then have "?b \<le> tick_bit_index u" "tick_bit_index u < k" using that(1-3) n by linarith+
    with that(4) u(1) show ?thesis by (auto simp: tick_marked_def bitm)
  qed
  consider "sint ?w > 7" | "sint ?w \<le> 7" "?m \<noteq> 0" | "sint ?w = 7" "?m = 0" | "sint ?w < 7" "?m = 0" by linarith
  then show ?case
  proof cases
    case 1
    then have "(t, found) = (n, False)" using "1.prems" by (simp add: max_word_index)
    then show ?thesis using 1 n by auto
  next
    case 2
    let ?f = "push_bit 8 ?w OR of_nat (trailing_zeros ?m)"
    note tz = trailing_zeros[OF 2(2)]
    have f: "sint ?f = 256 * sint ?w + int (trailing_zeros ?m)" using sint_tick_of[OF bnd tz(1)] .
    have r: "t = ?f" "found \<longleftrightarrow> sint ?f \<le> 2000"
      using "1.prems" 2 by (simp_all add: max_word_index Let_def split: if_splits)
    note fi = tick_of_index[OF f tz(1)]
    have "tick_marked bm ?f" using tz(2) fi by (simp add: tick_marked_def bitm)
    moreover have "sint n \<le> sint ?f" using tz(2) n f by (simp add: bitm)
    moreover have "\<forall>u. sint n \<le> sint u \<and> sint u < sint ?f \<longrightarrow> \<not> tick_marked bm u"
      using unmarked[of _ "trailing_zeros ?m"] tz f by auto
    ultimately show ?thesis using r by auto
  next
    case 3
    then have "\<not> found" using "1.prems" by (simp add: max_word_index Let_def sint_succ_index)
    then show ?thesis using unmarked[of _ 256] 3 by simp
  next
    case 4
    let ?n = "push_bit 8 (?w + 1)"
    have s: "sint ?n = 256 * sint ?w + 256" using sint_first_tick[of "?w + 1"] bnd 4 by (simp add: sint_succ_index)
    have "next_initialized_ask_from bm ?n = (t, found)"
      using "1.prems" 4 by (subst (asm) next_initialized_ask_from.simps) (simp add: max_word_index Let_def sint_succ_index)
    then have ih: "if found then sint ?n \<le> sint t \<and> sint t \<le> 2000 \<and> tick_marked bm t \<and> (\<forall>u. sint ?n \<le> sint u \<and> sint u < sint t \<longrightarrow> \<not> tick_marked bm u)
      else \<forall>u. sint ?n \<le> sint u \<and> sint u \<le> 2000 \<longrightarrow> \<not> tick_marked bm u"
      using "1.IH"[OF refl refl _ refl refl refl refl _ refl] 4 by (simp add: max_word_index sint_succ_index)
    have "sint n \<le> sint ?n" using n s tick_bit_index_less[of n] by linarith
    moreover have "\<not> tick_marked bm u" if "sint n \<le> sint u" "sint u < sint ?n" for u
      using unmarked[of u 256] that s 4(2) by simp
    ultimately have "\<not> tick_marked bm u" if "sint n \<le> sint u" "if found then sint u < sint t else sint u \<le> 2000" for u
      using that ih by (cases "sint u < sint ?n") (auto split: if_splits)
    with ih \<open>sint n \<le> sint ?n\<close> show ?thesis by (auto split: if_splits)
  qed
qed

lemma bid_search:
  "next_initialized_bid_from bm n = (t, found) \<Longrightarrow>
   (if found then sint t \<le> sint n \<and> - 2000 \<le> sint t \<and> tick_marked bm t \<and> (\<forall>u. sint u \<le> sint n \<and> sint t < sint u \<longrightarrow> \<not> tick_marked bm u)
    else \<forall>u. sint u \<le> sint n \<and> - 2000 \<le> sint u \<longrightarrow> \<not> tick_marked bm u)"
proof (induction bm n arbitrary: t found rule: next_initialized_bid_from.induct)
  case (1 bm n)
  let ?w = "signed_drop_bit 8 n" and ?b = "tick_bit_index n"
  let ?m = "bm ?w AND (if ?b = 255 then - 1 else drop_bit (255 - ?b) (- 1))"
  note n = tick_split[of n] and bnd = word_index_bounds[of n] and b256 = tick_bit_index_less[of n]
  have bitm: "bit ?m i \<longleftrightarrow> bit (bm ?w) i \<and> i \<le> ?b" for i
    using bit_imp_le_length[of "bm ?w" i] b256 by (auto simp: bit_simps)
  have unmarked: "\<not> tick_marked bm u" if "sint u \<le> sint n" "256 * sint ?w + k \<le> sint u" "0 \<le> k" "\<And>i. k \<le> int i \<Longrightarrow> \<not> bit ?m i" for u k
  proof -
    have "256 * sint ?w \<le> sint u" "sint u < 256 * sint ?w + 256" using that(1-3) n b256 by linarith+
    note u = same_word[OF this]
    then have "tick_bit_index u \<le> ?b" "k \<le> int (tick_bit_index u)" using that(1-3) n by linarith+
    with that(4) u(1) show ?thesis by (auto simp: tick_marked_def bitm)
  qed
  consider "sint ?w < - 8" | "- 8 \<le> sint ?w" "?m \<noteq> 0" | "sint ?w = - 8" "?m = 0" | "- 8 < sint ?w" "?m = 0" by linarith
  then show ?case
  proof cases
    case 1
    then have "(t, found) = (n, False)" using "1.prems" by (simp add: max_word_index)
    then show ?thesis using 1 n b256 by auto
  next
    case 2
    let ?h = "255 - leading_zeros ?m"
    let ?f = "push_bit 8 ?w OR of_nat ?h"
    note lz = leading_zeros[OF 2(2)]
    have h: "?h < 256" by simp
    have f: "sint ?f = 256 * sint ?w + int ?h" by (rule sint_tick_of[OF bnd h])
    have r: "t = ?f" "found \<longleftrightarrow> - 2000 \<le> sint ?f"
      using "1.prems" 2 by (simp_all add: max_word_index Let_def split: if_splits)
    note fi = tick_of_index[OF f h]
    have "tick_marked bm ?f" using lz(2) fi by (simp add: tick_marked_def bitm)
    moreover have "sint ?f \<le> sint n" using lz(2) n f by (simp add: bitm)
    moreover have "\<forall>u. sint u \<le> sint n \<and> sint ?f < sint u \<longrightarrow> \<not> tick_marked bm u"
    proof (intro allI impI)
      fix u :: i16 assume "sint u \<le> sint n \<and> sint ?f < sint u"
      then show "\<not> tick_marked bm u" by (intro unmarked[of u "int ?h + 1"]) (use f lz(3) in auto)
    qed
    ultimately show ?thesis using r by auto
  next
    case 3
    then have "\<not> found" using "1.prems" by (simp add: max_word_index Let_def sint_pred_index)
    then show ?thesis using unmarked[of _ 0] 3 by simp
  next
    case 4
    let ?n = "push_bit 8 (?w - 1) OR 0xFF"
    have s: "sint ?n = 256 * sint ?w - 1" using sint_last_tick[of "?w - 1"] bnd 4 by (simp add: sint_pred_index)
    have "next_initialized_bid_from bm ?n = (t, found)"
      using "1.prems" 4 by (subst (asm) next_initialized_bid_from.simps) (simp add: max_word_index Let_def sint_pred_index)
    then have ih: "if found then sint t \<le> sint ?n \<and> - 2000 \<le> sint t \<and> tick_marked bm t \<and> (\<forall>u. sint u \<le> sint ?n \<and> sint t < sint u \<longrightarrow> \<not> tick_marked bm u)
      else \<forall>u. sint u \<le> sint ?n \<and> - 2000 \<le> sint u \<longrightarrow> \<not> tick_marked bm u"
      using "1.IH"[OF refl refl _ refl refl refl refl _ refl] 4 by (simp add: max_word_index sint_pred_index)
    have "sint ?n \<le> sint n" using n s by linarith
    moreover have "\<not> tick_marked bm u" if "sint u \<le> sint n" "sint ?n < sint u" for u
      using unmarked[of u 0] that s 4(2) by simp
    ultimately have "\<not> tick_marked bm u" if "sint u \<le> sint n" "if found then sint t < sint u else - 2000 \<le> sint u" for u
      using that ih by (cases "sint ?n < sint u") (auto split: if_splits)
    with ih \<open>sint ?n \<le> sint n\<close> show ?thesis by (auto split: if_splits)
  qed
qed

text \<open>Ticks in the order in which a taker meets them: bids from the highest, asks from the lowest.\<close>

definition after_tick :: "bool \<Rightarrow> i16 \<Rightarrow> i16 \<Rightarrow> bool" where
  "after_tick is_bid t u \<longleftrightarrow> (if is_bid then sint u < sint t else sint t < sint u)"

lemma next_tick_search:
  assumes "next_initialized_tick tick is_bid b = (t, found)"
  shows "if found then after_tick is_bid tick t \<and> (tick_in_bounds tick \<longrightarrow> tick_in_bounds t) \<and> tick_marked (bitmap_of is_bid b) t \<and>
       (\<forall>u. after_tick is_bid tick u \<and> after_tick is_bid u t \<longrightarrow> \<not> tick_marked (bitmap_of is_bid b) u)
     else \<forall>u. after_tick is_bid tick u \<and> tick_in_bounds u \<longrightarrow> \<not> tick_marked (bitmap_of is_bid b) u"
proof (cases is_bid)
  case True
  show ?thesis
  proof (cases "sint tick \<le> - 2000")
    case False
    then have s: "sint (tick - 1) = sint tick - 1"
      using sint_i16_bounds[of tick] by (simp add: sint_word_ariths signed_take_bit_int_eq_self)
    have "next_initialized_bid_from (bid_bitmap b) (tick - 1) = (t, found)"
      using assms True False by (simp add: next_initialized_tick_def next_initialized_bid_tick_def del: next_initialized_bid_from.simps)
    from bid_search[OF this] True s show ?thesis by (auto simp: after_tick_def bitmap_of_def split: if_splits)
  qed (use assms True in \<open>auto simp: next_initialized_tick_def next_initialized_bid_tick_def after_tick_def split: if_splits\<close>)
next
  case ask: False
  show ?thesis
  proof (cases "2000 \<le> sint tick")
    case False
    then have s: "sint (tick + 1) = sint tick + 1"
      using sint_i16_bounds[of tick] by (simp add: sint_word_ariths signed_take_bit_int_eq_self)
    have "next_initialized_ask_from (ask_bitmap b) (tick + 1) = (t, found)"
      using assms ask False by (simp add: next_initialized_tick_def next_initialized_ask_tick_def del: next_initialized_ask_from.simps)
    from ask_search[OF this] ask s show ?thesis by (auto simp: after_tick_def bitmap_of_def split: if_splits)
  qed (use assms ask in \<open>auto simp: next_initialized_tick_def next_initialized_ask_tick_def after_tick_def split: if_splits\<close>)
qed

text \<open>Marking and unmarking a tick changes no other tick.\<close>

lemma tick_index_unique: "signed_drop_bit 8 t = signed_drop_bit 8 u \<Longrightarrow> tick_bit_index t = tick_bit_index u \<Longrightarrow> t = (u :: i16)"
  using tick_split[of t] tick_split[of u] by (metis signed_word_eqI)

lemma marked_set:
  "tick_marked (bm(signed_drop_bit 8 t := set_tick_mask t (bm (signed_drop_bit 8 t)))) u \<longleftrightarrow> u = t \<or> tick_marked bm u"
  using tick_index_unique[of u t] tick_bit_index_less[of t]
  by (auto simp: tick_marked_def set_tick_mask_def bit_simps)

lemma marked_delete:
  "tick_marked (bm(signed_drop_bit 8 t := delete_tick_mask t (bm (signed_drop_bit 8 t)))) u \<longleftrightarrow> u \<noteq> t \<and> tick_marked bm u"
  using tick_index_unique[of u t] tick_bit_index_less[of t]
  by (auto simp: tick_marked_def delete_tick_mask_def bit_simps dest: bit_imp_le_length)

lemma is_tick_initialized_marked:
  "tick_in_bounds t \<Longrightarrow> is_tick_initialized t is_bid b = Inr (tick_marked (bitmap_of is_bid b) t)"
  using tick_bit_index_less[of t]
  by (auto simp: is_tick_initialized_def calc_tick_word_idx_def tick_marked_def and_exp_eq_0_iff_not_bit push_bit_eq_mult)

section \<open>Prices over the natural numbers\<close>

text \<open>The price of a tick in units of 1/100000, and the two roundings of a quotient.\<close>

definition price_of :: "i16 \<Rightarrow> nat" where
  "price_of t = nat (100000 + sint t)"

definition ceil_div :: "nat \<Rightarrow> nat \<Rightarrow> nat" where
  "ceil_div a b = (if a mod b = 0 then a div b else a div b + 1)"

definition rounded :: "rounding_direction \<Rightarrow> nat \<Rightarrow> nat \<Rightarrow> nat" where
  "rounded d a b = (case d of RoundDown \<Rightarrow> a div b | RoundUp \<Rightarrow> ceil_div a b)"

lemma price_of_bounds: "67232 \<le> price_of t" "price_of t < 132768"
  using sint_i16_bounds[of t] by (simp_all add: price_of_def nat_less_iff le_nat_iff)

lemma uint_tick_to_price: "uint (tick_to_price t) = 100000 + sint t"
proof -
  have "tick_to_price t = word_of_int (100000 + sint t)" by (simp add: tick_to_price_def PRICE_SCALE_def)
  moreover have "uint (word_of_int (100000 + sint t) :: u32) = 100000 + sint t"
    using sint_i16_bounds[of t] by (simp add: uint_word_of_int_eq take_bit_int_eq_self del: of_int_add)
  ultimately show ?thesis by (simp only:)
qed

lemma unat_tick_to_price: "unat (tick_to_price t) = price_of t"
  unfolding unat_eq_nat_uint uint_tick_to_price price_of_def ..

lemma unat_scale: "unat PRICE_SCALE = 100000"
  by (simp add: PRICE_SCALE_def)

lemma unat_mul_small: "unat a * unat b < 2 ^ LENGTH('a) \<Longrightarrow> unat (a * b) = unat a * unat (b :: 'a::len word)"
  by (simp add: unat_word_ariths)

lemma unat_div_ceil: "unat b > 1 \<Longrightarrow> unat (div_ceil a b) = ceil_div (unat a) (unat (b :: 'a::len word))"
proof -
  assume b: "unat b > 1"
  have z: "a mod b = 0 \<longleftrightarrow> unat a mod unat b = 0" by (simp add: word_unat_eq_iff unat_mod)
  have "unat a div unat b + 1 < 2 ^ LENGTH('a)" if "unat a mod unat b \<noteq> 0"
  proof -
    have "unat a \<noteq> 0" using that by (cases "unat a = 0") simp_all
    then have "unat a div unat b < unat a" using b by (simp add: div_less_dividend)
    then show ?thesis using unat_bound[of a] by linarith
  qed
  then show ?thesis by (auto simp: div_ceil_def ceil_div_def z unat_div unat_word_ariths)
qed

lemma mul_small:
  assumes "unat (a :: u128) * n < 2 ^ 128 * 2 ^ 32"
  shows "unat a * n < 2 ^ LENGTH(256)"
  using assms by (rule less_le_trans) simp

lemma base_to_quote_eq:
  "base_to_quote a t d = (let q = rounded d (unat a * price_of t) 100000 in if q < 2 ^ 128 then Some (of_nat q) else None)"
proof -
  let ?p = "ucast (tick_to_price t) :: u256" and ?a = "ucast a :: u256" and ?s = "ucast PRICE_SCALE :: u256"
  have u: "unat ?p = price_of t" "unat ?a = unat a" "unat ?s = 100000"
    by (simp_all add: unat_ucast_up unat_tick_to_price unat_scale)
  have "unat a * price_of t < 2 ^ 128 * 2 ^ 32"
    by (rule mult_less_le_imp_less) (use unsigned_less[of a] price_of_bounds[of t] in simp_all)
  then have m: "unat (?a * ?p) = unat a * price_of t" using mul_small[of a "price_of t"] u by (simp add: unat_mul_small)
  have "unat (case d of RoundDown \<Rightarrow> ?a * ?p div ?s | RoundUp \<Rightarrow> div_ceil (?a * ?p) ?s) = rounded d (unat a * price_of t) 100000"
    using m u by (simp add: rounded_def unat_div unat_div_ceil split: rounding_direction.splits)
  then show ?thesis
    by (auto simp: base_to_quote_def Let_def try_into_def word_unat_eq_iff unat_of_nat_small unsigned_ucast_eq take_bit_nat_eq_self)
qed

lemma quote_to_base_eq:
  "quote_to_base a t d = (let b = rounded d (unat a * 100000) (price_of t) in if b < 2 ^ 128 then Some (of_nat b) else None)"
proof -
  let ?p = "ucast (tick_to_price t) :: u256" and ?a = "ucast a :: u256" and ?s = "ucast PRICE_SCALE :: u256"
  have u: "unat ?p = price_of t" "unat ?a = unat a" "unat ?s = 100000"
    by (simp_all add: unat_ucast_up unat_tick_to_price unat_scale)
  have "unat a * 100000 < 2 ^ 128 * 2 ^ 32"
    by (rule mult_less_le_imp_less) (use unsigned_less[of a] in simp_all)
  then have m: "unat (?a * ?s) = unat a * 100000" using mul_small[of a 100000] u by (simp add: unat_mul_small)
  have "unat ?p > 1" using u price_of_bounds[of t] by simp
  then have "unat (case d of RoundDown \<Rightarrow> ?a * ?s div ?p | RoundUp \<Rightarrow> div_ceil (?a * ?s) ?p) = rounded d (unat a * 100000) (price_of t)"
    using m u by (simp add: rounded_def unat_div unat_div_ceil split: rounding_direction.splits)
  then show ?thesis
    by (auto simp: quote_to_base_def Let_def try_into_def word_unat_eq_iff unat_of_nat_small unsigned_ucast_eq take_bit_nat_eq_self)
qed

lemma base_to_quote_Some [checked_simps]:
  "base_to_quote a t d = Some q \<longleftrightarrow> unat q = rounded d (unat a * price_of t) 100000"
  using unat_bound[of q] by (auto simp: base_to_quote_eq Let_def unat_of_nat_small word_unat_eq_iff split: if_splits)

lemma quote_to_base_Some [checked_simps]:
  "quote_to_base a t d = Some b \<longleftrightarrow> unat b = rounded d (unat a * 100000) (price_of t)"
  using unat_bound[of b] by (auto simp: quote_to_base_eq Let_def unat_of_nat_small word_unat_eq_iff split: if_splits)

lemma rounded_simps [simp]: "rounded RoundDown a b = a div b" "rounded RoundUp a b = ceil_div a b"
  by (simp_all add: rounded_def)

lemma ceil_div_le: "0 < b \<Longrightarrow> ceil_div a b \<le> n \<longleftrightarrow> a \<le> n * b"
proof -
  assume b: "0 < b"
  have a: "a = a div b * b + a mod b" by simp
  show ?thesis
  proof (cases "a mod b = 0")
    case True
    then show ?thesis using b a by (metis add.right_neutral ceil_div_def mult_le_cancel2)
  next
    case False
    then have "a \<le> n * b \<longleftrightarrow> a div b < n" using b by (metis div_less_iff_less_mult dvd_imp_mod_0 dvd_triv_right le_neq_implies_less less_imp_le_nat)
    then show ?thesis using False by (simp add: ceil_div_def Suc_le_eq)
  qed
qed

lemma le_ceil_div: "0 < b \<Longrightarrow> a \<le> ceil_div a b * b"
  using ceil_div_le[of b a "ceil_div a b"] by simp

lemma div_le_ceil_div: "a div b \<le> ceil_div a b"
  by (simp add: ceil_div_def)

text \<open>Splitting an amount: the ceiling of the whole covers the floor of one part and the ceiling of the rest.\<close>

lemma ceil_div_split: "0 < b \<Longrightarrow> x div b + ceil_div y b \<le> ceil_div (x + y) b"
proof -
  assume b: "0 < b"
  let ?n = "ceil_div (x + y) b"
  have le: "x + y \<le> ?n * b" using b by (rule le_ceil_div)
  then have "x div b * b \<le> ?n * b" using div_times_less_eq_dividend[of x b] by linarith
  then have "x div b \<le> ?n" using b by simp
  then have "y \<le> (?n - x div b) * b" using le div_times_less_eq_dividend[of x b] unfolding diff_mult_distrib by linarith
  then have "ceil_div y b \<le> ?n - x div b" using b by (simp add: ceil_div_le)
  with \<open>x div b \<le> ?n\<close> show ?thesis by linarith
qed

section \<open>What a step of a trade moves\<close>

text \<open>
  The escrow of the unfilled part of an order: quote tokens rounded up for a bid, base tokens for
  an ask. What a fill of \<open>f\<close> base tokens gives the maker: base tokens for a bid, quote tokens
  rounded up for an ask.
\<close>

definition escrow :: "bool \<Rightarrow> i16 \<Rightarrow> nat \<Rightarrow> nat" where
  "escrow is_bid t n = (if is_bid then ceil_div (n * price_of t) 100000 else n)"

definition maker_gets :: "bool \<Rightarrow> i16 \<Rightarrow> nat \<Rightarrow> nat" where
  "maker_gets is_bid t f = (if is_bid then f else ceil_div (f * price_of t) 100000)"

lemma escrow_zero [simp]: "escrow b t 0 = 0"
  by (simp add: escrow_def ceil_div_def)

lemma escrow_fill: "f \<le> r \<Longrightarrow> (if is_bid then f * price_of t div 100000 else f) + escrow is_bid t (r - f) \<le> escrow is_bid t r"
  using ceil_div_split[of 100000 "f * price_of t" "(r - f) * price_of t"]
  by (auto simp: escrow_def simp flip: distrib_right)

text \<open>
  One step of an exact input trade: the taker's input covers what the maker gets and what the
  trade carries on with, and the escrow the fill releases covers the taker's output.
\<close>

lemma step_exact_in_conserves:
  assumes step: "step_exact_in a o1 is_bid = Some s" and side: "ord_is_bid o1 = is_bid"
  defines "r \<equiv> unat (ord_remaining o1)" and "f \<equiv> unat (step_fill s)"
  shows "f \<le> r" "maker_gets is_bid (ord_tick o1) f + unat (step_next s) \<le> unat a"
    "unat (step_accumulate s) + escrow is_bid (ord_tick o1) (r - f) \<le> escrow is_bid (ord_tick o1) r"
    "f < r \<Longrightarrow> step_next s = 0"
proof -
  let ?t = "ord_tick o1"
  have pos: "0 < price_of ?t" using price_of_bounds[of ?t] by simp
  have umin: "unat (min x y) = min (unat x) (unat y)" for x y :: u128 by (simp add: min_def word_le_nat_alt)
  have "f \<le> r \<and> maker_gets is_bid ?t f + unat (step_next s) \<le> unat a \<and>
    unat (step_accumulate s) = (if is_bid then f * price_of ?t div 100000 else f) \<and> (f < r \<longrightarrow> step_next s = 0)"
  proof (cases is_bid)
    case True
    then show ?thesis using step side
      by (auto simp: step_exact_in_def Let_def taker_output_def checked_simps bind_eq_Some_conv maker_gets_def r_def f_def
          umin unat_saturating_sub word_unat_eq_iff)
  next
    case False
    obtain bo where q: "quote_to_base a ?t RoundDown = Some bo"
      using step side False by (auto simp: step_exact_in_def Let_def bind_eq_Some_conv)
    then have bo: "unat bo = unat a * 100000 div price_of ?t" by (simp add: checked_simps)
    have f: "step_fill s = min bo (ord_remaining o1)" and acc1: "step_accumulate s = step_fill s"
      using step side False q by (auto simp: step_exact_in_def Let_def taker_output_def bind_eq_Some_conv)
    have nxt: "if bo > ord_remaining o1 then unat a = unat (step_next s) + ceil_div (r * price_of ?t) 100000
        else step_next s = 0"
      using step side False q
      by (simp add: step_exact_in_def Let_def taker_output_def bind_eq_Some_conv r_def checked_simps split: if_splits) auto
    have "unat bo * price_of ?t \<le> unat a * 100000" using bo by simp
    then have le: "ceil_div (f' * price_of ?t) 100000 \<le> unat a" if "f' \<le> unat bo" for f'
      using that by (simp add: ceil_div_le) (meson le_trans mult_le_mono1)
    show ?thesis
    proof (cases "bo > ord_remaining o1")
      case True
      then have "f = r" using f by (simp add: f_def r_def min_def word_less_nat_alt word_le_nat_alt)
      then show ?thesis using nxt True False acc1 by (auto simp: maker_gets_def f_def)
    next
      case ge: False
      then have "f = unat bo" "f \<le> r" using f by (simp_all add: f_def r_def min_def word_less_nat_alt word_le_nat_alt)
      then show ?thesis using nxt ge False acc1 le[of f] by (auto simp: maker_gets_def f_def)
    qed
  qed
  then show "f \<le> r" "maker_gets is_bid ?t f + unat (step_next s) \<le> unat a" "f < r \<Longrightarrow> step_next s = 0"
    "unat (step_accumulate s) + escrow is_bid ?t (r - f) \<le> escrow is_bid ?t r"
    using escrow_fill[of f r is_bid ?t] by auto
qed

text \<open>
  One step of an exact output trade: the input it adds is what the maker gets, and the escrow the
  fill releases covers the part of the output it delivers.
\<close>

lemma step_exact_out_conserves:
  assumes step: "step_exact_out a o1 is_bid = Some s" and side: "ord_is_bid o1 = is_bid"
  defines "r \<equiv> unat (ord_remaining o1)" and "f \<equiv> unat (step_fill s)"
  shows "f \<le> r" "unat (step_accumulate s) = maker_gets is_bid (ord_tick o1) f" "unat (step_next s) \<le> unat a"
    "unat a - unat (step_next s) + escrow is_bid (ord_tick o1) (r - f) \<le> escrow is_bid (ord_tick o1) r"
    "f < r \<Longrightarrow> step_next s = 0"
proof -
  let ?t = "ord_tick o1"
  have pos: "0 < price_of ?t" using price_of_bounds[of ?t] by simp
  have umin: "unat (min x y) = min (unat x) (unat y)" for x y :: u128 by (simp add: min_def word_le_nat_alt)
  have "f \<le> r \<and> unat (step_accumulate s) = maker_gets is_bid ?t f \<and> unat (step_next s) \<le> unat a \<and>
    unat a - unat (step_next s) \<le> (if is_bid then f * price_of ?t div 100000 else f) \<and> (f < r \<longrightarrow> step_next s = 0)"
  proof (cases is_bid)
    case True
    obtain bn where q: "quote_to_base a ?t RoundUp = Some bn"
      using step side True by (auto simp: step_exact_out_def Let_def bind_eq_Some_conv)
    then have bn: "unat bn = ceil_div (unat a * 100000) (price_of ?t)" by (simp add: checked_simps)
    have f: "step_fill s = min bn (ord_remaining o1)" and acc1: "step_accumulate s = step_fill s"
      using step side True q by (auto simp: step_exact_out_def Let_def bind_eq_Some_conv)
    have nxt: "if bn > ord_remaining o1 then unat a = unat (step_next s) + r * price_of ?t div 100000
        else step_next s = 0"
      using step side True q
      by (simp add: step_exact_out_def Let_def taker_output_def bind_eq_Some_conv r_def checked_simps split: if_splits) auto
    show ?thesis
    proof (cases "bn > ord_remaining o1")
      case gt: True
      then have "f = r" using f by (simp add: f_def r_def min_def word_less_nat_alt word_le_nat_alt)
      then show ?thesis using nxt gt True acc1 by (auto simp: maker_gets_def f_def)
    next
      case False
      then have f: "f = unat bn" "f \<le> r" using f by (simp_all add: f_def r_def min_def word_less_nat_alt word_le_nat_alt)
      have "unat a * 100000 \<le> f * price_of ?t" using le_ceil_div[OF pos] f(1) bn by simp
      then have "unat a \<le> f * price_of ?t div 100000" by (simp add: less_eq_div_iff_mult_less_eq)
      then show ?thesis using nxt False True acc1 f by (auto simp: maker_gets_def f_def)
    qed
  next
    case False
    then show ?thesis using step side
      by (auto simp: step_exact_out_def Let_def taker_output_def checked_simps bind_eq_Some_conv maker_gets_def r_def f_def
          umin word_less_nat_alt min_def word_le_nat_alt split: if_splits)
  qed
  then show "f \<le> r" "unat (step_accumulate s) = maker_gets is_bid ?t f" "unat (step_next s) \<le> unat a" "f < r \<Longrightarrow> step_next s = 0"
    "unat a - unat (step_next s) + escrow is_bid ?t (r - f) \<le> escrow is_bid ?t r"
    using escrow_fill[of f r is_bid ?t] by auto
qed

end
