(* ===== verification/Order_Properties.thy ===== *)
theory Order_Properties
  imports Order_Book
begin

text \<open>What prices, tick search and trade steps of the exchange guarantee.\<close>

section \<open>Prices\<close>

lemma price_to_tick_Inr: "price_to_tick p = Inr t \<longleftrightarrow> 98000 \<le> uint p \<and> uint p \<le> 102000 \<and> t = ucast (p - 100000)"
  by (auto simp: price_to_tick_def MIN_PRICE_def MAX_PRICE_def PRICE_SCALE_def word_le_def Let_def)

lemma tick_of_price:
  assumes "98000 \<le> uint p" "uint p \<le> 102000"
  shows "sint (ucast (p - 100000 :: u32) :: i16) = uint p - 100000"
proof -
  have "(ucast (word_of_int k :: u32) :: i16) = word_of_int k" for k
    by (rule bit_word_eqI) (auto simp: bit_simps)
  moreover have "p - 100000 = word_of_int (uint p - 100000)" by simp
  ultimately have "(ucast (p - 100000) :: i16) = word_of_int (uint p - 100000)" by metis
  then show ?thesis using assms sint_i16_small[of "uint p - 100000"] by (simp del: of_int_diff)
qed

text \<open>Claim C30: \<open>price_to_tick\<close> and \<open>tick_to_price\<close> are inverse to each other between the valid ticks and
  the valid prices: a price has the tick \<open>t\<close> exactly when \<open>t\<close> is within bounds and the price is that of \<open>t\<close>;
  every other price is rejected.\<close>

theorem price_tick_inverse:
  "price_to_tick p = Inr t \<longleftrightarrow> sint MIN_TICK \<le> sint t \<and> sint t \<le> sint MAX_TICK \<and> p = tick_to_price t"
proof
  assume "price_to_tick p = Inr t"
  then have p: "98000 \<le> uint p" "uint p \<le> 102000" "t = ucast (p - 100000)" by (simp_all add: price_to_tick_Inr)
  then have "sint t = uint p - 100000" using tick_of_price[of p] by simp
  with p(1,2) show "sint MIN_TICK \<le> sint t \<and> sint t \<le> sint MAX_TICK \<and> p = tick_to_price t"
    by (auto simp: word_uint_eq_iff uint_tick_to_price)
next
  assume r: "sint MIN_TICK \<le> sint t \<and> sint t \<le> sint MAX_TICK \<and> p = tick_to_price t"
  then have p: "uint p = 100000 + sint t" by (simp add: uint_tick_to_price)
  with r have "sint t = sint (ucast (p - 100000) :: i16)" using tick_of_price[of p] by simp
  then have "t = ucast (p - 100000)" by (rule signed_word_eqI)
  with r p show "price_to_tick p = Inr t" by (simp add: price_to_tick_Inr)
qed

section \<open>Tick search\<close>

text \<open>Claim C31: From a valid tick, \<open>next_initialized_tick\<close> returns the nearest initialized tick beyond it on the
  side of the book, downwards for bids and upwards for asks: the tick it finds is valid and initialized and
  no tick in between is, and when it finds none, no valid tick beyond is initialized.\<close>

theorem next_tick_is_nearest:
  assumes "tick_in_bounds tick"
  shows "case next_initialized_tick tick is_bid b of (t, found) \<Rightarrow>
    if found then tick_in_bounds t \<and> after_tick is_bid tick t \<and> is_tick_initialized t is_bid b = Inr True \<and>
      (\<forall>u. after_tick is_bid tick u \<and> after_tick is_bid u t \<longrightarrow> is_tick_initialized u is_bid b = Inr False)
    else \<forall>u. after_tick is_bid tick u \<and> tick_in_bounds u \<longrightarrow> is_tick_initialized u is_bid b = Inr False"
proof (cases "next_initialized_tick tick is_bid b")
  case (Pair t found)
  note search = next_tick_search[OF Pair]
  show ?thesis
  proof (cases found)
    case True
    then have t: "tick_in_bounds t" using search assms by simp
    have "tick_in_bounds u" if "after_tick is_bid tick u" "after_tick is_bid u t" for u
      using that assms t by (auto simp: after_tick_def split: if_splits)
    with search True t show ?thesis by (simp add: Pair is_tick_initialized_marked)
  qed (use search in \<open>simp add: Pair is_tick_initialized_marked\<close>)
qed

definition two_asks :: orderbook where
  "two_asks = \<lparr>book_base = 1, book_quote = 2, book_bids = (\<lambda>_. tick_level_new), book_asks = (\<lambda>_. tick_level_new),
     best_bid_tick = I16_MIN, best_ask_tick = 20, book_id = 1, bid_bitmap = (\<lambda>_. 0),
     ask_bitmap = (\<lambda>_. 0)(0 := set_tick_mask 20 0, 5 := set_tick_mask 1300 0)\<rparr>"

theorem next_tick_is_nearest_witness:
  "next_initialized_tick 20 False two_asks = (1300, True) \<and> is_tick_initialized 1300 False two_asks = Inr True \<and>
   is_tick_initialized 700 False two_asks = Inr False"
proof -
  have n: "next_initialized_tick 20 False two_asks = (1300, True)" by code_simp
  have "tick_in_bounds 20" by simp
  from next_tick_is_nearest[OF this, of False two_asks] show ?thesis
    by (simp add: n after_tick_def)
qed

section \<open>Trade steps\<close>

text \<open>Claim C32: Stepping a trade across a resting order of the traded side never fills more than the order has,
  stops the trade when it fills less, and creates no tokens: for an exact input, the input covers what the maker
  receives and what the trade carries on with; for an exact output, the input added is exactly what the maker
  receives; and in both, the escrow released by the fill, with bids escrowing quote tokens rounded up, covers
  what the taker receives.\<close>

theorem trade_step_conserves:
  assumes "ord_is_bid o1 = is_bid"
  shows "(\<forall>s. step_exact_in a o1 is_bid = Some s \<longrightarrow>
      unat (step_fill s) \<le> unat (ord_remaining o1) \<and>
      (unat (step_fill s) < unat (ord_remaining o1) \<longrightarrow> step_next s = 0) \<and>
      maker_gets is_bid (ord_tick o1) (unat (step_fill s)) + unat (step_next s) \<le> unat a \<and>
      unat (step_accumulate s) + escrow is_bid (ord_tick o1) (unat (ord_remaining o1) - unat (step_fill s))
        \<le> escrow is_bid (ord_tick o1) (unat (ord_remaining o1))) \<and>
    (\<forall>s. step_exact_out a o1 is_bid = Some s \<longrightarrow>
      unat (step_fill s) \<le> unat (ord_remaining o1) \<and>
      (unat (step_fill s) < unat (ord_remaining o1) \<longrightarrow> step_next s = 0) \<and>
      unat (step_accumulate s) = maker_gets is_bid (ord_tick o1) (unat (step_fill s)) \<and> unat (step_next s) \<le> unat a \<and>
      unat a - unat (step_next s) + escrow is_bid (ord_tick o1) (unat (ord_remaining o1) - unat (step_fill s))
        \<le> escrow is_bid (ord_tick o1) (unat (ord_remaining o1)))"
  using step_exact_in_conserves[OF _ assms] step_exact_out_conserves[OF _ assms] by blast

definition resting_bid :: order where
  "resting_bid = new_bid 1 7 9 100000001 10"

theorem trade_step_conserves_witness:
  "step_exact_in 200000000 resting_bid True = Some \<lparr>step_fill = 100000001, step_accumulate = 100010001, step_next = 99999999\<rparr> \<and>
   100010001 + escrow True 10 0 \<le> escrow True 10 100000001"
proof -
  have s: "step_exact_in 200000000 resting_bid True =
      Some \<lparr>step_fill = 100000001, step_accumulate = 100010001, step_next = 99999999\<rparr>"
    by (simp add: step_exact_in_def resting_bid_def new_bid_def order_new_def taker_output_def base_to_quote_eq price_of_def saturating_sub_def)
  have o: "ord_is_bid resting_bid = True" "ord_tick resting_bid = 10" "ord_remaining resting_bid = 100000001"
    by (simp_all add: resting_bid_def new_bid_def order_new_def)
  from trade_step_conserves[OF o(1), of 200000000, THEN conjunct1, rule_format, OF s] s show ?thesis by (simp add: o)
qed

end
