(* ===== verification/Spec2Isabelle.thy ===== *)
theory Spec2Isabelle
  imports Nonce_Manager Policy_Registry Keychain_Spending Channel_Properties TIP20_Quotes Tempo_Signatures
    Order_Properties
begin

text \<open>
  A verification development for the Tempo precompiles, the built-in contracts of the Tempo chain
  under \<open>src/tempo/crates/precompiles/src\<close>, with the formats they rely on from
  \<open>src/tempo/crates/primitives\<close>, \<open>hardfork\<close>, \<open>contracts\<close> and \<open>src/alloy-core\<close>. The precompiles hold
  the money of the chain: TIP-20 tokens with transfer policies, rewards and fees, the guard that
  keeps blocked funds, the channel reserve that locks deposits, access keys with spending limits,
  nonces and signatures. The rest of the repository runs them (client, EVM, consensus) and is not
  modelled.

  \<^bold>\<open>How the code is modelled.\<close> A struct is a record, an enum a datatype, an integer a word of its width,
  a storage mapping a total function whose default is zero, and a \<open>Result\<close> a sum with \<open>Inl\<close> the error.
  A method that takes \<open>&mut self\<close> is an operation: it reads the host environment \<open>env\<close> (active
  hardfork, block time, chain id, and hash, recovery and verification functions, which are
  external code and therefore arbitrary), and returns an error or a value, the new storage and the
  events. An error carries no storage, as the EVM reverts the call frame. A method that takes
  \<open>&self\<close> is a function into a sum. Operations are composed with \<open>bind\<close>, in the order of the
  source, one definition per Rust function, and the fork conditions of the source are kept.

  \<^bold>\<open>Theories.\<close>

  \<^item> \<open>Tempo_Prelude\<close>: machine integers with Rust's checked and saturating arithmetic, operations, Hoare
    triples (\<open>valid\<close>, \<open>preserves\<close>), state components (locale \<open>lens\<close>) and inductive invariants
    (locale \<open>stepwise_invariant\<close>), with the simp collections the other theories use.
    \<open>Tempo_Hardfork\<close>, \<open>Tempo_Address\<close>, \<open>Tempo_Types\<close>, \<open>Tempo_Bytes\<close>: hardforks
    (\<open>hardfork/src/lib.rs\<close>), address formats (\<open>primitives/src/address.rs\<close>), errors and events, byte strings.
  \<^item> \<open>Nonce_Manager\<close> (\<open>nonce/mod.rs\<close>): nonces and the ring of expiring nonces; no replay before expiry,
    as an invariant over all sequences of calls.
  \<^item> \<open>Enumerable_Set\<close> (\<open>storage/types/set.rs\<close>, \<open>vec.rs\<close>): stored vectors and sets with their position map;
    they refine mathematical sets. The keychain's call scopes are kept in such sets.
  \<^item> \<open>Address_Registry\<close> (\<open>address_registry/mod.rs\<close>) and \<open>Policy_Registry\<close> (\<open>tip403_registry/mod.rs\<close>): virtual
    addresses; transfer, compound and receive policies. Authorization is proved to refine an
    abstract map from policy ids to policies, cached policy types to be coherent.
  \<^item> \<open>Account_Keychain\<close>, \<open>Keychain_Spending\<close> (\<open>account_keychain/mod.rs\<close>): access keys and call scopes; spending
    fails exactly beyond the limit, and a window spends at most its limit.
  \<^item> \<open>TIP20_Ledger\<close>, \<open>TIP20_Accounting\<close>, \<open>TIP20_Supply\<close>, \<open>TIP20_Token\<close>, \<open>TIP20_Factory\<close> (\<open>tip20/*.rs\<close>,
    \<open>tip20_factory/mod.rs\<close>): the token, from the ledger core to the methods with policy checks,
    virtual recipients, blocked transfers, rewards, permits and quote tokens.
  \<^item> \<open>Receive_Guard\<close>, \<open>Guard_Claims\<close> (\<open>receive_policy_guard/mod.rs\<close>), \<open>Fee_AMM\<close>, \<open>Fee_Manager\<close>
    (\<open>tip_fee_manager/*.rs\<close>), \<open>Storage_Credits\<close> (\<open>storage_credits/*.rs\<close>), \<open>Channel_State\<close>,
    \<open>Channel_Reserve\<close> (\<open>tip20_channel_reserve/mod.rs\<close>): the components that hold tokens of others.
  \<^item> \<open>Chain_State\<close>, \<open>Chain_Calls\<close>: the storage all precompiles share, the dispatchers, and \<open>chain_step\<close> and
    \<open>reachable\<close>: everything that external accounts and the protocol can do, over hardforks that
    activate one after another. Locale \<open>chain_invariant\<close> is the induction over them.
  \<^item> \<open>Token_Laws\<close>, \<open>Token_Fields\<close>, \<open>Custody\<close>: a property of one token that the ledger operations keep
    (locale \<open>guarded_law\<close> and its extensions) is carried through every method of every precompile. The
    invariants below are interpretations of these locales.
  \<^item> \<open>Chain_Ledger\<close> (supply and rewards), \<open>Transfer_Spec\<close>, \<open>TIP20_Liveness\<close> (which transfers succeed and
    what they do), \<open>Guard_Solvency\<close>, \<open>TIP20_Quotes\<close> (the walk along quote tokens ends),
    \<open>Channel_Effects\<close>, \<open>Channel_Solvency\<close>, \<open>Channel_Liveness\<close>, \<open>Channel_Properties\<close>: the properties of
    reachable states. \<open>Chain_Examples\<close> and \<open>Channel_Examples\<close> build concrete reachable states.
  \<^item> \<open>Tempo_Signatures\<close> (\<open>primitives/src/transaction/tt_signature.rs\<close>, \<open>signature_verifier/mod.rs\<close>): wire
    formats and recovery of the four signature schemes; round trips and non-malleability.
  \<^item> \<open>Storage_Packing\<close> (\<open>storage/packing.rs\<close>), \<open>Order_Book\<close>, \<open>Order_Properties\<close>
    (\<open>stablecoin_dex/orderbook.rs\<close>, \<open>order/mod.rs\<close>): prices, orders, trade steps and the tick bitmap of
    the exchange.

  \<^bold>\<open>What the properties say together.\<close> In every state the chain can reach, the balances of a token add
  up to its supply, below its cap; the guard can pay every receipt and the reserve every channel,
  pending rewards are covered; funds leave the guard once per receipt and a channel only with the
  consent the protocol asks for; and the payouts users rely on (claims of rewards, withdrawal and
  closing of channels) succeed. A transfer is decided by the first failing check of a stated list,
  from the resolution of the recipient to the receipt of a blocked one, with no case left out.
  Policies, keys, sets and signatures refine their abstract meaning.

  \<^bold>\<open>Loops.\<close> Loops over lists are structural. The walk along quote tokens has no bound in the source and is
  a partial function whose termination in reachable states is a property. The bitmap searches
  terminate by a measure on the word index. No definition uses fuel.

  \<^bold>\<open>Assumptions that appear as hypotheses.\<close> Signature recovery yields no address of a precompile or
  token (\<open>no_system_keys\<close>); where two receipts or channels must not share a key, the hash function
  separates their encodings. Both are shown to hold of a concrete environment in the witnesses. The
  sender of a transaction (\<open>tx_origin\<close>) is any address in the model, so the payouts of the reserve
  assume that the reserve has not sent the transaction with an access key.

  \<^bold>\<open>Not modelled.\<close> Gas, out-of-gas and database errors; ABI decoding and encoding apart from hashed
  encodings; view calls that return a stored field; slot addresses of mappings (different locations
  are different cells). The exchange's operations on its storage (\<open>stablecoin_dex/mod.rs\<close>,
  \<open>order/storage.rs\<close>): its token movements are steps of the chain, pulling from the caller and paying
  from its custody. Validator configuration, zone and committee precompiles: tables for the consensus
  layer and wrappers around code outside the repository. The transaction handler, pool, payload
  builder, consensus and node, and the forks of Reth, revm and Alloy: databases, networking,
  concurrency and the EVM interpreter.
\<close>

end
